(* ===== verification/Go_Prelude.thy ===== *)
theory Go_Prelude
  imports Main "HOL-Library.Sublist"
begin

text \<open>
  Shared vocabulary of the development.

  \<^item> \<open>outcome\<close>: what a Go call does, return a value or panic;
  \<^item> \<open>error + 'a\<close>: the pair \<open>(result, error)\<close> of a Go function, \<open>Inl\<close> when the error is not nil;
  \<^item> \<open>wrap_int\<close>: two's complement wrap-around of the sized integer types;
  \<^item> \<open>gotime\<close>: \<open>time.Time\<close>, counted in nanoseconds from Go's zero time, ordered by
    \<open>Before\<close>/\<open>After\<close>; durations are integers in nanoseconds (\<open>time.Duration\<close>);
  \<^item> \<open>ranges_over\<close>: a visiting order of a Go map. The \<open>range\<close> statement visits the
    keys of a map in an unspecified order, so every operation that ranges over a map takes the order
    as an argument and the theorems hold for each of them.

  Three collections of facts are used across the theories: \<open>go_string\<close> (rewriting of the
  \<open>strings\<close> package), \<open>state_frame\<close> (which parts of a state an operation leaves
  alone) and \<open>db_laws\<close> (the \<open>database/sql\<close> model).
\<close>

named_theorems go_string "rewriting of the strings package"
named_theorems state_frame "what an operation leaves unchanged"
named_theorems db_laws "behaviour of the database/sql model"

section \<open>Outcomes and errors\<close>

type_synonym go_error = string

datatype 'a outcome = Ret 'a | Panic string

section \<open>Sized integers\<close>

definition wrap_int :: "nat \<Rightarrow> int \<Rightarrow> int" where
  "wrap_int w x = (x + 2 ^ (w - 1)) mod 2 ^ w - 2 ^ (w - 1)"

abbreviation wrap64 :: "int \<Rightarrow> int" where "wrap64 \<equiv> wrap_int 64"
abbreviation wrap32 :: "int \<Rightarrow> int" where "wrap32 \<equiv> wrap_int 32"

abbreviation max_int64 :: int where "max_int64 \<equiv> 9223372036854775807"

lemma wrap64_id: "- 9223372036854775808 \<le> x \<Longrightarrow> x \<le> max_int64 \<Longrightarrow> wrap64 x = x"
  by (simp add: wrap_int_def)

lemma wrap32_id: "- 2147483648 \<le> x \<Longrightarrow> x \<le> 2147483647 \<Longrightarrow> wrap32 x = x"
  by (simp add: wrap_int_def)

section \<open>Time\<close>

datatype gotime = Time (nanos: int)

instantiation gotime :: linorder
begin

definition less_eq_gotime :: "gotime \<Rightarrow> gotime \<Rightarrow> bool" where
  "less_eq_gotime s t \<longleftrightarrow> nanos s \<le> nanos t"

definition less_gotime :: "gotime \<Rightarrow> gotime \<Rightarrow> bool" where
  "less_gotime s t \<longleftrightarrow> nanos s < nanos t"

instance
  by standard (auto simp: less_eq_gotime_def less_gotime_def intro: gotime.expand)

end

definition zero_time :: gotime where
  "zero_time = Time 0"

definition time_add :: "gotime \<Rightarrow> int \<Rightarrow> gotime" where
  "time_add t d = Time (nanos t + d)"

abbreviation second :: int where "second \<equiv> 1000000000"
abbreviation minute :: int where "minute \<equiv> 60 * second"

lemma time_add_less_iff [simp]: "time_add s d < time_add t d \<longleftrightarrow> s < t"
  by (simp add: time_add_def less_gotime_def)

lemma Time_less_iff [simp]: "Time a < Time b \<longleftrightarrow> a < b"
  by (simp add: less_gotime_def)

lemma Time_le_iff [simp]: "Time a \<le> Time b \<longleftrightarrow> a \<le> b"
  by (simp add: less_eq_gotime_def)

section \<open>Maps and the order a range visits them in\<close>

definition ranges_over :: "'k list \<Rightarrow> ('k \<rightharpoonup> 'v) \<Rightarrow> bool" where
  "ranges_over ks m \<longleftrightarrow> distinct ks \<and> set ks = dom m"

lemma ranges_overD:
  assumes "ranges_over ks m"
  shows "distinct ks" and "k \<in> set ks \<longleftrightarrow> k \<in> dom m"
  using assms by (auto simp: ranges_over_def)

lemma ranges_over_empty [simp]: "ranges_over ks (\<lambda>_. None) \<longleftrightarrow> ks = []"
  by (auto simp: ranges_over_def)

section \<open>Lists\<close>

lemma find_SomeD: "find P xs = Some x \<Longrightarrow> x \<in> set xs \<and> P x"
  by (auto simp: find_Some_iff)

lemma case_find_None_iff:
  "(case find P xs of None \<Rightarrow> a | Some x \<Rightarrow> Some (f x)) = None \<longleftrightarrow>
     (\<forall>x \<in> set xs. \<not> P x) \<and> a = None"
proof (cases "find P xs")
  case None
  then have "\<forall>x \<in> set xs. \<not> P x" by (metis find_None_iff)
  with None show ?thesis by simp
next
  case (Some x)
  then show ?thesis by (auto dest: find_SomeD)
qed


lemma rev_dropWhile_decomp:
  "\<exists>zs. xs = rev (dropWhile P (rev xs)) @ zs \<and> (\<forall>z \<in> set zs. P z)"
proof -
  have "xs = rev (dropWhile P (rev xs)) @ rev (takeWhile P (rev xs))"
    by (metis rev_append rev_rev_ident takeWhile_dropWhile_id)
  then show ?thesis
    by (metis set_rev set_takeWhileD)
qed

lemma rev_dropWhile_last:
  "rev (dropWhile P (rev xs)) \<noteq> [] \<Longrightarrow> \<not> P (last (rev (dropWhile P (rev xs))))"
  by (simp add: last_rev hd_dropWhile)

end
