(* ===== verification/Go_Strings.thy ===== *)
theory Go_Strings
  imports Go_Prelude
begin

text \<open>
  The parts of Go's \<open>strings\<close>, \<open>strconv\<close> and \<open>fmt\<close> packages that the program
  calls. A Go string is a sequence of bytes: a HOL \<open>string\<close>, whose characters are the 256
  bytes, and \<open>length\<close> is \<open>len\<close>.

  \<open>TrimSpace\<close> is exact for every byte string: it knows the UTF-8 encodings of all the runes
  of \<open>unicode.IsSpace\<close>. \<open>ToLower\<close>/\<open>ToUpper\<close> change the ASCII letters and leave
  other bytes as they are. \<open>EqualFold\<close> folds ASCII letters and the two other runes whose
  simple folding is an ASCII letter (the long s and the Kelvin sign), so it is exact whenever one
  side is ASCII. \<open>Split\<close> and \<open>TrimRight\<close> are for one ASCII separator and an ASCII
  cut set; \<open>Fields\<close> is for ASCII input.
\<close>

section \<open>Bytes\<close>

definition is_digit :: "char \<Rightarrow> bool" where
  "is_digit c \<longleftrightarrow> 48 \<le> (of_char c :: nat) \<and> (of_char c :: nat) \<le> 57"

definition is_upper :: "char \<Rightarrow> bool" where
  "is_upper c \<longleftrightarrow> 65 \<le> (of_char c :: nat) \<and> (of_char c :: nat) \<le> 90"

definition is_lower :: "char \<Rightarrow> bool" where
  "is_lower c \<longleftrightarrow> 97 \<le> (of_char c :: nat) \<and> (of_char c :: nat) \<le> 122"

definition is_word :: "char \<Rightarrow> bool" where
  "is_word c \<longleftrightarrow> is_digit c \<or> is_upper c \<or> is_lower c \<or> c = CHR ''_''"

definition is_ascii :: "char \<Rightarrow> bool" where
  "is_ascii c \<longleftrightarrow> (of_char c :: nat) < 128"

text \<open>\<open>\s\<close> of Go's regular expressions, and the ASCII runes of \<open>unicode.IsSpace\<close>.\<close>

definition is_re_space :: "char \<Rightarrow> bool" where
  "is_re_space c \<longleftrightarrow> c \<in> {CHR '' '', CHR 0x09, CHR 0x0A, CHR 0x0C, CHR 0x0D}"

definition is_ascii_space :: "char \<Rightarrow> bool" where
  "is_ascii_space c \<longleftrightarrow> is_re_space c \<or> c = CHR 0x0B"

definition lower_char :: "char \<Rightarrow> char" where
  "lower_char c = (if is_upper c then char_of ((of_char c :: nat) + 32) else c)"

definition upper_char :: "char \<Rightarrow> char" where
  "upper_char c = (if is_lower c then char_of ((of_char c :: nat) - 32) else c)"

lemma of_char_lower_char:
  "(of_char (lower_char c) :: nat) = (if is_upper c then of_char c + 32 else of_char c)"
  by (auto simp: lower_char_def is_upper_def)

lemma of_char_upper_char:
  "(of_char (upper_char c) :: nat) = (if is_lower c then of_char c - 32 else of_char c)"
  by (auto simp: upper_char_def is_lower_def)

lemma char_eq_of_char: "c = d \<longleftrightarrow> (of_char c :: nat) = of_char d"
  by simp

lemma lower_upper_char [go_string]: "lower_char (upper_char c) = lower_char c"
  by (simp only: char_eq_of_char of_char_lower_char)
    (auto simp: of_char_upper_char is_upper_def is_lower_def of_char_lower_char)

lemma lower_lower_char [go_string]: "lower_char (lower_char c) = lower_char c"
  by (simp only: char_eq_of_char of_char_lower_char)
    (auto simp: is_upper_def of_char_lower_char)

section \<open>Case mapping\<close>

definition to_lower :: "string \<Rightarrow> string" where
  "to_lower s = map lower_char s"

definition to_upper :: "string \<Rightarrow> string" where
  "to_upper s = map upper_char s"

fun fold_key :: "string \<Rightarrow> string" where
  "fold_key [] = []"
| "fold_key (a # s) =
     (if a = CHR 0xC5 \<and> take 1 s = [CHR 0xBF] then CHR ''s'' # fold_key (drop 1 s)
      else if a = CHR 0xE2 \<and> take 2 s = [CHR 0x84, CHR 0xAA] then CHR ''k'' # fold_key (drop 2 s)
      else lower_char a # fold_key s)"

definition equal_fold :: "string \<Rightarrow> string \<Rightarrow> bool" where
  "equal_fold s t \<longleftrightarrow> fold_key s = fold_key t"

lemma upper_char_high: "\<not> is_ascii c \<Longrightarrow> upper_char c = c"
  by (simp add: upper_char_def is_lower_def is_ascii_def)

lemma upper_char_eq_high: "\<not> is_ascii d \<Longrightarrow> upper_char c = d \<longleftrightarrow> c = d"
  by (auto simp: char_eq_of_char of_char_upper_char is_lower_def is_ascii_def split: if_splits
      simp del: of_char_eq_iff)

lemma map_upper_char_eq_high:
  "list_all (\<lambda>d. \<not> is_ascii d) ds \<Longrightarrow> map upper_char s = ds \<longleftrightarrow> s = ds"
  by (induction ds arbitrary: s) (auto simp: Cons_eq_map_conv map_eq_Cons_conv upper_char_eq_high upper_char_high)

lemma fold_key_to_upper [go_string]: "fold_key (to_upper s) = fold_key s"
proof (induction s rule: fold_key.induct)
  case (2 a s)
  have h: "\<not> is_ascii (CHR 0xC5)" "\<not> is_ascii (CHR 0xE2)" "\<not> is_ascii (CHR 0xBF)"
    "\<not> is_ascii (CHR 0x84)" "\<not> is_ascii (CHR 0xAA)"
    by (simp_all add: is_ascii_def)
  have t1: "take 1 (map upper_char s) = [CHR 0xBF] \<longleftrightarrow> take 1 s = [CHR 0xBF]"
    using map_upper_char_eq_high [of "[CHR 0xBF]" "take 1 s"] h by (simp add: take_map)
  have t2: "take 2 (map upper_char s) = [CHR 0x84, CHR 0xAA] \<longleftrightarrow> take 2 s = [CHR 0x84, CHR 0xAA]"
    using map_upper_char_eq_high [of "[CHR 0x84, CHR 0xAA]" "take 2 s"] h by (simp add: take_map)
  show ?case
    using "2.IH" h t1 t2
    by (simp add: to_upper_def upper_char_eq_high drop_map lower_upper_char)
qed (simp add: to_upper_def)

lemma equal_fold_refl [simp]: "equal_fold s s"
  by (simp add: equal_fold_def)

lemma equal_fold_sym: "equal_fold s t \<longleftrightarrow> equal_fold t s"
  by (auto simp: equal_fold_def)

lemma equal_fold_trans: "equal_fold s t \<Longrightarrow> equal_fold t u \<Longrightarrow> equal_fold s u"
  by (simp add: equal_fold_def)

lemma equal_fold_to_upper [simp]: "equal_fold s (to_upper t) = equal_fold s t"
  by (simp add: equal_fold_def go_string)

lemma fold_key_ascii: "list_all is_ascii s \<Longrightarrow> fold_key s = map lower_char s"
  by (induction s rule: fold_key.induct) (auto simp: is_ascii_def)

section \<open>Trimming\<close>

definition space_runes :: "string list" where
  "space_runes =
     [[CHR 0x09], [CHR 0x0A], [CHR 0x0B], [CHR 0x0C], [CHR 0x0D], [CHR '' ''],
      [CHR 0xC2, CHR 0x85], [CHR 0xC2, CHR 0xA0], [CHR 0xE1, CHR 0x9A, CHR 0x80],
      [CHR 0xE2, CHR 0x80, CHR 0x80], [CHR 0xE2, CHR 0x80, CHR 0x81],
      [CHR 0xE2, CHR 0x80, CHR 0x82], [CHR 0xE2, CHR 0x80, CHR 0x83],
      [CHR 0xE2, CHR 0x80, CHR 0x84], [CHR 0xE2, CHR 0x80, CHR 0x85],
      [CHR 0xE2, CHR 0x80, CHR 0x86], [CHR 0xE2, CHR 0x80, CHR 0x87],
      [CHR 0xE2, CHR 0x80, CHR 0x88], [CHR 0xE2, CHR 0x80, CHR 0x89],
      [CHR 0xE2, CHR 0x80, CHR 0x8A], [CHR 0xE2, CHR 0x80, CHR 0xA8],
      [CHR 0xE2, CHR 0x80, CHR 0xA9], [CHR 0xE2, CHR 0x80, CHR 0xAF],
      [CHR 0xE2, CHR 0x81, CHR 0x9F], [CHR 0xE3, CHR 0x80, CHR 0x80]]"

fun strip_prefixes :: "nat \<Rightarrow> string list \<Rightarrow> string \<Rightarrow> string" where
  "strip_prefixes 0 ps s = s"
| "strip_prefixes (Suc n) ps s =
     (case find (\<lambda>p. prefix p s) ps of
        None \<Rightarrow> s
      | Some p \<Rightarrow> strip_prefixes n ps (drop (length p) s))"

definition trim_left_space :: "string \<Rightarrow> string" where
  "trim_left_space s = strip_prefixes (length s) space_runes s"

definition trim_right_space :: "string \<Rightarrow> string" where
  "trim_right_space s = rev (strip_prefixes (length s) (map rev space_runes) (rev s))"

definition trim_space :: "string \<Rightarrow> string" where
  "trim_space s = trim_right_space (trim_left_space s)"

definition trim_right :: "string \<Rightarrow> string \<Rightarrow> string" where
  "trim_right s cutset = rev (dropWhile (\<lambda>c. c \<in> set cutset) (rev s))"

lemma strip_prefixes_suffix: "suffix (strip_prefixes n ps s) s"
  by (induction n ps s rule: strip_prefixes.induct)
    (auto split: option.splits dest: suffix_order.trans [OF _ suffix_drop])

lemma strip_prefixes_done:
  assumes "[] \<notin> set ps" and "length s \<le> n" and p: "p \<in> set ps"
  shows "\<not> prefix p (strip_prefixes n ps s)"
  using assms
proof (induction n ps s rule: strip_prefixes.induct)
  case (1 ps s)
  then show ?case by (cases p) auto
next
  case (2 n ps s)
  show ?case
  proof (cases "find (\<lambda>p. prefix p s) ps")
    case None
    then have "\<not> prefix p s" using 2(4) by (simp add: find_None_iff)
    with None show ?thesis by simp
  next
    case (Some q)
    then have "q \<in> set ps" by (auto simp: find_Some_iff)
    with 2 have "0 < length q" by (cases q) auto
    with 2(3) have "length (drop (length q) s) \<le> n" unfolding length_drop by arith
    with 2(1) [OF Some] 2(2,4) Some show ?thesis by simp
  qed
qed

lemma Nil_notin_space_runes: "[] \<notin> set space_runes"
  by (simp add: space_runes_def)

section \<open>Splitting\<close>

fun split_on :: "char \<Rightarrow> string \<Rightarrow> string list" where
  "split_on sep [] = [[]]"
| "split_on sep (c # s) =
     (if c = sep then [] # split_on sep s
      else case split_on sep s of [] \<Rightarrow> [[c]] | w # ws \<Rightarrow> (c # w) # ws)"

lemma split_on_nonempty [simp]: "split_on sep s \<noteq> []"
  by (cases s) (auto split: list.splits)

lemma split_on_no_sep: "sep \<notin> set s \<Longrightarrow> split_on sep s = [s]"
  by (induction s) auto

lemma split_on_append: "sep \<notin> set w \<Longrightarrow> split_on sep (w @ sep # s) = w # split_on sep s"
  by (induction w) auto

text \<open>\<open>strings.Fields\<close> on ASCII input: the maximal runs of bytes that are not spaces.\<close>

function string_fields :: "string \<Rightarrow> string list" where
  "string_fields [] = []"
| "string_fields (c # s) =
     (if is_ascii_space c then string_fields s
      else (c # takeWhile (\<lambda>d. \<not> is_ascii_space d) s)
           # string_fields (dropWhile (\<lambda>d. \<not> is_ascii_space d) s))"
  by pat_completeness auto
termination
  by (relation "measure length") (simp_all add: le_imp_less_Suc length_dropWhile_le)

section \<open>Replacing one byte by a string\<close>

definition replace_char :: "char \<Rightarrow> string \<Rightarrow> string \<Rightarrow> string" where
  "replace_char c r s = concat (map (\<lambda>d. if d = c then r else [d]) s)"

section \<open>Decimal numbers\<close>

definition digit_char :: "nat \<Rightarrow> char" where
  "digit_char n = char_of (48 + n)"

definition digit_value :: "char \<Rightarrow> nat" where
  "digit_value c = of_char c - 48"

fun show_nat :: "nat \<Rightarrow> string" where
  "show_nat n = (if n < 10 then [digit_char n] else show_nat (n div 10) @ [digit_char (n mod 10)])"

declare show_nat.simps [simp del]

definition show_int :: "int \<Rightarrow> string" where
  "show_int i = (if i < 0 then CHR ''-'' # show_nat (nat (- i)) else show_nat (nat i))"

definition dec_value :: "string \<Rightarrow> nat" where
  "dec_value s = foldl (\<lambda>acc c. acc * 10 + digit_value c) 0 s"

lemma digit_char_digit [simp]: "n < 10 \<Longrightarrow> is_digit (digit_char n)"
  by (simp add: is_digit_def digit_char_def)

lemma digit_value_char [simp]: "n < 10 \<Longrightarrow> digit_value (digit_char n) = n"
  by (simp add: digit_value_def digit_char_def)

lemma show_nat_digits: "list_all is_digit (show_nat n)"
proof (induction n rule: show_nat.induct)
  case (1 n)
  then show ?case by (subst show_nat.simps) simp
qed

lemma show_nat_nonempty [simp]: "show_nat n \<noteq> []"
  by (subst show_nat.simps) simp

lemma dec_value_snoc: "dec_value (s @ [c]) = dec_value s * 10 + digit_value c"
  by (simp add: dec_value_def)

lemma dec_value_show_nat [simp]: "dec_value (show_nat n) = n"
proof (induction n rule: show_nat.induct)
  case (1 n)
  show ?case
  proof (cases "n < 10")
    case True
    then show ?thesis by (subst show_nat.simps) (simp add: dec_value_def)
  next
    case False
    then show ?thesis
      using 1 by (subst show_nat.simps) (simp add: dec_value_snoc)
  qed
qed

lemma digit_is_word: "is_digit c \<Longrightarrow> is_word c"
  by (simp add: is_word_def)

lemma digit_not_re_space: "is_digit c \<Longrightarrow> \<not> is_re_space c"
  by (auto simp: is_digit_def is_re_space_def)

end
