(* ===== verification/Sql_Parser.thy ===== *)
theory Sql_Parser
  imports Go_Strings Complex_Main
begin

text \<open>
  \<open>internal/security/parser.go\<close>: classification of one SQL statement.

  The TiDB parser is third-party: \<open>Parse\<close> takes it as the argument \<open>tidb\<close>, a
  function from the SQL text to an error or the list of statements. The AST nodes are a datatype with
  the node types the file switches over; every other node is \<open>OtherStmt\<close>. A pointer or
  interface that may be nil is an option. A table name is the original spelling that
  \<open>CIStr.String\<close> returns.
\<close>

section \<open>The AST nodes the code inspects\<close>

text \<open>The dynamic value behind \<open>GetValue()\<close>: its Go type and, where it matters, its value.\<close>

datatype go_value = GNil | GInt64 int | GInt int | GFloat64 rat | GOtherValue

datatype expr_node = ValueExpr go_value | ExprWithoutValue

datatype limit_node = Limit "expr_node option"

datatype result_set =
    TableSource result_set
  | Join "result_set option" "result_set option"
  | TableName string
  | OtherResultSet

text \<open>\<open>*ast.TableRefsClause\<close>; nil is \<open>None\<close> at the use sites.\<close>

datatype table_refs_clause = TableRefsClause (TableRefs: result_set)

datatype stmt_node =
    SelectStmt "table_refs_clause option" "expr_node option" "limit_node option"
  | InsertStmt "table_refs_clause option"
  | UpdateStmt "table_refs_clause option" "expr_node option" "limit_node option"
  | DeleteStmt "table_refs_clause option" "expr_node option" "limit_node option"
  | CreateTableStmt "string option"
  | CreateIndexStmt "string option"
  | AlterTableStmt "string option"
  | DropTableStmt "string list"
  | TruncateTableStmt "string option"
  | RenameTableStmt "string option list"
  | ShowStmt
  | OtherStmt string

section \<open>Parsed statements\<close>

datatype SQLType =
    SQLTypeSelect | SQLTypeInsert | SQLTypeUpdate | SQLTypeDelete
  | SQLTypeCreateTable | SQLTypeCreateIndex | SQLTypeAlterTable
  | SQLTypeDrop | SQLTypeTruncate | SQLTypeRename
  | SQLTypeShow | SQLTypeExplain | SQLTypeOther

fun SQLType_String :: "SQLType \<Rightarrow> string" where
  "SQLType_String SQLTypeSelect = ''SELECT''"
| "SQLType_String SQLTypeInsert = ''INSERT''"
| "SQLType_String SQLTypeUpdate = ''UPDATE''"
| "SQLType_String SQLTypeDelete = ''DELETE''"
| "SQLType_String SQLTypeCreateTable = ''CREATE_TABLE''"
| "SQLType_String SQLTypeCreateIndex = ''CREATE_INDEX''"
| "SQLType_String SQLTypeAlterTable = ''ALTER_TABLE''"
| "SQLType_String SQLTypeDrop = ''DROP''"
| "SQLType_String SQLTypeTruncate = ''TRUNCATE''"
| "SQLType_String SQLTypeRename = ''RENAME''"
| "SQLType_String SQLTypeShow = ''SHOW''"
| "SQLType_String SQLTypeExplain = ''EXPLAIN''"
| "SQLType_String SQLTypeOther = ''OTHER''"

definition IsDML :: "SQLType \<Rightarrow> bool" where
  "IsDML t =
     (case t of
        SQLTypeSelect \<Rightarrow> True | SQLTypeInsert \<Rightarrow> True
      | SQLTypeUpdate \<Rightarrow> True | SQLTypeDelete \<Rightarrow> True | _ \<Rightarrow> False)"

definition IsDDL :: "SQLType \<Rightarrow> bool" where
  "IsDDL t =
     (case t of
        SQLTypeCreateTable \<Rightarrow> True | SQLTypeCreateIndex \<Rightarrow> True | SQLTypeAlterTable \<Rightarrow> True
      | SQLTypeDrop \<Rightarrow> True | SQLTypeTruncate \<Rightarrow> True | SQLTypeRename \<Rightarrow> True | _ \<Rightarrow> False)"

record ParsedSQL =
  Original :: string
  SqlType :: SQLType
  Tables :: "string list"
  HasWhere :: bool
  HasLimit :: bool
  LimitValue :: int
  AST :: stmt_node

section \<open>Extraction\<close>

text \<open>Conversion of a float64 to int truncates towards zero.\<close>

definition trunc_rat :: "rat \<Rightarrow> int" where
  "trunc_rat q = (if 0 \<le> q then \<lfloor>q\<rfloor> else \<lceil>q\<rceil>)"

definition getLimitValue :: "expr_node option \<Rightarrow> int" where
  "getLimitValue expr =
     (case expr of
        None \<Rightarrow> 0
      | Some (ValueExpr (GInt64 n)) \<Rightarrow> n
      | Some (ValueExpr (GInt n)) \<Rightarrow> n
      | Some (ValueExpr (GFloat64 q)) \<Rightarrow> trunc_rat q
      | Some _ \<Rightarrow> 0)"

fun extractTablesFromNode :: "result_set option \<Rightarrow> string list" where
  "extractTablesFromNode None = []"
| "extractTablesFromNode (Some (TableSource src)) =
     (case src of TableName t \<Rightarrow> [t] | _ \<Rightarrow> [])"
| "extractTablesFromNode (Some (Join l r)) =
     extractTablesFromNode l @ extractTablesFromNode r"
| "extractTablesFromNode (Some (TableName t)) = [t]"
| "extractTablesFromNode (Some OtherResultSet) = []"

definition extractTablesFromTableRefs :: "table_refs_clause option \<Rightarrow> string list" where
  "extractTablesFromTableRefs node =
     (case node of None \<Rightarrow> [] | Some c \<Rightarrow> extractTablesFromNode (Some (TableRefs c)))"

definition table_of :: "string option \<Rightarrow> string list" where
  "table_of t = (case t of None \<Rightarrow> [] | Some n \<Rightarrow> [n])"

definition empty_parsed :: "stmt_node \<Rightarrow> string \<Rightarrow> SQLType \<Rightarrow> ParsedSQL" where
  "empty_parsed stmt original t =
     \<lparr>Original = original, SqlType = t, Tables = [], HasWhere = False, HasLimit = False,
      LimitValue = 0, AST = stmt\<rparr>"

definition parseStmt :: "stmt_node \<Rightarrow> string \<Rightarrow> ParsedSQL" where
  "parseStmt stmt original =
     (let result = empty_parsed stmt original in
      case stmt of
        SelectStmt from_clause where_expr limit \<Rightarrow>
          (result SQLTypeSelect)
            \<lparr>HasWhere := where_expr \<noteq> None,
             HasLimit := limit \<noteq> None,
             LimitValue := (case limit of None \<Rightarrow> 0 | Some (Limit count) \<Rightarrow> getLimitValue count),
             Tables := extractTablesFromTableRefs from_clause\<rparr>
      | InsertStmt tbl \<Rightarrow>
          (result SQLTypeInsert)\<lparr>Tables := extractTablesFromTableRefs tbl\<rparr>
      | UpdateStmt refs where_expr limit \<Rightarrow>
          (result SQLTypeUpdate)
            \<lparr>HasWhere := where_expr \<noteq> None, HasLimit := limit \<noteq> None,
             Tables := extractTablesFromTableRefs refs\<rparr>
      | DeleteStmt refs where_expr limit \<Rightarrow>
          (result SQLTypeDelete)
            \<lparr>HasWhere := where_expr \<noteq> None, HasLimit := limit \<noteq> None,
             Tables := extractTablesFromTableRefs refs\<rparr>
      | CreateTableStmt t \<Rightarrow> (result SQLTypeCreateTable)\<lparr>Tables := table_of t\<rparr>
      | CreateIndexStmt t \<Rightarrow> (result SQLTypeCreateIndex)\<lparr>Tables := table_of t\<rparr>
      | AlterTableStmt t \<Rightarrow> (result SQLTypeAlterTable)\<lparr>Tables := table_of t\<rparr>
      | DropTableStmt ts \<Rightarrow> (result SQLTypeDrop)\<lparr>Tables := ts\<rparr>
      | TruncateTableStmt t \<Rightarrow> (result SQLTypeTruncate)\<lparr>Tables := table_of t\<rparr>
      | RenameTableStmt ts \<Rightarrow> (result SQLTypeRename)\<lparr>Tables := concat (map table_of ts)\<rparr>
      | ShowStmt \<Rightarrow> result SQLTypeShow
      | OtherStmt _ \<Rightarrow> result SQLTypeOther)"

text \<open>\<open>Inr None\<close> is the pair \<open>(nil, nil)\<close> that an input without statements yields.\<close>

definition Parse ::
  "(string \<Rightarrow> go_error + stmt_node list) \<Rightarrow> string \<Rightarrow> go_error + ParsedSQL option" where
  "Parse tidb sql =
     (case tidb sql of
        Inl e \<Rightarrow> Inl e
      | Inr stmts \<Rightarrow>
          (case stmts of
             [] \<Rightarrow> Inr None
           | s # _ \<Rightarrow> Inr (Some (parseStmt s sql))))"

definition GetLimit :: "ParsedSQL \<Rightarrow> int \<times> bool" where
  "GetLimit p =
     (if HasLimit p \<and> LimitValue p > 0 then (LimitValue p, True) else (0, False))"

section \<open>Lemmas\<close>

lemma IsDML_iff:
  "IsDML t \<longleftrightarrow> t \<in> {SQLTypeSelect, SQLTypeInsert, SQLTypeUpdate, SQLTypeDelete}"
  by (cases t) (auto simp: IsDML_def)

lemma IsDDL_iff:
  "IsDDL t \<longleftrightarrow> t \<in> {SQLTypeCreateTable, SQLTypeCreateIndex, SQLTypeAlterTable,
     SQLTypeDrop, SQLTypeTruncate, SQLTypeRename}"
  by (cases t) (auto simp: IsDDL_def)

lemma SQLType_String_inj: "SQLType_String s = SQLType_String t \<Longrightarrow> s = t"
  by (cases s; cases t) simp_all

lemma SQLType_String_ascii: "list_all is_ascii (SQLType_String t)"
  by (cases t) (simp_all add: is_ascii_def)

lemma parseStmt_Original [simp]: "Original (parseStmt s q) = q"
  by (cases s) (simp_all add: parseStmt_def empty_parsed_def Let_def)

lemma parseStmt_AST [simp]: "AST (parseStmt s q) = s"
  by (cases s) (simp_all add: parseStmt_def empty_parsed_def Let_def)

lemma parseStmt_Type:
  "SqlType (parseStmt s q) =
     (case s of SelectStmt _ _ _ \<Rightarrow> SQLTypeSelect | InsertStmt _ \<Rightarrow> SQLTypeInsert
      | UpdateStmt _ _ _ \<Rightarrow> SQLTypeUpdate | DeleteStmt _ _ _ \<Rightarrow> SQLTypeDelete
      | CreateTableStmt _ \<Rightarrow> SQLTypeCreateTable | CreateIndexStmt _ \<Rightarrow> SQLTypeCreateIndex
      | AlterTableStmt _ \<Rightarrow> SQLTypeAlterTable | DropTableStmt _ \<Rightarrow> SQLTypeDrop
      | TruncateTableStmt _ \<Rightarrow> SQLTypeTruncate | RenameTableStmt _ \<Rightarrow> SQLTypeRename
      | ShowStmt \<Rightarrow> SQLTypeShow | OtherStmt _ \<Rightarrow> SQLTypeOther)"
  by (cases s) (simp_all add: parseStmt_def empty_parsed_def Let_def)

lemma parseStmt_never_explain: "SqlType (parseStmt s q) \<noteq> SQLTypeExplain"
  by (cases s) (simp_all add: parseStmt_Type)

lemma Parse_SomeE:
  assumes "Parse tidb sql = Inr (Some p)"
  obtains s ss where "tidb sql = Inr (s # ss)" and "p = parseStmt s sql"
  using assms by (auto simp: Parse_def split: sum.splits list.splits)

lemma Parse_nil_iff: "Parse tidb sql = Inr None \<longleftrightarrow> tidb sql = Inr []"
  by (auto simp: Parse_def split: sum.splits list.splits)

lemma Parse_error_iff: "Parse tidb sql = Inl e \<longleftrightarrow> tidb sql = Inl e"
  by (auto simp: Parse_def split: sum.splits list.splits)

section \<open>The table names of a join tree\<close>

text \<open>
  A declarative account of the tables a FROM clause names: a name occurs in a node when it is the
  node, the direct source of it, or occurs on either side of a join.
\<close>

inductive names_table :: "string \<Rightarrow> result_set \<Rightarrow> bool" where
  name: "names_table t (TableName t)"
| source: "names_table t (TableSource (TableName t))"
| left: "names_table t l \<Longrightarrow> names_table t (Join (Some l) r)"
| right: "names_table t r \<Longrightarrow> names_table t (Join l (Some r))"

inductive_simps names_table_simps [simp]:
  "names_table t (TableName u)"
  "names_table t (TableSource src)"
  "names_table t (Join l r)"
  "names_table t OtherResultSet"

lemma set_extractTablesFromNode:
  "t \<in> set (extractTablesFromNode n) \<longleftrightarrow> (\<exists>m. n = Some m \<and> names_table t m)"
  by (induction n rule: extractTablesFromNode.induct) (auto split: result_set.splits)

end
