(* ===== verification/Config.thy ===== *)
theory Config
  imports Go_Strings
begin

text \<open>
  \<open>internal/config/config.go\<close> and \<open>internal/config/validation.go\<close>: the
  configuration structures, environment expansion, defaults, the rule lookups and the validators.

  The structures are records with the source's fields (prefixed where two structures share a field
  name). A Go map is a HOL map; loops over one take the visiting order as an argument.
  \<open>os.Getenv\<close> is the argument \<open>getenv\<close> of \<open>expandEnv\<close>. The YAML decoder
  and the file system are third-party or external: \<open>Load\<close> and \<open>LoadSecurity\<close> take
  them as arguments.
\<close>

section \<open>Structures\<close>

record ServerConfig =
  srv_Host :: string
  srv_Port :: int
  JWTSecret :: string

record ClusterConfig =
  cl_Host :: string
  cl_Port :: int
  Username :: string
  Password :: string
  MaxOpenConns :: int
  MaxIdleConns :: int
  ConnMaxLifetime :: int

type_synonym ClustersConfig = "string \<rightharpoonup> ClusterConfig"

record DatabaseConfig =
  Cluster :: string

type_synonym DatabasesConfig = "string \<rightharpoonup> DatabaseConfig"

record SecurityRef =
  ConfigFile :: string

record SecurityRules =
  AllowedDML :: "string list"
  AllowedDDL :: "string list"
  Blocked :: "string list"
  AutoLimit :: int
  MaxLimit :: int
  QueryTimeout :: int
  MaxRows :: int

record SecurityConfig =
  Security :: SecurityRules

record AuditConfig =
  Enabled :: bool
  LogFile :: string
  MaxSQLLength :: int
  MaxSizeMB :: int
  MaxBackups :: int
  MaxAgeDays :: int
  Compress :: bool

record Config =
  cfg_Server :: ServerConfig
  Clusters :: ClustersConfig
  Databases :: DatabasesConfig
  cfg_Security :: SecurityRef
  Audit :: AuditConfig

section \<open>Environment expansion\<close>

text \<open>
  \<open>regexp.MustCompile(`\$\{([^}]+)\}`)\<close> with \<open>ReplaceAllStringFunc\<close>: at each
  position, from the left, a match is \<open>${\<close>, at least one byte that is not \<open>}\<close>, and
  \<open>}\<close>; scanning goes on after it.
\<close>

definition env_match :: "string \<Rightarrow> (string \<times> string) option" where
  "env_match s =
     (if take 2 s = ''${'' then
        let body = drop 2 s;
            name = takeWhile (\<lambda>c. c \<noteq> CHR ''}'') body;
            rest = dropWhile (\<lambda>c. c \<noteq> CHR ''}'') body
        in if name \<noteq> [] \<and> rest \<noteq> [] then Some (name, tl rest) else None
      else None)"

lemma env_match_shorter: "env_match s = Some (v, r) \<Longrightarrow> length r < length s"
  using length_dropWhile_le [of "\<lambda>c. c \<noteq> CHR ''}''" "drop 2 s"]
  by (cases s) (auto simp: env_match_def Let_def split: if_splits)

function expandEnv :: "(string \<Rightarrow> string) \<Rightarrow> string \<Rightarrow> string" where
  "expandEnv getenv [] = []"
| "expandEnv getenv (c # s) =
     (case env_match (c # s) of
        Some (varName, rest) \<Rightarrow> getenv varName @ expandEnv getenv rest
      | None \<Rightarrow> c # expandEnv getenv s)"
  by pat_completeness auto
termination
  by (relation "measure (\<lambda>(g, s). length s)") (auto dest: env_match_shorter)

section \<open>Defaults\<close>

definition default_cluster :: "ClusterConfig \<Rightarrow> ClusterConfig" where
  "default_cluster c0 =
     (let c1 = (if cl_Port c0 = 0 then c0\<lparr>cl_Port := 3306\<rparr> else c0);
          c2 = (if MaxOpenConns c1 = 0 then c1\<lparr>MaxOpenConns := 10\<rparr> else c1);
          c3 = (if MaxIdleConns c2 = 0 then c2\<lparr>MaxIdleConns := 5\<rparr> else c2)
      in if ConnMaxLifetime c3 = 0 then c3\<lparr>ConnMaxLifetime := 5 * minute\<rparr> else c3)"

fun default_clusters :: "string list \<Rightarrow> ClustersConfig \<Rightarrow> ClustersConfig" where
  "default_clusters [] m = m"
| "default_clusters (name # names) m =
     (case m name of
        None \<Rightarrow> default_clusters names m
      | Some cluster \<Rightarrow> default_clusters names (m(name \<mapsto> default_cluster cluster)))"

definition default_audit :: "AuditConfig \<Rightarrow> AuditConfig" where
  "default_audit a0 =
     (let a1 = (if MaxSQLLength a0 = 0 then a0\<lparr>MaxSQLLength := 2000\<rparr> else a0);
          a2 = (if MaxSizeMB a1 = 0 then a1\<lparr>MaxSizeMB := 100\<rparr> else a1);
          a3 = (if MaxBackups a2 = 0 then a2\<lparr>MaxBackups := 10\<rparr> else a2)
      in if MaxAgeDays a3 = 0 then a3\<lparr>MaxAgeDays := 30\<rparr> else a3)"

definition setDefaults :: "string list \<Rightarrow> Config \<Rightarrow> Config" where
  "setDefaults names cfg =
     cfg\<lparr>cfg_Server := (if srv_Port (cfg_Server cfg) = 0
                        then (cfg_Server cfg)\<lparr>srv_Port := 8080\<rparr> else cfg_Server cfg),
         Clusters := default_clusters names (Clusters cfg),
         Audit := default_audit (Audit cfg)\<rparr>"

section \<open>Loading\<close>

text \<open>\<open>order\<close> gives the order in which the range visits the clusters that were read.\<close>

definition Load ::
  "(string \<Rightarrow> go_error + string) \<Rightarrow> (string \<Rightarrow> string) \<Rightarrow> (string \<Rightarrow> go_error + Config) \<Rightarrow>
   (ClustersConfig \<Rightarrow> string list) \<Rightarrow> string \<Rightarrow> go_error + Config" where
  "Load read_file getenv unmarshal order path =
     (case read_file path of
        Inl e \<Rightarrow> Inl (''read config file: '' @ e)
      | Inr data \<Rightarrow>
          (case unmarshal (expandEnv getenv data) of
             Inl e \<Rightarrow> Inl (''parse config file: '' @ e)
           | Inr cfg \<Rightarrow> Inr (setDefaults (order (Clusters cfg)) cfg)))"

definition LoadSecurity ::
  "(string \<Rightarrow> go_error + string) \<Rightarrow> (string \<Rightarrow> go_error + SecurityConfig) \<Rightarrow>
   string \<Rightarrow> go_error + SecurityConfig" where
  "LoadSecurity read_file unmarshal path =
     (case read_file path of
        Inl e \<Rightarrow> Inl (''read security config file: '' @ e)
      | Inr data \<Rightarrow>
          (case unmarshal data of
             Inl e \<Rightarrow> Inl (''parse security config file: '' @ e)
           | Inr cfg \<Rightarrow> Inr cfg))"

section \<open>Lookups\<close>

definition GetDSN :: "ClusterConfig \<Rightarrow> string" where
  "GetDSN c =
     Username c @ '':'' @ Password c @ ''@tcp('' @ cl_Host c @ '':'' @ show_int (cl_Port c)
       @ '')/?parseTime=true&loc=Local&charset=utf8mb4''"

text \<open>The three list lookups are one loop over the respective list.\<close>

fun fold_member :: "string \<Rightarrow> string list \<Rightarrow> bool" where
  "fold_member opUpper [] = False"
| "fold_member opUpper (x # xs) = (if equal_fold x opUpper then True else fold_member opUpper xs)"

definition IsBlocked :: "SecurityRules \<Rightarrow> string \<Rightarrow> bool" where
  "IsBlocked s op = fold_member (to_upper op) (Blocked s)"

definition IsDMLAllowed :: "SecurityRules \<Rightarrow> string \<Rightarrow> bool" where
  "IsDMLAllowed s op = fold_member (to_upper op) (AllowedDML s)"

definition IsDDLAllowed :: "SecurityRules \<Rightarrow> string \<Rightarrow> bool" where
  "IsDDLAllowed s op = fold_member (to_upper op) (AllowedDDL s)"

section \<open>Validation\<close>

datatype config_error =
    InvalidServerPort int
  | ClusterError string config_error
  | AuditLogFileRequired
  | AuditMaxSizeNotPositive
  | HostRequired
  | InvalidPort int
  | UsernameRequired
  | MaxOpenNotPositive
  | MaxIdleNegative
  | LifetimeTooShort
  | DMLConflict string
  | DDLConflict string
  | QueryTimeoutTooLong int
  | MaxRowsTooLarge int
  | AutoLimitTooLarge int

definition ClusterConfig_Validate :: "ClusterConfig \<Rightarrow> config_error option" where
  "ClusterConfig_Validate c =
     (if cl_Host c = '''' then Some HostRequired
      else if cl_Port c \<le> 0 \<or> cl_Port c > 65535 then Some (InvalidPort (cl_Port c))
      else if Username c = '''' then Some UsernameRequired
      else if MaxOpenConns c \<le> 0 then Some MaxOpenNotPositive
      else if MaxIdleConns c < 0 then Some MaxIdleNegative
      else if ConnMaxLifetime c > 0 \<and> ConnMaxLifetime c < second then Some LifetimeTooShort
      else None)"

fun validate_clusters :: "string list \<Rightarrow> ClustersConfig \<Rightarrow> config_error option" where
  "validate_clusters [] m = None"
| "validate_clusters (name # names) m =
     (case m name of
        None \<Rightarrow> validate_clusters names m
      | Some cluster \<Rightarrow>
          (case ClusterConfig_Validate cluster of
             Some e \<Rightarrow> Some (ClusterError name e)
           | None \<Rightarrow> validate_clusters names m))"

definition Config_Validate :: "string list \<Rightarrow> Config \<Rightarrow> config_error option" where
  "Config_Validate names c =
     (if srv_Port (cfg_Server c) < 0 \<or> srv_Port (cfg_Server c) > 65535
      then Some (InvalidServerPort (srv_Port (cfg_Server c)))
      else case validate_clusters names (Clusters c) of
             Some e \<Rightarrow> Some e
           | None \<Rightarrow>
               if Enabled (Audit c) then
                 if LogFile (Audit c) = '''' then Some AuditLogFileRequired
                 else if MaxSizeMB (Audit c) \<le> 0 then Some AuditMaxSizeNotPositive
                 else None
               else None)"

definition SecurityRules_Validate :: "SecurityRules \<Rightarrow> config_error option" where
  "SecurityRules_Validate s =
     (case find (IsBlocked s) (AllowedDML s) of
        Some dml \<Rightarrow> Some (DMLConflict dml)
      | None \<Rightarrow>
          (case find (IsBlocked s) (AllowedDDL s) of
             Some ddl \<Rightarrow> Some (DDLConflict ddl)
           | None \<Rightarrow>
               if QueryTimeout s > 5 * minute then Some (QueryTimeoutTooLong (QueryTimeout s))
               else if MaxRows s > 1000000 then Some (MaxRowsTooLarge (MaxRows s))
               else if AutoLimit s > 10000 then Some (AutoLimitTooLarge (AutoLimit s))
               else None))"

section \<open>Lemmas\<close>

lemma fold_member_iff: "fold_member op xs \<longleftrightarrow> (\<exists>x \<in> set xs. equal_fold x op)"
  by (induction xs) auto

lemma IsBlocked_iff: "IsBlocked s op \<longleftrightarrow> (\<exists>b \<in> set (Blocked s). equal_fold b op)"
  by (simp add: IsBlocked_def fold_member_iff)

lemma IsDMLAllowed_iff: "IsDMLAllowed s op \<longleftrightarrow> (\<exists>b \<in> set (AllowedDML s). equal_fold b op)"
  by (simp add: IsDMLAllowed_def fold_member_iff)

lemma IsDDLAllowed_iff: "IsDDLAllowed s op \<longleftrightarrow> (\<exists>b \<in> set (AllowedDDL s). equal_fold b op)"
  by (simp add: IsDDLAllowed_def fold_member_iff)

lemmas rule_lookup_iffs = IsBlocked_iff IsDMLAllowed_iff IsDDLAllowed_iff

lemma env_match_no_dollar: "CHR ''$'' \<notin> set s \<Longrightarrow> env_match s = None"
  by (cases s) (auto simp: env_match_def)

lemma expandEnv_plain:
  "CHR ''$'' \<notin> set pre \<Longrightarrow> expandEnv getenv (pre @ s) = pre @ expandEnv getenv s"
proof (induction pre)
  case (Cons c pre)
  then have "env_match (c # pre @ s) = None" by (auto simp: env_match_def)
  with Cons show ?case by simp
qed simp

lemma expandEnv_reference:
  assumes "v \<noteq> ''''" and "CHR ''}'' \<notin> set v"
  shows "expandEnv getenv (''${'' @ v @ ''}'' @ s) = getenv v @ expandEnv getenv s"
proof -
  have "takeWhile (\<lambda>c. c \<noteq> CHR ''}'') (v @ ''}'' @ s) = v"
    and "dropWhile (\<lambda>c. c \<noteq> CHR ''}'') (v @ ''}'' @ s) = ''}'' @ s"
    using assms(2) by (induction v) auto
  then have "env_match (''${'' @ v @ ''}'' @ s) = Some (v, s)"
    using assms(1) by (simp add: env_match_def)
  then show ?thesis by simp
qed

lemma default_clusters_eq:
  "distinct names \<Longrightarrow> default_clusters names m n =
     (if n \<in> set names then map_option default_cluster (m n) else m n)"
  by (induction names arbitrary: m) (auto split: option.splits)

lemma default_clusters_ranges:
  "ranges_over names m \<Longrightarrow> default_clusters names m = (\<lambda>n. map_option default_cluster (m n))"
  by (rule ext) (auto simp: default_clusters_eq ranges_over_def split: option.splits)

lemma default_cluster_fields:
  "cl_Host (default_cluster c) = cl_Host c"
  "Username (default_cluster c) = Username c"
  "Password (default_cluster c) = Password c"
  "cl_Port (default_cluster c) = (if cl_Port c = 0 then 3306 else cl_Port c)"
  "MaxOpenConns (default_cluster c) = (if MaxOpenConns c = 0 then 10 else MaxOpenConns c)"
  "MaxIdleConns (default_cluster c) = (if MaxIdleConns c = 0 then 5 else MaxIdleConns c)"
  "ConnMaxLifetime (default_cluster c) =
     (if ConnMaxLifetime c = 0 then 5 * minute else ConnMaxLifetime c)"
  by (simp_all add: default_cluster_def)

lemma default_cluster_idem: "default_cluster (default_cluster c) = default_cluster c"
  by (rule ClusterConfig.equality) (simp_all add: default_cluster_fields)

lemma default_audit_fields:
  "Enabled (default_audit a) = Enabled a"
  "LogFile (default_audit a) = LogFile a"
  "Compress (default_audit a) = Compress a"
  "MaxSQLLength (default_audit a) = (if MaxSQLLength a = 0 then 2000 else MaxSQLLength a)"
  "MaxSizeMB (default_audit a) = (if MaxSizeMB a = 0 then 100 else MaxSizeMB a)"
  "MaxBackups (default_audit a) = (if MaxBackups a = 0 then 10 else MaxBackups a)"
  "MaxAgeDays (default_audit a) = (if MaxAgeDays a = 0 then 30 else MaxAgeDays a)"
  by (simp_all add: default_audit_def)

lemma default_audit_idem: "default_audit (default_audit a) = default_audit a"
  by (rule AuditConfig.equality) (simp_all add: default_audit_fields)

lemma ClusterConfig_Validate_None_iff:
  "ClusterConfig_Validate c = None \<longleftrightarrow>
     cl_Host c \<noteq> '''' \<and> 0 < cl_Port c \<and> cl_Port c \<le> 65535 \<and> Username c \<noteq> '''' \<and>
     0 < MaxOpenConns c \<and> 0 \<le> MaxIdleConns c \<and>
     (ConnMaxLifetime c \<le> 0 \<or> second \<le> ConnMaxLifetime c)"
  by (auto simp: ClusterConfig_Validate_def)

lemma validate_clusters_None_iff:
  "validate_clusters names m = None \<longleftrightarrow>
     (\<forall>n \<in> set names. \<forall>c. m n = Some c \<longrightarrow> ClusterConfig_Validate c = None)"
  by (induction names) (auto split: option.splits)

lemma SecurityRules_Validate_None_iff:
  "SecurityRules_Validate s = None \<longleftrightarrow>
     (\<forall>op \<in> set (AllowedDML s) \<union> set (AllowedDDL s). \<not> IsBlocked s op) \<and>
     QueryTimeout s \<le> 5 * minute \<and> MaxRows s \<le> 1000000 \<and> AutoLimit s \<le> 10000"
  by (auto simp: SecurityRules_Validate_def case_find_None_iff split: if_splits)

end
