(* ===== verification/Checker.thy ===== *)
theory Checker
  imports Sql_Parser Config
begin

text \<open>
  \<open>internal/security/checker.go\<close>: the decision whether a parsed statement may run.

  A \<open>Checker\<close> holds the rules pointer (\<open>None\<close> when no security file is configured).
  The abstract policy \<open>policy\<close> says which statement types may run; the checker is proved to
  decide exactly it. The locale \<open>sql_gate\<close> is what the query handler needs from a checker,
  and \<open>rules_cell\<close> the contract of a component whose rules are replaced on reload (the checker
  and the rewriter).
\<close>

record Checker =
  chk_rules :: "SecurityRules option"

record CheckResult =
  Allowed :: bool
  Reason :: string
  AutoRewrite :: bool

definition NewChecker :: "SecurityRules option \<Rightarrow> Checker" where
  "NewChecker rules = \<lparr>chk_rules = rules\<rparr>"

definition allow :: CheckResult where
  "allow = \<lparr>Allowed = True, Reason = '''', AutoRewrite = False\<rparr>"

definition deny :: "string \<Rightarrow> CheckResult" where
  "deny reason = \<lparr>Allowed = False, Reason = reason, AutoRewrite = False\<rparr>"

definition blockedOps :: "SQLType \<rightharpoonup> string" where
  "blockedOps =
     [SQLTypeDrop \<mapsto> ''DROP'', SQLTypeTruncate \<mapsto> ''TRUNCATE'', SQLTypeRename \<mapsto> ''RENAME'']"

definition isBlocked :: "Checker \<Rightarrow> ParsedSQL \<Rightarrow> bool" where
  "isBlocked c parsed =
     (case chk_rules c of
        None \<Rightarrow> False
      | Some rules \<Rightarrow>
          (case blockedOps (SqlType parsed) of
             Some op \<Rightarrow> IsBlocked rules op
           | None \<Rightarrow> False))"

definition checkDML :: "Checker \<Rightarrow> ParsedSQL \<Rightarrow> CheckResult" where
  "checkDML c parsed =
     (case chk_rules c of
        None \<Rightarrow> allow
      | Some rules \<Rightarrow>
          if \<not> IsDMLAllowed rules (SQLType_String (SqlType parsed))
          then deny (''DML operation '' @ SQLType_String (SqlType parsed) @ '' is not allowed'')
          else if (SqlType parsed = SQLTypeUpdate \<or> SqlType parsed = SQLTypeDelete)
                  \<and> \<not> HasWhere parsed
          then \<lparr>Allowed = True, Reason = ''auto LIMIT will be added for safety'',
                AutoRewrite = True\<rparr>
          else allow)"

definition checkDDL :: "Checker \<Rightarrow> ParsedSQL \<Rightarrow> CheckResult" where
  "checkDDL c parsed =
     (case chk_rules c of
        None \<Rightarrow> allow
      | Some rules \<Rightarrow>
          if \<not> IsDDLAllowed rules (SQLType_String (SqlType parsed))
          then deny (''DDL operation '' @ SQLType_String (SqlType parsed) @ '' is not allowed'')
          else allow)"

definition Check :: "Checker \<Rightarrow> ParsedSQL option \<Rightarrow> CheckResult" where
  "Check c parsed =
     (case parsed of
        None \<Rightarrow> deny ''empty or invalid SQL''
      | Some p \<Rightarrow>
          if isBlocked c p
          then deny (''operation '' @ SQLType_String (SqlType p) @ '' is blocked'')
          else if IsDML (SqlType p) then checkDML c p
          else if IsDDL (SqlType p) then checkDDL c p
          else if SqlType p = SQLTypeShow \<or> SqlType p = SQLTypeExplain then allow
          else deny (''unknown operation type: '' @ SQLType_String (SqlType p)))"

definition Checker_UpdateRules :: "Checker \<Rightarrow> SecurityRules option \<Rightarrow> Checker" where
  "Checker_UpdateRules c rules = c\<lparr>chk_rules := rules\<rparr>"

section \<open>The policy\<close>

text \<open>Which statement types may run under given rules, as the configuration file states it.\<close>

definition policy :: "SecurityRules option \<Rightarrow> SQLType \<Rightarrow> bool" where
  "policy rules t \<longleftrightarrow>
     t = SQLTypeShow \<or> t = SQLTypeExplain \<or>
     (case rules of
        None \<Rightarrow> t \<noteq> SQLTypeOther
      | Some r \<Rightarrow>
          (IsDML t \<and> (\<exists>op \<in> set (AllowedDML r). equal_fold op (SQLType_String t))) \<or>
          (IsDDL t \<and> (\<exists>op \<in> set (AllowedDDL r). equal_fold op (SQLType_String t)) \<and>
           \<not> (t \<in> {SQLTypeDrop, SQLTypeTruncate, SQLTypeRename} \<and>
               (\<exists>op \<in> set (Blocked r). equal_fold op (SQLType_String t)))))"

text \<open>When the LIMIT clause has to be added.\<close>

definition unfiltered_write :: "ParsedSQL \<Rightarrow> bool" where
  "unfiltered_write p \<longleftrightarrow>
     (SqlType p = SQLTypeUpdate \<or> SqlType p = SQLTypeDelete) \<and> \<not> HasWhere p"

lemma allow_simps [simp]:
  "Allowed allow" "Reason allow = ''''" "\<not> AutoRewrite allow"
  "\<not> Allowed (deny r)" "Reason (deny r) = r" "\<not> AutoRewrite (deny r)"
  by (simp_all add: allow_def deny_def)

lemma isBlocked_iff:
  "isBlocked c p \<longleftrightarrow>
     (\<exists>r. chk_rules c = Some r \<and> SqlType p \<in> {SQLTypeDrop, SQLTypeTruncate, SQLTypeRename} \<and>
       (\<exists>op \<in> set (Blocked r). equal_fold op (SQLType_String (SqlType p))))"
  by (cases "SqlType p") (auto simp: isBlocked_def blockedOps_def IsBlocked_iff split: option.splits)

lemma Allowed_checkDML:
  "Allowed (checkDML c p) \<longleftrightarrow>
     (\<forall>r. chk_rules c = Some r \<longrightarrow> IsDMLAllowed r (SQLType_String (SqlType p)))"
  by (auto simp: checkDML_def split: option.splits)

lemma AutoRewrite_checkDML:
  "AutoRewrite (checkDML c p) \<longleftrightarrow>
     chk_rules c \<noteq> None \<and> unfiltered_write p \<and> Allowed (checkDML c p)"
  by (auto simp: checkDML_def unfiltered_write_def split: option.splits)

lemma Allowed_checkDDL:
  "Allowed (checkDDL c p) \<longleftrightarrow>
     (\<forall>r. chk_rules c = Some r \<longrightarrow> IsDDLAllowed r (SQLType_String (SqlType p)))"
  by (auto simp: checkDDL_def split: option.splits)

lemma AutoRewrite_checkDDL: "\<not> AutoRewrite (checkDDL c p)"
  by (auto simp: checkDDL_def split: option.splits)

lemma Allowed_Check:
  "Allowed (Check c (Some p)) \<longleftrightarrow> \<not> isBlocked c p \<and>
     (if IsDML (SqlType p) then Allowed (checkDML c p)
      else if IsDDL (SqlType p) then Allowed (checkDDL c p)
      else SqlType p = SQLTypeShow \<or> SqlType p = SQLTypeExplain)"
  by (simp add: Check_def)

lemma Check_policy: "Allowed (Check c (Some p)) \<longleftrightarrow> policy (chk_rules c) (SqlType p)"
  by (cases "chk_rules c"; cases "SqlType p")
    (simp_all add: Allowed_Check isBlocked_iff policy_def Allowed_checkDML Allowed_checkDDL
      IsDML_def IsDDL_def rule_lookup_iffs conj_commute del: SQLType_String.simps)

lemma Check_AutoRewrite:
  "AutoRewrite (Check c (Some p)) \<longleftrightarrow>
     chk_rules c \<noteq> None \<and> unfiltered_write p \<and> Allowed (Check c (Some p))"
proof (cases "IsDML (SqlType p)")
  case True
  then have "\<not> isBlocked c p" by (auto simp: isBlocked_iff IsDML_iff)
  with True show ?thesis by (simp add: Check_def AutoRewrite_checkDML)
next
  case False
  then show ?thesis
    by (auto simp: Check_def AutoRewrite_checkDDL unfiltered_write_def IsDML_iff)
qed

lemma Check_nil: "Check c None = deny ''empty or invalid SQL''"
  by (simp add: Check_def)

section \<open>Contracts\<close>

text \<open>What the query handler relies on.\<close>

locale sql_gate =
  fixes decide :: "'c \<Rightarrow> ParsedSQL option \<Rightarrow> CheckResult"
    and rules_of :: "'c \<Rightarrow> SecurityRules option"
  assumes gate_nil: "\<not> Allowed (decide c None)"
    and gate_policy: "Allowed (decide c (Some p)) \<longleftrightarrow> policy (rules_of c) (SqlType p)"
    and gate_rewrite: "AutoRewrite (decide c (Some p)) \<longleftrightarrow>
      rules_of c \<noteq> None \<and> unfiltered_write p \<and> Allowed (decide c (Some p))"
begin

lemma passes_only_policy:
  "Allowed (decide c q) \<Longrightarrow> \<exists>p. q = Some p \<and> policy (rules_of c) (SqlType p)"
  by (cases q) (auto simp: gate_nil gate_policy)

lemma never_passes_other:
  "Allowed (decide c (Some p)) \<Longrightarrow> SqlType p \<noteq> SQLTypeOther"
  by (auto simp: gate_policy policy_def IsDML_iff IsDDL_iff split: option.splits)

lemma blocked_wins:
  assumes "rules_of c = Some r" and "op \<in> set (Blocked r)"
    and "equal_fold op (SQLType_String (SqlType p))"
    and "SqlType p \<in> {SQLTypeDrop, SQLTypeTruncate, SQLTypeRename}"
  shows "\<not> Allowed (decide c (Some p))"
  using assms by (auto simp: gate_policy policy_def IsDML_iff)

lemma selects_not_rewritten: "SqlType p = SQLTypeSelect \<Longrightarrow> \<not> AutoRewrite (decide c (Some p))"
  by (simp add: gate_rewrite unfiltered_write_def)

end

interpretation gate: sql_gate Check chk_rules
  by unfold_locales (auto simp: Check_nil Check_policy Check_AutoRewrite)

locale rules_cell =
  fixes rules_of :: "'s \<Rightarrow> SecurityRules option"
    and new_cell :: "SecurityRules option \<Rightarrow> 's"
    and update_rules :: "'s \<Rightarrow> SecurityRules option \<Rightarrow> 's"
  assumes rules_new: "rules_of (new_cell r) = r"
    and rules_update: "rules_of (update_rules s r) = r"
    and update_update: "update_rules (update_rules s r) r' = update_rules s r'"
begin

lemma last_update_wins:
  "rules_of (foldl update_rules s rs) = (if rs = [] then rules_of s else last rs)"
  by (induction rs arbitrary: s) (simp_all add: rules_update)

end

interpretation checker_cell: rules_cell chk_rules NewChecker Checker_UpdateRules
  by unfold_locales (simp_all add: NewChecker_def Checker_UpdateRules_def)

end
