(* ===== verification/Rewriter.thy ===== *)
theory Rewriter
  imports Checker
begin

text \<open>
  \<open>internal/security/rewriter.go\<close>: adding a LIMIT to unfiltered writes and capping the LIMIT
  of a SELECT, both on the text of the statement.

  \<open>limitRegex\<close> is \<open>(?i)\bLIMIT\s+(\d+)\<close>. \<open>limit_match\<close> is one match attempt
  at the start of a text and \<open>limit_replace\<close> is \<open>ReplaceAllStringFunc\<close>: scanning from
  the left, with the word-boundary state of the preceding byte, taking the first match and going on
  after it. What the two rewritings do to the LIMIT clauses of a text is in \<open>Limit_Clauses\<close>.
\<close>

section \<open>The regular expression\<close>

definition limit_match :: "string \<Rightarrow> (string \<times> string \<times> string \<times> string) option" where
  "limit_match s =
     (if to_upper (take 5 s) = ''LIMIT'' then
        let sp = takeWhile is_re_space (drop 5 s);
            r1 = dropWhile is_re_space (drop 5 s);
            ds = takeWhile is_digit r1;
            rest = dropWhile is_digit r1
        in if sp \<noteq> [] \<and> ds \<noteq> [] then Some (take 5 s, sp, ds, rest) else None
      else None)"

lemma limit_match_SomeD:
  assumes "limit_match s = Some (kw, sp, ds, rest)"
  shows "s = kw @ sp @ ds @ rest" and "to_upper kw = ''LIMIT''" and "length kw = 5"
    and "sp \<noteq> []" and "list_all is_re_space sp" and "ds \<noteq> []" and "list_all is_digit ds"
    and "rest = [] \<or> \<not> is_digit (hd rest)"
proof -
  have up: "to_upper (take 5 s) = ''LIMIT''" and kw: "kw = take 5 s"
    and sp: "sp = takeWhile is_re_space (drop 5 s)"
    and ds: "ds = takeWhile is_digit (dropWhile is_re_space (drop 5 s))"
    and rest: "rest = dropWhile is_digit (dropWhile is_re_space (drop 5 s))"
    and ne: "sp \<noteq> []" "ds \<noteq> []"
    using assms by (auto simp: limit_match_def Let_def split: if_splits)
  show "s = kw @ sp @ ds @ rest"
    by (simp add: kw sp ds rest)
  have "length (take 5 s) = length ''LIMIT''"
    using up by (metis length_map to_upper_def)
  then show "length kw = 5" by (simp add: kw)
  show "to_upper kw = ''LIMIT''" using up kw by simp
  show "list_all is_re_space sp" by (auto simp: sp list_all_iff dest: set_takeWhileD)
  show "list_all is_digit ds" by (auto simp: ds list_all_iff dest: set_takeWhileD)
  show "rest = [] \<or> \<not> is_digit (hd rest)" using hd_dropWhile [of is_digit] by (auto simp: rest)
qed (use assms in \<open>auto simp: limit_match_def Let_def split: if_splits\<close>)

lemma limit_match_shorter: "limit_match s = Some (kw, sp, ds, rest) \<Longrightarrow> length rest < length s"
  using limit_match_SomeD(1,3) [of s kw sp ds rest] by simp

function limit_replace :: "(string \<Rightarrow> string) \<Rightarrow> bool \<Rightarrow> string \<Rightarrow> string" where
  "limit_replace f prev_word [] = []"
| "limit_replace f prev_word (c # s) =
     (case (if prev_word then None else limit_match (c # s)) of
        Some (kw, sp, ds, rest) \<Rightarrow> f (kw @ sp @ ds) @ limit_replace f True rest
      | None \<Rightarrow> c # limit_replace f (is_word c) s)"
  by pat_completeness auto
termination
  by (relation "measure (\<lambda>(f, w, s). length s)")
    (auto dest!: limit_match_shorter split: if_splits)

section \<open>The rewriter\<close>

record Rewriter =
  rw_rules :: "SecurityRules option"

record RewriteResult =
  SQL :: string
  Changed :: bool

definition NewRewriter :: "SecurityRules option \<Rightarrow> Rewriter" where
  "NewRewriter rules = \<lparr>rw_rules = rules\<rparr>"

definition addLimit :: "string \<Rightarrow> int \<Rightarrow> string" where
  "addLimit sql limit =
     (if limit \<le> 0 then sql
      else trim_right (trim_space sql) '';'' @ '' LIMIT '' @ show_int limit)"

text \<open>
  \<open>fmt.Sscanf(s, "%d", &limit)\<close> on a text that starts with digits: the value of the leading
  digits, and an error when it does not fit an int (64 bits).
\<close>

definition sscanf_d :: "string \<Rightarrow> int option" where
  "sscanf_d s =
     (let ds = takeWhile is_digit s
      in if ds \<noteq> [] \<and> int (dec_value ds) \<le> max_int64 then Some (int (dec_value ds)) else None)"

definition cap_match :: "int \<Rightarrow> string \<Rightarrow> string" where
  "cap_match maxLimit m =
     (let parts = string_fields m in
      if length parts = 2 then
        (case sscanf_d (parts ! 1) of
           Some limit \<Rightarrow> if limit > maxLimit then ''LIMIT '' @ show_int maxLimit else m
         | None \<Rightarrow> m)
      else m)"

definition capLimit :: "string \<Rightarrow> int \<Rightarrow> string" where
  "capLimit sql maxLimit =
     (if maxLimit \<le> 0 then sql else limit_replace (cap_match maxLimit) False sql)"

definition Rewrite :: "Rewriter \<Rightarrow> ParsedSQL option \<Rightarrow> RewriteResult" where
  "Rewrite r parsed =
     (case (parsed, rw_rules r) of
        (Some p, Some rules) \<Rightarrow>
          let sql = Original p in
          if (SqlType p = SQLTypeUpdate \<or> SqlType p = SQLTypeDelete) \<and> \<not> HasWhere p
             \<and> \<not> HasLimit p \<and> AutoLimit rules > 0
          then \<lparr>SQL = addLimit sql (AutoLimit rules), Changed = True\<rparr>
          else if SqlType p = SQLTypeSelect \<and> MaxLimit rules > 0 \<and> HasLimit p
               \<and> capLimit sql (MaxLimit rules) \<noteq> sql
          then \<lparr>SQL = capLimit sql (MaxLimit rules), Changed = True\<rparr>
          else \<lparr>SQL = sql, Changed = False\<rparr>
      | _ \<Rightarrow> \<lparr>SQL = '''', Changed = False\<rparr>)"

definition Rewriter_UpdateRules :: "Rewriter \<Rightarrow> SecurityRules option \<Rightarrow> Rewriter" where
  "Rewriter_UpdateRules r rules = r\<lparr>rw_rules := rules\<rparr>"

interpretation rewriter_cell: rules_cell rw_rules NewRewriter Rewriter_UpdateRules
  by unfold_locales (simp_all add: NewRewriter_def Rewriter_UpdateRules_def)

section \<open>One match, split by Fields\<close>

lemma re_space_ascii_space: "is_re_space c \<Longrightarrow> is_ascii_space c"
  by (simp add: is_ascii_space_def)

lemma upper_LIMIT_not_space:
  "upper_char c \<in> {CHR ''L'', CHR ''I'', CHR ''M'', CHR ''T''} \<Longrightarrow>
     \<not> is_ascii_space c \<and> is_word c \<and> \<not> is_digit c"
  by (auto simp: is_ascii_space_def is_re_space_def is_word_def is_digit_def is_upper_def is_lower_def
      char_eq_of_char of_char_upper_char split: if_splits simp del: of_char_eq_iff)

lemma kw_bytes:
  assumes "to_upper kw = ''LIMIT''" and "c \<in> set kw"
  shows "\<not> is_ascii_space c \<and> is_word c \<and> \<not> is_digit c"
proof -
  have "upper_char c \<in> set (to_upper kw)" using assms(2) by (simp add: to_upper_def)
  then show ?thesis using assms(1) by (intro upper_LIMIT_not_space) auto
qed

lemma digit_not_space: "is_digit c \<Longrightarrow> \<not> is_ascii_space c"
  by (auto simp: is_digit_def is_ascii_space_def is_re_space_def)

lemma string_fields_word:
  assumes "w \<noteq> []" and "\<forall>c \<in> set w. \<not> is_ascii_space c" and "s = [] \<or> is_ascii_space (hd s)"
  shows "string_fields (w @ s) = w # string_fields s"
proof -
  obtain c cs where w: "w = c # cs" using assms(1) by (cases w) auto
  have "takeWhile (\<lambda>d. \<not> is_ascii_space d) (cs @ s) = cs"
    and "dropWhile (\<lambda>d. \<not> is_ascii_space d) (cs @ s) = s"
    using assms(2,3) w by (cases s; simp add: takeWhile_append dropWhile_append)+
  then show ?thesis using assms(2) w by simp
qed

lemma string_fields_spaces: "\<forall>c \<in> set sp. is_ascii_space c \<Longrightarrow> string_fields (sp @ s) = string_fields s"
  by (induction sp) auto

lemma string_fields_limit_match:
  assumes "limit_match s = Some (kw, sp, ds, rest)"
  shows "string_fields (kw @ sp @ ds) = [kw, ds]"
proof -
  note D = limit_match_SomeD [OF assms]
  have kw: "kw \<noteq> []" "\<forall>c \<in> set kw. \<not> is_ascii_space c"
    using D(3) kw_bytes [OF D(2)] by auto
  have sp: "\<forall>c \<in> set sp. is_ascii_space c" "is_ascii_space (hd (sp @ ds))"
    using D(4,5) by (auto simp: list_all_iff re_space_ascii_space)
  have ds: "\<forall>c \<in> set ds. \<not> is_ascii_space c"
    using D(7) by (auto simp: list_all_iff digit_not_space)
  have "string_fields (kw @ sp @ ds) = kw # string_fields (sp @ ds)"
    by (rule string_fields_word) (use kw sp in auto)
  also have "string_fields (sp @ ds) = string_fields (ds @ [])" using string_fields_spaces [OF sp(1)] by simp
  also have "\<dots> = [ds]"
    using string_fields_word [OF D(6) ds, of "[]"] by simp
  finally show ?thesis .
qed

lemma cap_match_limit:
  assumes "limit_match s = Some (kw, sp, ds, rest)"
  shows "cap_match m (kw @ sp @ ds) =
     (if int (dec_value ds) \<le> max_int64 \<and> int (dec_value ds) > m
      then ''LIMIT '' @ show_int m else kw @ sp @ ds)"
proof -
  note D = limit_match_SomeD [OF assms]
  have "takeWhile is_digit ds = ds" using D(7) by (simp add: list_all_iff)
  then have sc: "sscanf_d ds =
      (if int (dec_value ds) \<le> max_int64 then Some (int (dec_value ds)) else None)"
    using D(6) by (simp only: sscanf_d_def Let_def) simp
  show ?thesis
    by (simp add: cap_match_def string_fields_limit_match [OF assms] sc)
qed

end
