(* ===== verification/Limit_Clauses.thy ===== *)
theory Limit_Clauses
  imports Rewriter
begin

text \<open>
  What the rewriter does to a text, measured against a description of LIMIT clauses that knows nothing of
  the way the rewriter looks for them: a clause stands wherever the five letters, in any case, white
  space and a number follow each other, at the start of a word and up to the last digit. The text is
  cut into its clauses and the bytes between them; capping and adding act on these pieces.
\<close>

section \<open>Clauses and pieces\<close>

definition is_limit_clause :: "string \<Rightarrow> string \<Rightarrow> string \<Rightarrow> bool" where
  "is_limit_clause kw sp ds \<longleftrightarrow>
     list_all2 (\<lambda>c letters. c \<in> set letters) kw [''Ll'', ''Ii'', ''Mm'', ''Ii'', ''Tt''] \<and>
     sp \<noteq> [] \<and> set sp \<subseteq> {CHR '' '', CHR 0x09, CHR 0x0A, CHR 0x0C, CHR 0x0D} \<and>
     ds \<noteq> [] \<and> set ds \<subseteq> set ''0123456789''"

text \<open>A clause of \<open>s\<close>: after no word character, before no digit.\<close>

definition clause_at :: "string \<Rightarrow> string \<Rightarrow> string \<Rightarrow> string \<Rightarrow> string \<Rightarrow> string \<Rightarrow> bool" where
  "clause_at s pre kw sp ds post \<longleftrightarrow>
     s = pre @ kw @ sp @ ds @ post \<and> is_limit_clause kw sp ds \<and>
     (pre = [] \<or> \<not> is_word (last pre)) \<and> (post = [] \<or> \<not> is_digit (hd post))"

datatype piece =
    Byte char
  | Clause string string string

fun piece_text :: "piece \<Rightarrow> string" where
  "piece_text (Byte c) = [c]"
| "piece_text (Clause kw sp ds) = kw @ sp @ ds"

definition pieces_text :: "piece list \<Rightarrow> string" where
  "pieces_text ps = concat (map piece_text ps)"

lemma pieces_text_simps [simp]:
  "pieces_text [] = []" "pieces_text (p # ps) = piece_text p @ pieces_text ps"
  "pieces_text (ps @ qs) = pieces_text ps @ pieces_text qs"
  by (simp_all add: pieces_text_def)

text \<open>One piece, with the texts of those before and after it.\<close>

definition piece_between :: "piece list \<Rightarrow> string \<Rightarrow> piece \<Rightarrow> string \<Rightarrow> bool" where
  "piece_between pieces pre p post \<longleftrightarrow>
     (\<exists>ps qs. pieces = ps @ p # qs \<and> pre = pieces_text ps \<and> post = pieces_text qs)"

lemma piece_between_Nil [simp]: "\<not> piece_between [] pre p post"
  by (simp add: piece_between_def)

lemma piece_between_Cons:
  "piece_between (p0 # pieces) pre p post \<longleftrightarrow>
     p0 = p \<and> pre = [] \<and> post = pieces_text pieces \<or>
     (\<exists>q. pre = piece_text p0 @ q \<and> piece_between pieces q p post)"
proof
  assume "piece_between (p0 # pieces) pre p post"
  then obtain ps qs where p: "p0 # pieces = ps @ p # qs" "pre = pieces_text ps" "post = pieces_text qs"
    unfolding piece_between_def by blast
  then show "p0 = p \<and> pre = [] \<and> post = pieces_text pieces \<or>
     (\<exists>q. pre = piece_text p0 @ q \<and> piece_between pieces q p post)"
    unfolding piece_between_def by (cases ps) (simp, simp, blast)
next
  assume "p0 = p \<and> pre = [] \<and> post = pieces_text pieces \<or>
     (\<exists>q. pre = piece_text p0 @ q \<and> piece_between pieces q p post)"
  then show "piece_between (p0 # pieces) pre p post"
  proof
    assume "\<exists>q. pre = piece_text p0 @ q \<and> piece_between pieces q p post"
    then obtain ps qs where "pre = piece_text p0 @ pieces_text ps" "pieces = ps @ p # qs" "post = pieces_text qs"
      unfolding piece_between_def by blast
    then show ?thesis unfolding piece_between_def by (intro exI [of _ "p0 # ps"] exI [of _ qs]) simp
  qed (auto simp: piece_between_def intro: exI [of _ "[]"])
qed

text \<open>The pieces of a text, all clauses of it among them.\<close>

definition cut_into :: "string \<Rightarrow> piece list \<Rightarrow> bool" where
  "cut_into s pieces \<longleftrightarrow>
     s = pieces_text pieces \<and>
     (\<forall>pre kw sp ds post. clause_at s pre kw sp ds post \<longleftrightarrow> piece_between pieces pre (Clause kw sp ds) post)"

text \<open>Capping a clause: a number above the maximum, as far as it fits 64 bits.\<close>

fun cap_piece :: "int \<Rightarrow> piece \<Rightarrow> piece" where
  "cap_piece m (Byte c) = Byte c"
| "cap_piece m (Clause kw sp ds) =
     (if 0 < m \<and> m < int (dec_value ds) \<and> int (dec_value ds) < 2 ^ 63
      then Clause ''LIMIT'' '' '' (show_int m) else Clause kw sp ds)"

section \<open>Matching\<close>

lemma takeWhile_stop: "\<not> P l \<Longrightarrow> takeWhile P (xs @ l # t) = takeWhile P xs"
  by (induction xs) auto

lemma dropWhile_stop: "\<not> P l \<Longrightarrow> dropWhile P (xs @ l # t) = dropWhile P xs @ l # t"
  by (induction xs) auto

definition extend_match ::
  "string \<Rightarrow> string \<times> string \<times> string \<times> string \<Rightarrow> string \<times> string \<times> string \<times> string" where
  "extend_match t m = (case m of (kw, sp, ds, rest) \<Rightarrow> (kw, sp, ds, rest @ t))"

lemma limit_match_append:
  assumes "5 \<le> length q" and "\<not> is_re_space l" and "\<not> is_digit l"
  shows "limit_match (q @ l # t) = map_option (extend_match (l # t)) (limit_match q)"
  using assms
  by (auto simp: limit_match_def Let_def takeWhile_stop dropWhile_stop extend_match_def)

lemma limit_match_short:
  assumes "length q \<le> 5" and "q \<noteq> []" and "\<not> is_word (last q)"
  shows "limit_match (q @ t) = None"
proof (rule ccontr)
  assume "limit_match (q @ t) \<noteq> None"
  then obtain kw sp ds rest where m: "limit_match (q @ t) = Some (kw, sp, ds, rest)" by auto
  note D = limit_match_SomeD [OF m]
  have "take 5 (q @ t) = kw" using D(1,3) by simp
  then have "last q \<in> set kw" using assms(1,2) by (auto simp: take_append)
  with kw_bytes [OF D(2)] assms(3) show False by blast
qed

lemma limit_match_boundary:
  assumes "q \<noteq> []" and "\<not> is_word (last q)"
    and "\<not> is_re_space l" and "\<not> is_digit l" and "\<not> is_re_space l'" and "\<not> is_digit l'"
  shows "limit_match (q @ l # t) = None \<longleftrightarrow> limit_match (q @ l' # t') = None"
proof (cases "length q < 5")
  case True
  then show ?thesis using assms(1,2) by (simp add: limit_match_short)
next
  case False
  then show ?thesis using assms by (simp add: limit_match_append)
qed

lemma limit_matchI:
  assumes "to_upper kw = ''LIMIT''" and "sp \<noteq> []" and "list_all is_re_space sp"
    and "ds \<noteq> []" and "list_all is_digit ds" and "t = [] \<or> \<not> is_digit (hd t)"
  shows "limit_match (kw @ sp @ ds @ t) = Some (kw, sp, ds, t)"
proof -
  have "length kw = length ''LIMIT''"
    using assms(1) by (metis length_map to_upper_def)
  then have len: "length kw = 5" by simp
  have hd: "\<not> is_re_space (hd ds)" using assms(4,5) by (cases ds) (auto simp: digit_not_re_space)
  have "takeWhile is_re_space (sp @ ds @ t) = sp" "dropWhile is_re_space (sp @ ds @ t) = ds @ t"
    using assms(3,4) hd by (cases ds; simp add: list_all_iff takeWhile_append dropWhile_append)+
  moreover have "takeWhile is_digit (ds @ t) = ds" "dropWhile is_digit (ds @ t) = t"
    using assms(5,6) by (cases t; simp add: list_all_iff takeWhile_append dropWhile_append)+
  ultimately show ?thesis
    using assms len by (simp add: limit_match_def)
qed

lemma limit_match_head:
  assumes "limit_match t = Some m"
  obtains l t' where "t = l # t'" and "\<not> is_re_space l" and "\<not> is_digit l"
proof -
  obtain kw sp ds rest where m: "m = (kw, sp, ds, rest)" by (cases m)
  note D = limit_match_SomeD [OF assms [unfolded m]]
  obtain l kw' where kw: "kw = l # kw'" using D(3) by (cases kw) auto
  then show ?thesis
    using that [of l "kw' @ sp @ ds @ rest"] D(1) kw_bytes [OF D(2), of l]
    by (auto simp: is_ascii_space_def)
qed

lemma LIMIT_letters: "to_upper kw = ''LIMIT'' \<longleftrightarrow>
   list_all2 (\<lambda>c letters. c \<in> set letters) kw [''Ll'', ''Ii'', ''Mm'', ''Ii'', ''Tt'']"
proof -
  have l: "upper_char c = CHR ''L'' \<longleftrightarrow> c = CHR ''L'' \<or> c = CHR ''l''" "upper_char c = CHR ''I'' \<longleftrightarrow> c = CHR ''I'' \<or> c = CHR ''i''"
    "upper_char c = CHR ''M'' \<longleftrightarrow> c = CHR ''M'' \<or> c = CHR ''m''" "upper_char c = CHR ''T'' \<longleftrightarrow> c = CHR ''T'' \<or> c = CHR ''t''" for c
    by (auto simp: char_eq_of_char of_char_upper_char is_lower_def split: if_splits simp del: of_char_eq_iff)
  show ?thesis by (auto simp: to_upper_def map_eq_Cons_conv list_all2_Cons2 l)
qed

lemma digits_are: "is_digit c \<longleftrightarrow> c \<in> set ''0123456789''"
proof
  assume "is_digit c"
  then show "c \<in> set ''0123456789''"
    by (simp add: is_digit_def char_eq_of_char del: of_char_eq_iff) presburger
qed (auto simp: is_digit_def)

lemma limit_clause_iff:
  "is_limit_clause kw sp ds \<longleftrightarrow>
     to_upper kw = ''LIMIT'' \<and> sp \<noteq> [] \<and> list_all is_re_space sp \<and> ds \<noteq> [] \<and> list_all is_digit ds"
proof -
  have "list_all is_re_space sp \<longleftrightarrow> set sp \<subseteq> {CHR '' '', CHR 0x09, CHR 0x0A, CHR 0x0C, CHR 0x0D}"
    unfolding list_all_iff is_re_space_def by blast
  moreover have "list_all is_digit ds \<longleftrightarrow> set ds \<subseteq> set ''0123456789''"
    unfolding list_all_iff digits_are by blast
  ultimately show ?thesis unfolding is_limit_clause_def LIMIT_letters by blast
qed

lemma limit_match_iff:
  "limit_match s = Some (kw, sp, ds, rest) \<longleftrightarrow>
     s = kw @ sp @ ds @ rest \<and> is_limit_clause kw sp ds \<and> (rest = [] \<or> \<not> is_digit (hd rest))"
  using limit_match_SomeD [of s kw sp ds rest] limit_matchI [of kw sp ds rest]
  by (auto simp: limit_clause_iff)

section \<open>Cutting\<close>

function pieces_of :: "bool \<Rightarrow> string \<Rightarrow> piece list" where
  "pieces_of prev_word [] = []"
| "pieces_of prev_word (c # s) =
     (case (if prev_word then None else limit_match (c # s)) of
        Some (kw, sp, ds, rest) \<Rightarrow> Clause kw sp ds # pieces_of True rest
      | None \<Rightarrow> Byte c # pieces_of (is_word c) s)"
  by pat_completeness auto
termination
  by (relation "measure (\<lambda>(w, s). length s)")
    (auto dest!: limit_match_shorter split: if_splits)

text \<open>The two ways a scan goes on.\<close>

lemma scan_cases [case_names empty skip clause]:
  assumes "s = [] \<Longrightarrow> P"
    and "\<And>c s'. s = c # s' \<Longrightarrow> w \<or> limit_match s = None \<Longrightarrow>
      (if w then None else limit_match (c # s')) = None \<Longrightarrow> P"
    and "\<And>kw sp ds rest. \<not> w \<Longrightarrow> s = kw @ sp @ ds @ rest \<Longrightarrow>
      limit_match s = Some (kw, sp, ds, rest) \<Longrightarrow> P"
  shows P
proof (cases s)
  case (Cons c s')
  show P
  proof (cases "if w then None else limit_match (c # s')")
    case None
    show P by (rule assms(2) [OF Cons _ None]) (use None Cons in \<open>cases w; simp\<close>)
  next
    case (Some m)
    obtain kw sp ds rest where m: "m = (kw, sp, ds, rest)" by (cases m)
    have w: "\<not> w" using Some by (cases w) simp_all
    then have "limit_match (c # s') = Some (kw, sp, ds, rest)" using Some m by simp
    then have l: "limit_match s = Some (kw, sp, ds, rest)" unfolding Cons .
    show P by (rule assms(3) [OF w limit_match_SomeD(1) [OF l] l])
  qed
qed (use assms(1) in simp)

lemma pieces_of_match:
  "\<not> w \<Longrightarrow> limit_match t = Some (kw, sp, ds, rest) \<Longrightarrow> pieces_of w t = Clause kw sp ds # pieces_of True rest"
  by (cases t) (simp_all add: limit_match_def to_upper_def)

lemma pieces_of_skip: "w \<or> limit_match (c # s) = None \<Longrightarrow> pieces_of w (c # s) = Byte c # pieces_of (is_word c) s"
  by auto

lemma limit_replace_match:
  "\<not> w \<Longrightarrow> limit_match t = Some (kw, sp, ds, rest) \<Longrightarrow>
     limit_replace f w t = f (kw @ sp @ ds) @ limit_replace f True rest"
  by (cases t) (simp_all add: limit_match_def to_upper_def)

lemma limit_replace_skip:
  "w \<or> limit_match (c # s) = None \<Longrightarrow> limit_replace f w (c # s) = c # limit_replace f (is_word c) s"
  by auto

declare pieces_of.simps(2) [simp del] limit_replace.simps(2) [simp del]

lemma scan_induct [case_names empty skip clause]:
  assumes "\<And>w. P w []"
    and "\<And>w c s. w \<or> limit_match (c # s) = None \<Longrightarrow> P (is_word c) s \<Longrightarrow> P w (c # s)"
    and "\<And>w s kw sp ds rest. \<not> w \<Longrightarrow> limit_match s = Some (kw, sp, ds, rest) \<Longrightarrow> P True rest \<Longrightarrow> P w s"
  shows "P w s"
proof (induction "length s" arbitrary: w s rule: less_induct)
  case less
  show ?case
  proof (cases rule: scan_cases [of s _ w])
    case (skip c s')
    then show ?thesis using assms(2) [of w c s'] less [of s' "is_word c"] by simp
  next
    case (clause kw sp ds rest)
    then show ?thesis using assms(3) less [of rest True] limit_match_shorter by blast
  qed (use assms(1) in simp)
qed

lemma pieces_text_of: "pieces_text (pieces_of w s) = s"
proof (induction w s rule: scan_induct)
  case (clause w s kw sp ds rest)
  then show ?case using limit_match_SomeD(1) [OF clause(2)] by (simp add: pieces_of_match)
qed (simp_all add: pieces_of_skip)

text \<open>The clauses of a text that is entered after a word character, when \<open>w\<close> holds.\<close>

definition clause_from :: "bool \<Rightarrow> string \<Rightarrow> string \<Rightarrow> string \<Rightarrow> string \<Rightarrow> string \<Rightarrow> string \<Rightarrow> bool" where
  "clause_from w s pre kw sp ds post \<longleftrightarrow>
     s = pre @ kw @ sp @ ds @ post \<and> is_limit_clause kw sp ds \<and>
     (if pre = [] then \<not> w else \<not> is_word (last pre)) \<and> (post = [] \<or> \<not> is_digit (hd post))"

lemma clause_at_from: "clause_at s pre kw sp ds post = clause_from False s pre kw sp ds post"
  by (auto simp: clause_at_def clause_from_def)

lemma clause_from_Nil:
  "clause_from w s [] kw sp ds post \<longleftrightarrow> \<not> w \<and> limit_match s = Some (kw, sp, ds, post)"
  by (auto simp: clause_from_def limit_match_iff)

lemma clause_from_Cons:
  "clause_from w (c # s) (b # pre) kw sp ds post \<longleftrightarrow> b = c \<and> clause_from (is_word c) s pre kw sp ds post"
  by (auto simp: clause_from_def)

lemma clause_from_empty: "\<not> clause_from w [] pre kw sp ds post"
  by (auto simp: clause_from_def is_limit_clause_def)

lemma limit_clause_bytes:
  assumes "is_limit_clause kw sp ds"
  shows "kw \<noteq> []" and "c \<in> set kw \<Longrightarrow> is_word c \<and> \<not> is_digit c \<and> \<not> is_re_space c"
    and "c \<in> set sp \<Longrightarrow> is_re_space c" and "c \<in> set ds \<Longrightarrow> is_digit c" and "length kw = 5"
proof -
  have c: "to_upper kw = ''LIMIT''" "list_all is_re_space sp" "list_all is_digit ds"
    using assms by (simp_all add: limit_clause_iff)
  show "length kw = 5" using assms by (auto simp: is_limit_clause_def dest: list_all2_lengthD)
  then show "kw \<noteq> []" by auto
  show "c \<in> set kw \<Longrightarrow> is_word c \<and> \<not> is_digit c \<and> \<not> is_re_space c"
    using kw_bytes [OF c(1)] re_space_ascii_space by blast
  show "c \<in> set sp \<Longrightarrow> is_re_space c" and "c \<in> set ds \<Longrightarrow> is_digit c"
    using c(2,3) by (simp_all add: list_all_iff)
qed

text \<open>Two clauses do not overlap.\<close>

lemma clauses_disjoint:
  assumes m: "is_limit_clause kw0 sp0 ds0" and c: "is_limit_clause kw sp ds"
    and eq: "pre @ kw @ sp @ ds @ post = kw0 @ sp0 @ ds0 @ rest"
    and pre: "pre \<noteq> []" "\<not> is_word (last pre)"
  obtains q where "pre = kw0 @ sp0 @ ds0 @ q"
proof -
  obtain x kw' where x: "kw = x # kw'" using limit_clause_bytes(1) [OF c] by (cases kw) auto
  then have xx: "\<not> is_digit x" "\<not> is_re_space x" using limit_clause_bytes(2) [OF c, of x] by simp_all
  consider q1 where "pre = kw0 @ q1" "q1 @ kw @ sp @ ds @ post = sp0 @ ds0 @ rest" | us where "pre @ us = kw0"
    using eq unfolding append_eq_append_conv2 [of pre] by blast
  then show thesis
  proof cases
    case 1
    from 1(2) have "q1 @ kw @ sp @ ds @ post = (sp0 @ ds0) @ rest" by simp
    then consider q where "q1 = (sp0 @ ds0) @ q" | us where "q1 @ us = sp0 @ ds0" "kw @ sp @ ds @ post = us @ rest"
      unfolding append_eq_append_conv2 [of q1] by blast
    then show thesis
    proof cases
      case (2 us)
      show thesis
      proof (cases us)
        case Nil
        then show thesis using 2(1) 1(1) that [of "[]"] by simp
      next
        case (Cons y us')
      then have "x \<in> set us" using 2(2) by (simp add: x)
      then have "x \<in> set (sp0 @ ds0)" unfolding 2(1) [symmetric] by simp
      then show thesis using xx limit_clause_bytes(3,4) [OF m, of x] by auto
      qed
    qed (use 1 that in simp)
  next
    case 2
    then have "last pre \<in> set kw0" using pre(1) by auto
    then show thesis using limit_clause_bytes(2) [OF m] pre(2) by blast
  qed
qed

lemma clause_after_match:
  assumes m: "limit_match s = Some (kw0, sp0, ds0, rest)" and pre: "pre \<noteq> []"
  shows "clause_from w s pre kw sp ds post \<longleftrightarrow>
    (\<exists>q. pre = kw0 @ sp0 @ ds0 @ q \<and> clause_from True rest q kw sp ds post)"
proof -
  have s: "s = kw0 @ sp0 @ ds0 @ rest" and c0: "is_limit_clause kw0 sp0 ds0" using m by (simp_all add: limit_match_iff)
  have "is_digit (last ds0)" using c0 limit_clause_bytes(4) [OF c0] by (simp add: is_limit_clause_def)
  then have w: "is_word (last ds0)" "ds0 \<noteq> []" using c0 digit_is_word by (auto simp: is_limit_clause_def)
  show ?thesis
  proof
    assume l: "clause_from w s pre kw sp ds post"
    then have eq: "pre @ kw @ sp @ ds @ post = kw0 @ sp0 @ ds0 @ rest" and c: "is_limit_clause kw sp ds"
      and b: "\<not> is_word (last pre)" using pre s by (simp_all add: clause_from_def)
    obtain q where q: "pre = kw0 @ sp0 @ ds0 @ q" by (rule clauses_disjoint [OF c0 c eq pre b])
    moreover have "clause_from True rest q kw sp ds post"
      using l eq b w by (auto simp: q clause_from_def)
    ultimately show "\<exists>q. pre = kw0 @ sp0 @ ds0 @ q \<and> clause_from True rest q kw sp ds post" by blast
  next
    assume "\<exists>q. pre = kw0 @ sp0 @ ds0 @ q \<and> clause_from True rest q kw sp ds post"
    then show "clause_from w s pre kw sp ds post"
      using w by (auto simp: clause_from_def s split: if_splits)
  qed
qed

lemma pieces_of_clauses:
  "clause_from w s pre kw sp ds post \<longleftrightarrow> piece_between (pieces_of w s) pre (Clause kw sp ds) post"
proof (induction w s arbitrary: pre rule: scan_induct)
  case (empty w)
  then show ?case by (simp add: clause_from_empty)
next
  case (skip w c s)
  show ?case
    unfolding pieces_of_skip [OF skip(1)] piece_between_Cons skip(2) [symmetric]
    using skip(1) by (cases pre) (auto simp: clause_from_Nil clause_from_Cons)
next
  case (clause w s kw0 sp0 ds0 rest)
  note r = limit_match_SomeD [OF clause(2)]
  show ?case
    unfolding pieces_of_match [OF clause(1,2)] piece_between_Cons clause(3) [symmetric] pieces_text_of
    using clause(1,2) r(4) clause_after_match [OF clause(2), of pre w kw sp ds post]
    by (cases "pre = []") (auto simp: clause_from_Nil)
qed

lemma cut_pieces_of: "cut_into s (pieces_of False s)"
  unfolding cut_into_def clause_at_from pieces_of_clauses by (simp add: pieces_text_of)

section \<open>Replacing clauses\<close>

lemma limit_replace_after_match:
  assumes "s = [] \<or> \<not> is_digit (hd s)"
  shows "limit_replace f True s = [] \<or> \<not> is_digit (hd (limit_replace f True s))"
  using assms by (cases s) (simp_all add: limit_replace_skip)

text \<open>A replacement leaves the text alone up to its first match.\<close>

lemma limit_replace_first:
  "limit_replace f w s = s \<or>
     (\<exists>p t kw sp ds rest. s = p @ t \<and> limit_match t = Some (kw, sp, ds, rest) \<and>
        limit_replace f w s = p @ f (kw @ sp @ ds) @ limit_replace f True rest \<and>
        (if p = [] then \<not> w else \<not> is_word (last p)))"
proof (induction w s rule: scan_induct)
  case (skip w c s)
  note r = limit_replace_skip [OF skip(1), of f]
  from skip(2) show ?case
  proof
    assume "\<exists>p t kw sp ds rest. s = p @ t \<and> limit_match t = Some (kw, sp, ds, rest) \<and>
      limit_replace f (is_word c) s = p @ f (kw @ sp @ ds) @ limit_replace f True rest \<and>
      (if p = [] then \<not> is_word c else \<not> is_word (last p))"
    then obtain p t kw sp ds rest where h: "s = p @ t" "limit_match t = Some (kw, sp, ds, rest)"
      "limit_replace f (is_word c) s = p @ f (kw @ sp @ ds) @ limit_replace f True rest"
      "if p = [] then \<not> is_word c else \<not> is_word (last p)" by blast
    have "c # s = (c # p) @ t \<and> limit_match t = Some (kw, sp, ds, rest) \<and>
      limit_replace f w (c # s) = (c # p) @ f (kw @ sp @ ds) @ limit_replace f True rest \<and>
      (if c # p = [] then \<not> w else \<not> is_word (last (c # p)))" using h r by (simp split: if_splits)
    then show ?thesis by blast
  qed (simp add: r)
next
  case (clause w s kw sp ds rest)
  have "s = [] @ s \<and> limit_match s = Some (kw, sp, ds, rest) \<and>
    limit_replace f w s = [] @ f (kw @ sp @ ds) @ limit_replace f True rest \<and>
    (if [] = ([] :: string) then \<not> w else \<not> is_word (last ([] :: string)))"
    using clause(1,2) limit_replace_match [OF clause(1,2), of f] by simp
  then show ?case by blast
qed simp

text \<open>A replacement that puts the text of another clause in the place of a clause.\<close>

definition scan_safe :: "(string \<Rightarrow> string) \<Rightarrow> (piece \<Rightarrow> piece) \<Rightarrow> bool" where
  "scan_safe f g \<longleftrightarrow>
     (\<forall>c. g (Byte c) = Byte c) \<and>
     (\<forall>kw sp ds. is_limit_clause kw sp ds \<longrightarrow>
        (\<exists>kw' sp' ds'. g (Clause kw sp ds) = Clause kw' sp' ds' \<and> is_limit_clause kw' sp' ds' \<and>
           f (kw @ sp @ ds) = kw' @ sp' @ ds'))"

lemma scan_safe_match:
  assumes "scan_safe f g" and "limit_match t = Some (kw, sp, ds, rest)" and "X = [] \<or> \<not> is_digit (hd X)"
  obtains kw' sp' ds' where "g (Clause kw sp ds) = Clause kw' sp' ds'"
    and "limit_match (f (kw @ sp @ ds) @ X) = Some (kw', sp', ds', X)"
proof -
  have "is_limit_clause kw sp ds" using assms(2) by (simp add: limit_match_iff)
  then obtain kw' sp' ds' where "g (Clause kw sp ds) = Clause kw' sp' ds'" "is_limit_clause kw' sp' ds'"
    "f (kw @ sp @ ds) = kw' @ sp' @ ds'" using assms(1) unfolding scan_safe_def by blast
  with assms(3) that show thesis by (simp add: limit_match_iff)
qed

lemma no_new_match:
  assumes safe: "scan_safe f g" and none: "limit_match (c # s) = None"
  shows "limit_match (c # limit_replace f (is_word c) s) = None"
  using limit_replace_first [of f "is_word c" s]
proof
  assume "limit_replace f (is_word c) s = s"
  with none show ?thesis by simp
next
  assume "\<exists>p t kw sp ds rest. s = p @ t \<and> limit_match t = Some (kw, sp, ds, rest) \<and>
        limit_replace f (is_word c) s = p @ f (kw @ sp @ ds) @ limit_replace f True rest \<and>
        (if p = [] then \<not> is_word c else \<not> is_word (last p))"
  then obtain p t kw sp ds rest where h: "s = p @ t" "limit_match t = Some (kw, sp, ds, rest)"
    "limit_replace f (is_word c) s = p @ f (kw @ sp @ ds) @ limit_replace f True rest"
    "if p = [] then \<not> is_word c else \<not> is_word (last p)" by blast
  let ?X = "limit_replace f True rest"
  have X: "?X = [] \<or> \<not> is_digit (hd ?X)"
    by (rule limit_replace_after_match) (rule limit_match_SomeD(8) [OF h(2)])
  obtain kw' sp' ds' where m: "limit_match (f (kw @ sp @ ds) @ ?X) = Some (kw', sp', ds', ?X)"
    by (rule scan_safe_match [OF safe h(2) X])
  obtain l t' where l: "t = l # t'" "\<not> is_re_space l" "\<not> is_digit l"
    using h(2) by (rule limit_match_head)
  obtain l2 t2 where l2: "f (kw @ sp @ ds) @ ?X = l2 # t2" "\<not> is_re_space l2" "\<not> is_digit l2"
    using m by (rule limit_match_head)
  have "\<not> is_word (last (c # p))" using h(4) by (simp split: if_splits)
  then have "limit_match ((c # p) @ l # t') = None \<longleftrightarrow> limit_match ((c # p) @ l2 # t2) = None"
    by (intro limit_match_boundary) (use l l2 in auto)
  with none h(1,3) l(1) l2(1) show ?thesis by simp
qed

lemma pieces_of_limit_replace:
  assumes safe: "scan_safe f g"
  shows "pieces_of w (limit_replace f w s) = map g (pieces_of w s)"
proof (induction w s rule: scan_induct)
  case (skip w c s)
  have "w \<or> limit_match (c # limit_replace f (is_word c) s) = None"
    using skip(1) no_new_match [OF safe, of c s] by argo
  moreover have "g (Byte c) = Byte c" using safe by (simp add: scan_safe_def)
  ultimately show ?case
    using skip by (simp add: limit_replace_skip pieces_of_skip)
next
  case (clause w s kw sp ds rest)
  have "limit_replace f True rest = [] \<or> \<not> is_digit (hd (limit_replace f True rest))"
    by (rule limit_replace_after_match) (rule limit_match_SomeD(8) [OF clause(2)])
  then obtain kw' sp' ds' where g: "g (Clause kw sp ds) = Clause kw' sp' ds'"
    and m: "limit_match (f (kw @ sp @ ds) @ limit_replace f True rest) = Some (kw', sp', ds', limit_replace f True rest)"
    by (rule scan_safe_match [OF safe clause(2)])
  then show ?case
    using clause by (simp add: limit_replace_match pieces_of_match)
qed simp

section \<open>Capping\<close>

lemma show_int_pos: "0 < m \<Longrightarrow> show_int m = show_nat (nat m)"
  by (simp add: show_int_def)

lemma limit_clause_number: "0 < m \<Longrightarrow> is_limit_clause ''LIMIT'' '' '' (show_int m)"
  by (simp add: limit_clause_iff show_int_pos show_nat_digits to_upper_def upper_char_def is_lower_def is_re_space_def)

lemma scan_safe_cap:
  assumes "0 < m"
  shows "scan_safe (cap_match m) (cap_piece m)"
  unfolding scan_safe_def
proof (intro conjI allI impI)
  fix kw sp ds
  assume c: "is_limit_clause kw sp ds"
  then have "limit_match (kw @ sp @ ds) = Some (kw, sp, ds, [])" by (simp add: limit_match_iff)
  from cap_match_limit [OF this, of m]
  show "\<exists>kw' sp' ds'. cap_piece m (Clause kw sp ds) = Clause kw' sp' ds' \<and> is_limit_clause kw' sp' ds' \<and>
      cap_match m (kw @ sp @ ds) = kw' @ sp' @ ds'"
    using assms c limit_clause_number [OF assms] by auto
qed simp

lemma cap_piece_off: "m \<le> 0 \<Longrightarrow> cap_piece m p = p"
  by (cases p) simp_all

lemma pieces_of_capLimit: "pieces_of False (capLimit s m) = map (cap_piece m) (pieces_of False s)"
proof (cases "0 < m")
  case True
  then show ?thesis by (simp add: capLimit_def pieces_of_limit_replace [OF scan_safe_cap])
next
  case False
  then have "cap_piece m = (\<lambda>p. p)" by (simp add: fun_eq_iff cap_piece_off)
  with False show ?thesis by (simp add: capLimit_def)
qed

section \<open>Adding\<close>

lemma limit_match_snoc_space:
  assumes "5 \<le> length q" and "limit_match q = None"
  shows "limit_match (q @ '' '') = None"
proof (cases "list_all is_re_space (drop 5 q)")
  case True
  then have "dropWhile is_re_space (drop 5 q @ '' '') = []"
    by (auto simp: list_all_iff is_re_space_def)
  with assms(1) show ?thesis by (simp add: limit_match_def Let_def)
next
  case False
  then have "takeWhile is_re_space (drop 5 q @ '' '') = takeWhile is_re_space (drop 5 q)"
    and "dropWhile is_re_space (drop 5 q @ '' '') = dropWhile is_re_space (drop 5 q) @ '' ''"
    by (auto simp: list_all_iff takeWhile_append dropWhile_append)
  moreover have "\<not> is_digit (CHR '' '')" by (simp add: is_digit_def)
  ultimately show ?thesis
    using assms by (auto simp: limit_match_def Let_def takeWhile_stop split: if_splits)
qed

lemma limit_match_None_append:
  assumes "limit_match q = None"
  shows "limit_match (q @ '' L'' @ t) = None"
proof (cases "length (q @ '' '') \<le> 5")
  case True
  have "\<not> is_word (CHR '' '')" by (simp add: is_word_def is_digit_def is_upper_def is_lower_def)
  with True show ?thesis
    using limit_match_short [of "q @ '' ''" "CHR ''L'' # t"] by simp
next
  case False
  then have "limit_match (q @ '' '') = None"
    using assms by (intro limit_match_snoc_space) auto
  then show ?thesis
    using False limit_match_append [of "q @ '' ''" "CHR ''L''" t]
    by (simp add: is_re_space_def is_digit_def)
qed

lemma pieces_of_append_limit:
  assumes n: "0 < n"
  shows "pieces_of w (s @ '' LIMIT '' @ show_int n) = pieces_of w s @ [Byte (CHR '' ''), Clause ''LIMIT'' '' '' (show_int n)]"
proof (induction w s rule: scan_induct)
  case (empty w)
  have "limit_match ('' LIMIT '' @ show_int n) = None"
    by (simp add: limit_match_def to_upper_def upper_char_def is_lower_def)
  moreover have "limit_match (''LIMIT '' @ show_int n) = Some (''LIMIT'', '' '', show_int n, [])"
    using limit_clause_number [OF n] by (simp add: limit_match_iff)
  moreover have "\<not> is_word (CHR '' '')" by (simp add: is_word_def is_digit_def is_upper_def is_lower_def)
  ultimately show ?case by (simp add: pieces_of_skip pieces_of_match)
next
  case (skip w c s)
  then have "w \<or> limit_match (c # s @ '' LIMIT '' @ show_int n) = None"
    using limit_match_None_append [of "c # s" "''IMIT '' @ show_int n"] by auto
  then show ?case using skip by (simp add: pieces_of_skip)
next
  case (clause w s kw sp ds rest)
  have "limit_match (s @ '' LIMIT '' @ show_int n) = Some (kw, sp, ds, rest @ '' LIMIT '' @ show_int n)"
    using clause(2) by (cases rest) (auto simp: limit_match_iff is_digit_def)
  then show ?case using clause by (simp add: pieces_of_match)
qed

lemma piece_between_append:
  "piece_between (as @ bs) pre p post \<longleftrightarrow>
     (\<exists>q. piece_between as pre p q \<and> post = q @ pieces_text bs) \<or>
     (\<exists>q. piece_between bs q p post \<and> pre = pieces_text as @ q)"
proof (induction as arbitrary: pre)
  case (Cons a as)
  show ?case unfolding append_Cons piece_between_Cons Cons by auto
qed simp

lemma clauses_of_append_limit:
  assumes n: "0 < n"
  shows "clause_at (s @ '' LIMIT '' @ show_int n) pre kw sp ds post \<longleftrightarrow>
    (\<exists>q. clause_at s pre kw sp ds q \<and> post = q @ '' LIMIT '' @ show_int n) \<or>
    pre = s @ '' '' \<and> kw = ''LIMIT'' \<and> sp = '' '' \<and> ds = show_int n \<and> post = []"
  unfolding clause_at_from pieces_of_clauses pieces_of_append_limit [OF n] piece_between_append
  by (auto simp: piece_between_Cons pieces_text_of)

text \<open>Trimming takes space runes away, all of them, and semicolons at the end.\<close>

lemma strip_prefixes_split:
  "\<exists>l. set l \<subseteq> set ps \<and> s = concat l @ strip_prefixes n ps s"
proof (induction n ps s rule: strip_prefixes.induct)
  case (2 n ps s)
  show ?case
  proof (cases "find (\<lambda>p. prefix p s) ps")
    case (Some q)
    then have q: "q \<in> set ps" "prefix q s" by (auto simp: find_Some_iff)
    then have s: "s = q @ drop (length q) s" by (auto simp: prefix_def)
    obtain l where l: "set l \<subseteq> set ps" "drop (length q) s = concat l @ strip_prefixes n ps (drop (length q) s)"
      using 2 [OF Some] by blast
    have "set (q # l) \<subseteq> set ps" using q(1) l(1) by simp
    moreover have "s = concat (q # l) @ strip_prefixes (Suc n) ps s"
      using s l(2) Some by simp
    ultimately show ?thesis by blast
  qed (auto intro: exI [of _ "[]"])
qed (auto intro: exI [of _ "[]"])

lemma trim_space_split:
  "\<exists>l r. set l \<subseteq> set space_runes \<and> set r \<subseteq> set space_runes \<and> s = concat l @ trim_space s @ concat r"
proof -
  obtain l where l: "set l \<subseteq> set space_runes" "s = concat l @ trim_left_space s"
    using strip_prefixes_split unfolding trim_left_space_def by blast
  let ?t = "trim_left_space s"
  obtain k where k: "set k \<subseteq> rev ` set space_runes" "rev ?t = concat k @ rev (trim_space s)"
    using strip_prefixes_split [of "map rev space_runes" "rev ?t" "length ?t"]
    by (auto simp: trim_space_def trim_right_space_def)
  have "?t = trim_space s @ concat (rev (map rev k))"
    using arg_cong [OF k(2), of rev] by (simp add: rev_concat rev_map)
  moreover have "set (rev (map rev k)) \<subseteq> set space_runes" using k(1) by auto
  ultimately show ?thesis using l by metis
qed

lemma trim_space_trimmed:
  assumes "p \<in> set space_runes"
  shows "\<not> prefix p (trim_space s) \<and> \<not> suffix p (trim_space s)"
proof
  let ?t = "trim_left_space s"
  have "\<not> prefix p ?t"
    unfolding trim_left_space_def by (rule strip_prefixes_done [OF Nil_notin_space_runes _ assms]) simp
  moreover have "prefix (trim_space s) ?t"
    using strip_prefixes_suffix [of "length ?t" "map rev space_runes" "rev ?t"]
    by (simp add: trim_space_def trim_right_space_def suffix_to_prefix)
  ultimately show "\<not> prefix p (trim_space s)" by (meson prefix_order.trans)
  have "[] \<notin> set (map rev space_runes)" using Nil_notin_space_runes by auto
  from strip_prefixes_done [OF this, of "rev ?t" "length ?t" "rev p"] assms
  show "\<not> suffix p (trim_space s)"
    by (simp add: trim_space_def trim_right_space_def suffix_to_prefix)
qed

lemma trim_right_split:
  "\<exists>r. set r \<subseteq> set cutset \<and> s = trim_right s cutset @ r \<and>
     (trim_right s cutset = [] \<or> last (trim_right s cutset) \<notin> set cutset)"
proof -
  let ?P = "\<lambda>c. c \<in> set cutset"
  have "rev s = takeWhile ?P (rev s) @ dropWhile ?P (rev s)" by simp
  then have "s = trim_right s cutset @ rev (takeWhile ?P (rev s))"
    unfolding trim_right_def by (metis rev_append rev_rev_ident)
  moreover have "set (rev (takeWhile ?P (rev s))) \<subseteq> set cutset" by (auto dest: set_takeWhileD)
  moreover have "trim_right s cutset = [] \<or> last (trim_right s cutset) \<notin> set cutset"
    using hd_dropWhile [of ?P "rev s"] by (auto simp: trim_right_def last_rev)
  ultimately show ?thesis by blast
qed

end
