(* ===== verification/Validation.thy ===== *)
theory Validation
  imports Go_Strings
begin

text \<open>
  \<open>internal/validation/validator.go\<close>: validation of identifiers, SQL texts and search
  patterns, and the two escaping functions.

  Errors are values of \<open>validation_error\<close>, one constructor per error variable of the file
  with the operands that \<open>fmt.Errorf\<close> adds; \<open>None\<close> is the nil error. What the
  escaping functions promise is stated against two small readers that say what MySQL does with the
  text: \<open>read_quoted\<close> for a backquoted identifier and \<open>like_match\<close> for a LIKE
  pattern. The locale \<open>text_codec\<close> is the contract shared by the two escapings, the locale
  \<open>identifier_check\<close> the one shared by the two name validators.
\<close>

section \<open>Identifier, SQL and pattern checks\<close>

definition MaxIdentifierLength :: nat where "MaxIdentifierLength = 64"
definition MaxSQLLength :: nat where "MaxSQLLength = 100000"
definition MaxPatternLength :: nat where "MaxPatternLength = 256"

datatype validation_error =
    ErrEmptyDatabase
  | ErrEmptyTable
  | ErrEmptySQL
  | ErrIdentifierTooLong nat nat
  | ErrInvalidIdentifier string
  | ErrSQLTooLong nat nat
  | ErrPatternRequired
  | ErrPatternTooLong

text \<open>\<open>identifierRegex\<close>: \<open>^[a-zA-Z_][a-zA-Z0-9_]*$\<close>, anchored at both ends of the text.\<close>

definition identifierRegex :: "string \<Rightarrow> bool" where
  "identifierRegex s \<longleftrightarrow>
     (case s of [] \<Rightarrow> False
      | c # cs \<Rightarrow> (is_upper c \<or> is_lower c \<or> c = CHR ''_'') \<and> list_all is_word cs)"

definition ValidateDatabaseName :: "string \<Rightarrow> validation_error option" where
  "ValidateDatabaseName name =
     (if name = '''' then Some ErrEmptyDatabase
      else if length name > MaxIdentifierLength
        then Some (ErrIdentifierTooLong MaxIdentifierLength (length name))
      else if \<not> identifierRegex name then Some (ErrInvalidIdentifier name)
      else None)"

definition ValidateTableName :: "string \<Rightarrow> validation_error option" where
  "ValidateTableName name =
     (if name = '''' then Some ErrEmptyTable
      else if length name > MaxIdentifierLength
        then Some (ErrIdentifierTooLong MaxIdentifierLength (length name))
      else if \<not> identifierRegex name then Some (ErrInvalidIdentifier name)
      else None)"

definition ValidateSQL :: "string \<Rightarrow> validation_error option" where
  "ValidateSQL sql =
     (if sql = '''' then Some ErrEmptySQL
      else if length sql > MaxSQLLength then Some (ErrSQLTooLong MaxSQLLength (length sql))
      else None)"

definition ValidateSearchPattern :: "string \<Rightarrow> validation_error option" where
  "ValidateSearchPattern pattern =
     (if pattern = '''' then Some ErrPatternRequired
      else if length pattern > MaxPatternLength then Some ErrPatternTooLong
      else None)"

section \<open>Escaping\<close>

text \<open>\<open>strings.NewReplacer\<close> with one-byte patterns replaces each byte on its own.\<close>

definition like_escape_byte :: "char \<Rightarrow> string" where
  "like_escape_byte c =
     (if c = CHR 0x5C then [CHR 0x5C, CHR 0x5C]
      else if c = CHR ''%'' then [CHR 0x5C, CHR ''%'']
      else if c = CHR ''_'' then [CHR 0x5C, CHR ''_'']
      else [c])"

definition EscapeLikePattern :: "string \<Rightarrow> string" where
  "EscapeLikePattern pattern = concat (map like_escape_byte pattern)"

definition QuoteIdentifier :: "string \<Rightarrow> string" where
  "QuoteIdentifier name = ''`'' @ replace_char (CHR ''`'') ''``'' name @ ''`''"

definition ValidateAndQuoteIdentifier :: "string \<Rightarrow> validation_error + string" where
  "ValidateAndQuoteIdentifier name =
     (case ValidateDatabaseName name of
        Some e \<Rightarrow> Inl e
      | None \<Rightarrow> Inr (QuoteIdentifier name))"

section \<open>What MySQL reads\<close>

text \<open>A backquoted identifier ends at the first backquote that is not doubled.\<close>

fun read_quoted_body :: "string \<Rightarrow> (string \<times> string) option" where
  "read_quoted_body [] = None"
| "read_quoted_body (c # s) =
     (if c = CHR ''`'' then
        (case s of
           d # t \<Rightarrow> if d = CHR ''`''
                    then map_option (\<lambda>(n, r). (CHR ''`'' # n, r)) (read_quoted_body t)
                    else Some ([], s)
         | [] \<Rightarrow> Some ([], []))
      else map_option (\<lambda>(n, r). (c # n, r)) (read_quoted_body s))"

definition read_quoted :: "string \<Rightarrow> (string \<times> string) option" where
  "read_quoted s =
     (case s of [] \<Rightarrow> None | c # t \<Rightarrow> if c = CHR ''`'' then read_quoted_body t else None)"

text \<open>The literal part of a LIKE pattern, up to the first wildcard that is not escaped.\<close>

fun read_like :: "string \<Rightarrow> (string \<times> string) option" where
  "read_like [] = Some ([], [])"
| "read_like (c # s) =
     (if c = CHR ''%'' \<or> c = CHR ''_'' then Some ([], c # s)
      else if c = CHR 0x5C then
        (case s of [] \<Rightarrow> None
         | d # t \<Rightarrow> map_option (\<lambda>(n, r). (d # n, r)) (read_like t))
      else map_option (\<lambda>(n, r). (c # n, r)) (read_like s))"

fun like_match :: "string \<Rightarrow> string \<Rightarrow> bool" where
  "like_match [] s = (s = [])"
| "like_match (p # ps) s =
     (if p = CHR ''%'' then list_ex (\<lambda>i. like_match ps (drop i s)) [0..<Suc (length s)]
      else if p = CHR 0x5C then
        (case ps of [] \<Rightarrow> s = [CHR 0x5C]
         | q # qs \<Rightarrow> (case s of [] \<Rightarrow> False | c # cs \<Rightarrow> c = q \<and> like_match qs cs))
      else (case s of [] \<Rightarrow> False | c # cs \<Rightarrow> (p = CHR ''_'' \<or> c = p) \<and> like_match ps cs))"

section \<open>Contracts\<close>

locale text_codec =
  fixes enc :: "string \<Rightarrow> string"
    and dec :: "string \<Rightarrow> (string \<times> string) option"
    and stops :: "string \<Rightarrow> bool"
  assumes dec_enc: "stops r \<Longrightarrow> dec (enc s @ r) = Some (s, r)"
begin

lemma no_break_out:
  assumes "stops r" and "stops r'" and "enc s @ r = enc s' @ r'"
  shows "s = s' \<and> r = r'"
  by (metis assms dec_enc option.inject prod.inject)

end

locale identifier_check =
  fixes check :: "string \<Rightarrow> validation_error option"
    and on_empty :: validation_error
  assumes check_empty: "check '''' = Some on_empty"
    and check_long: "length n > MaxIdentifierLength \<Longrightarrow> check n = Some (ErrIdentifierTooLong MaxIdentifierLength (length n))"
    and check_shape: "n \<noteq> '''' \<Longrightarrow> length n \<le> MaxIdentifierLength \<Longrightarrow>
      check n = (if identifierRegex n then None else Some (ErrInvalidIdentifier n))"
begin

lemma accepted_iff:
  "check n = None \<longleftrightarrow> length n \<le> MaxIdentifierLength \<and> identifierRegex n"
proof (cases "n = ''''")
  case True
  then show ?thesis by (simp add: check_empty identifierRegex_def)
next
  case False
  then show ?thesis
    by (cases "length n \<le> MaxIdentifierLength") (simp_all add: check_shape check_long)
qed

lemma accepted_word: "check n = None \<Longrightarrow> n \<noteq> '''' \<and> list_all is_word n"
  by (auto simp: accepted_iff identifierRegex_def is_word_def split: list.splits)

end

interpretation dbname: identifier_check ValidateDatabaseName ErrEmptyDatabase
  by unfold_locales (auto simp: ValidateDatabaseName_def MaxIdentifierLength_def)

interpretation tblname: identifier_check ValidateTableName ErrEmptyTable
  by unfold_locales (auto simp: ValidateTableName_def MaxIdentifierLength_def)

section \<open>Facts about the escapings\<close>

definition quote_stop :: "string \<Rightarrow> bool" where
  "quote_stop r \<longleftrightarrow> (case r of [] \<Rightarrow> True | c # _ \<Rightarrow> c \<noteq> CHR ''`'')"

definition like_stop :: "string \<Rightarrow> bool" where
  "like_stop r \<longleftrightarrow> (case r of [] \<Rightarrow> True | c # _ \<Rightarrow> c = CHR ''%'' \<or> c = CHR ''_'')"

lemma replace_char_Cons [go_string]:
  "replace_char c r (d # s) = (if d = c then r else [d]) @ replace_char c r s"
  by (simp add: replace_char_def)

lemma replace_char_Nil [go_string]: "replace_char c r [] = []"
  by (simp add: replace_char_def)

lemma replace_char_absent: "c \<notin> set s \<Longrightarrow> replace_char c r s = s"
  by (induction s) (auto simp: go_string)

lemma read_quoted_body_replace:
  "quote_stop r \<Longrightarrow>
     read_quoted_body (replace_char (CHR ''`'') ''``'' s @ ''`'' @ r) = Some (s, r)"
  by (induction s) (auto simp: go_string quote_stop_def split: list.splits)

lemma EscapeLikePattern_Cons: "EscapeLikePattern (c # s) = like_escape_byte c @ EscapeLikePattern s"
  by (simp add: EscapeLikePattern_def)

lemma EscapeLikePattern_Nil: "EscapeLikePattern [] = []"
  by (simp add: EscapeLikePattern_def)

lemmas escape_simps = EscapeLikePattern_Cons EscapeLikePattern_Nil like_escape_byte_def

interpretation quoted: text_codec QuoteIdentifier read_quoted quote_stop
  by unfold_locales
    (simp add: QuoteIdentifier_def read_quoted_def read_quoted_body_replace [simplified])

lemma read_like_stop: "like_stop r \<Longrightarrow> read_like r = Some ([], r)"
  by (cases r) (auto simp: like_stop_def)

interpretation liked: text_codec EscapeLikePattern read_like like_stop
proof unfold_locales
  fix r s
  assume "like_stop r"
  then show "read_like (EscapeLikePattern s @ r) = Some (s, r)"
    by (induction s) (auto simp: escape_simps read_like_stop)
qed

lemma like_match_escape:
  "like_match (EscapeLikePattern p @ qs) s \<longleftrightarrow> (\<exists>t. s = p @ t \<and> like_match qs t)"
  by (induction p arbitrary: s) (auto simp: escape_simps split: list.splits)

lemma like_match_percent:
  "like_match (CHR ''%'' # ps) s \<longleftrightarrow> (\<exists>u v. s = u @ v \<and> like_match ps v)"
proof
  assume "like_match (CHR ''%'' # ps) s"
  then obtain i where "like_match ps (drop i s)"
    by (auto simp: list_ex_iff simp del: upt_Suc)
  then show "\<exists>u v. s = u @ v \<and> like_match ps v"
    by (metis append_take_drop_id)
next
  assume "\<exists>u v. s = u @ v \<and> like_match ps v"
  then obtain u v where s: "s = u @ v" and "like_match ps v" by blast
  then have "length u \<in> set [0..<Suc (length s)]" and "like_match ps (drop (length u) s)"
    by (simp_all del: upt_Suc)
  then show "like_match (CHR ''%'' # ps) s"
    by (auto simp: list_ex_iff simp del: upt_Suc)
qed

lemma like_match_contains:
  "like_match (''%'' @ EscapeLikePattern p @ ''%'') s \<longleftrightarrow> sublist p s"
proof -
  have all: "like_match ''%'' t" for t
    by (simp only: like_match_percent like_match.simps(1)) auto
  show ?thesis
    by (auto simp: like_match_percent like_match_escape sublist_def all simp del: like_match.simps(2))
qed

lemma to_lower_escape: "to_lower (EscapeLikePattern p) = EscapeLikePattern (to_lower p)"
proof (induction p)
  case (Cons c p)
  have "map lower_char (like_escape_byte c) = like_escape_byte (lower_char c)"
    by (cases "is_upper c")
      (auto simp: like_escape_byte_def lower_char_def is_upper_def char_eq_of_char simp del: of_char_eq_iff)
  with Cons show ?case by (simp add: to_lower_def EscapeLikePattern_Cons)
qed (simp add: to_lower_def EscapeLikePattern_Nil)

lemma identifier_no_backquote: "identifierRegex n \<Longrightarrow> CHR ''`'' \<notin> set n"
  by (auto simp: identifierRegex_def is_upper_def is_lower_def is_word_def is_digit_def
      list_all_iff split: list.splits)

end
