(* ===== verification/Props_Security.thy ===== *)
theory Props_Security
  imports Limit_Clauses Validation
begin

text \<open>
  Properties of the security core: the decision of the checker, the rewriting of statements, the
  validation of names and the configuration that governs them.
\<close>

section \<open>The checker and the parser\<close>


text \<open>
EXPLAIN is unreachable through the query tool: no statement the parser classifies has the type
EXPLAIN, an EXPLAIN statement (a node the parser does not know) has the type OTHER, and the checker
rejects it under every rules value, also without rules.
\<close>

lemma explain_never_allowed:
  "SqlType (parseStmt stmt sql) \<noteq> SQLTypeExplain \<and>
   SqlType (parseStmt (OtherStmt kind) sql) = SQLTypeOther \<and>
   \<not> Allowed (Check (NewChecker rules) (Some (parseStmt (OtherStmt kind) sql)))"
  using gate.never_passes_other parseStmt_never_explain parseStmt_Type [of "OtherStmt kind" sql] by auto

text \<open>
A statement is reported to touch a table exactly when the table occurs in its FROM clause: as the
table itself, as the direct source of a table source, or on either side of a join, at any depth.
\<close>

lemma extracted_tables:
  "t \<in> set (Tables (parseStmt (SelectStmt from_clause wh limit_clause) sql)) \<longleftrightarrow>
     (\<exists>c. from_clause = Some c \<and> names_table t (TableRefs c))"
  by (auto simp: parseStmt_def empty_parsed_def Let_def extractTablesFromTableRefs_def
      set_extractTablesFromNode split: option.split)

section \<open>The rewriter\<close>

text \<open>
C22. Capping a LIMIT: the statement is cut into its LIMIT clauses and the bytes between them, where a
clause is the word in any case, white space and a number with all its digits, at the start of a word; the
rewritten text has the same bytes between its clauses, the same clauses in the same order, and no
others. A clause whose number is above a positive maximum and fits 64 bits becomes LIMIT, a space and
the maximum; every other clause stays as it was written, one with a number of 2^63 or more included.
\<close>

theorem cap_limit_caps:
  "\<exists>pieces. cut_into s pieces \<and> cut_into (capLimit s m) (map (cap_piece m) pieces)"
  using cut_pieces_of [of s] cut_pieces_of [of "capLimit s m"] pieces_of_capLimit [of s m] by metis

text \<open>
C23. Rewriting an unfiltered write: with a positive limit the text is taken without the white space around
it and then without the semicolons at its end, and a space, the word LIMIT, a space and the number
follow; the clauses of the result are the clauses of the text and, at the end, the added one.
With any other limit the text stays as it is.
\<close>

theorem add_limit_adds:
  "if 0 < n then
     \<exists>l body semis r.
       s = concat l @ body @ semis @ concat r \<and> set (l @ r) \<subseteq> set space_runes \<and> set semis \<subseteq> {CHR '';''} \<and>
       list_all (\<lambda>p. \<not> prefix p (body @ semis) \<and> \<not> suffix p (body @ semis)) space_runes \<and> \<not> suffix '';'' body \<and>
       addLimit s n = body @ '' LIMIT '' @ show_int n \<and>
       (\<forall>pre kw sp ds post. clause_at (addLimit s n) pre kw sp ds post \<longleftrightarrow>
          (\<exists>q. clause_at body pre kw sp ds q \<and> post = q @ '' LIMIT '' @ show_int n) \<or>
          pre = body @ '' '' \<and> kw = ''LIMIT'' \<and> sp = '' '' \<and> ds = show_int n \<and> post = [])
   else addLimit s n = s"
proof (cases "0 < n")
  case True
  obtain l r t where t: "set l \<subseteq> set space_runes" "set r \<subseteq> set space_runes" "s = concat l @ t @ concat r" "t = trim_space s"
    using trim_space_split by blast
  obtain semis body where b: "set semis \<subseteq> set '';''" "t = body @ semis" "body = [] \<or> last body \<notin> set '';''"
    and body: "body = trim_right t '';''"
    using trim_right_split by blast
  have a: "addLimit s n = body @ '' LIMIT '' @ show_int n" using True by (simp add: addLimit_def body t(4))
  have n: "list_all (\<lambda>p. \<not> prefix p (body @ semis) \<and> \<not> suffix p (body @ semis)) space_runes"
    unfolding b(2) [symmetric] t(4) list_all_iff using trim_space_trimmed by blast
  have s: "s = concat l @ body @ semis @ concat r" using t(3) b(2) by simp
  have e: "\<not> suffix '';'' body" using b(3) by (auto simp: suffix_def)
  have c: "set (l @ r) \<subseteq> set space_runes" "set semis \<subseteq> {CHR '';''}" using t(1,2) b(1) by simp_all
  show ?thesis
    unfolding if_P [OF True]
    by (rule exI [of _ l], rule exI [of _ body], rule exI [of _ semis], rule exI [of _ r],
        intro conjI s c n e a allI) (rule clauses_of_append_limit [OF True, of body, folded a])
qed (simp add: addLimit_def)

section \<open>Names, patterns and quoting\<close>

text \<open>
C24. Quoting round trip: whatever two names are quoted and joined by a dot, MySQL reads the first name
back up to the dot and then the second name up to the end, so no name breaks out of its quotes; and a
name either validator accepts is quoted by the backquotes alone.
\<close>

theorem quoted_names_read_back:
  "read_quoted (QuoteIdentifier a @ ''.'' @ QuoteIdentifier b) = Some (a, ''.'' @ QuoteIdentifier b) \<and>
   read_quoted (QuoteIdentifier b) = Some (b, []) \<and>
   ValidateAndQuoteIdentifier a =
     (case ValidateTableName a of
        None \<Rightarrow> Inr (''`'' @ a @ ''`'')
      | Some e \<Rightarrow> Inl (if e = ErrEmptyTable then ErrEmptyDatabase else e))"
proof -
  have "read_quoted (QuoteIdentifier a @ ''.'' @ QuoteIdentifier b) = Some (a, ''.'' @ QuoteIdentifier b)"
    by (rule quoted.dec_enc) (simp add: quote_stop_def)
  moreover have "read_quoted (QuoteIdentifier b) = Some (b, [])"
    using quoted.dec_enc [of "[]" b] by (simp add: quote_stop_def)
  moreover have "ValidateDatabaseName a = None \<Longrightarrow> QuoteIdentifier a = ''`'' @ a @ ''`''"
    by (simp add: QuoteIdentifier_def dbname.accepted_iff replace_char_absent identifier_no_backquote)
  ultimately show ?thesis
    by (auto simp: ValidateAndQuoteIdentifier_def ValidateDatabaseName_def ValidateTableName_def)
qed

text \<open>
C25. LIKE escaping: the pattern made from an escaped text between two percent signs matches exactly the
texts that contain it, so percent signs, underscores and backslashes of the user are literal; escaping
loses nothing, and it commutes with lower-casing.
\<close>

theorem escaped_like_is_contains:
  "like_match (''%'' @ EscapeLikePattern p @ ''%'') s = sublist p s \<and>
   read_like (EscapeLikePattern p @ ''%'') = Some (p, ''%'') \<and>
   to_lower (EscapeLikePattern p) = EscapeLikePattern (to_lower p)"
  using like_match_contains [of p s] liked.dec_enc [of "''%''" p] to_lower_escape [of p]
  by (simp add: like_stop_def)

section \<open>Configuration\<close>

text \<open>
Environment expansion: text before the first dollar sign is copied, a reference of the form
dollar, brace, name, brace is replaced by the value of the variable without looking into the value, and
expansion goes on after it.
\<close>

lemma expandEnv_expands:
  assumes "CHR ''$'' \<notin> set pre" and "v \<noteq> ''''" and "CHR ''}'' \<notin> set v"
  shows "expandEnv getenv (pre @ ''${'' @ v @ ''}'' @ s) = pre @ getenv v @ expandEnv getenv s"
  using expandEnv_plain [OF assms(1), of getenv] expandEnv_reference [OF assms(2,3), of getenv s] by simp

lemma expandEnv_expands_demo:
  "expandEnv (\<lambda>v. if v = ''PW'' then ''s${X}'' else '''') (''a: '' @ ''${'' @ ''PW'' @ ''}'' @ ''!'') = ''a: s${X}!''"
  by (subst expandEnv_expands) (simp_all add: expandEnv_plain [of "''!''" _ "[]", simplified])

text \<open>
Defaults and validation fit together: a cluster with its defaults filled in passes the validator
exactly when it names a host and a user and no number in it is out of range, and filling in the
defaults again changes nothing.
\<close>

lemma defaults_validate:
  "(ClusterConfig_Validate (default_cluster c) = None \<longleftrightarrow>
      cl_Host c \<noteq> '''' \<and> Username c \<noteq> '''' \<and> 0 \<le> cl_Port c \<and> cl_Port c \<le> 65535 \<and>
      0 \<le> MaxOpenConns c \<and> 0 \<le> MaxIdleConns c \<and> (0 < ConnMaxLifetime c) = (second \<le> ConnMaxLifetime c)) \<and>
   default_cluster (default_cluster c) = default_cluster c"
  by (auto simp: ClusterConfig_Validate_None_iff default_cluster_fields default_cluster_idem)

text \<open>
Rules that pass the validator have no conflict: the blocked list takes nothing away from the two
allow lists, so the checker decides the same with it and without it; and the limits are within bounds.
\<close>

lemma validated_rules_have_no_conflict:
  assumes "SecurityRules_Validate r = None"
  shows "Allowed (Check (NewChecker (Some r)) q) = Allowed (Check (NewChecker (Some (r\<lparr>Blocked := []\<rparr>))) q) \<and>
    QueryTimeout r \<le> 5 * minute \<and> MaxRows r \<le> 1000000 \<and> AutoLimit r \<le> 10000"
proof -
  have free: "\<not> equal_fold b (SQLType_String t)"
    if "b \<in> set (Blocked r)" "op \<in> set (AllowedDDL r)" "equal_fold op (SQLType_String t)" for b op t
    using assms that equal_fold_trans equal_fold_sym
    unfolding SecurityRules_Validate_None_iff IsBlocked_iff by blast
  have "policy (Some r) t = policy (Some (r\<lparr>Blocked := []\<rparr>)) t" for t
    using free by (auto simp: policy_def)
  then have "Allowed (Check (NewChecker (Some r)) q) = Allowed (Check (NewChecker (Some (r\<lparr>Blocked := []\<rparr>))) q)"
    by (cases q) (simp_all add: gate.gate_nil gate.gate_policy checker_cell.rules_new)
  with assms show ?thesis by (simp add: SecurityRules_Validate_None_iff)
qed

definition plain_rules :: SecurityRules where
  "plain_rules =
     \<lparr>AllowedDML = [''SELECT'', ''update''], AllowedDDL = [''CREATE_TABLE''], Blocked = [''drop''],
      AutoLimit = 1000, MaxLimit = 10000, QueryTimeout = 30 * second, MaxRows = 100\<rparr>"

lemma validated_rules_have_no_conflict_demo:
  "SecurityRules_Validate plain_rules = None \<and>
   Allowed (Check (NewChecker (Some plain_rules)) None) =
     Allowed (Check (NewChecker (Some (plain_rules\<lparr>Blocked := []\<rparr>))) None) \<and> QueryTimeout plain_rules \<le> 5 * minute"
proof -
  have "SecurityRules_Validate plain_rules = None"
    by (simp add: SecurityRules_Validate_None_iff IsBlocked_iff plain_rules_def equal_fold_def
        lower_char_def is_upper_def char_eq_of_char)
  with validated_rules_have_no_conflict [OF this, of None] show ?thesis by simp
qed

text \<open>The validator of the whole configuration.\<close>

lemma config_validate_iff:
  "Config_Validate names c = None \<longleftrightarrow>
     0 \<le> srv_Port (cfg_Server c) \<and> srv_Port (cfg_Server c) \<le> 65535 \<and>
     list_all (\<lambda>n. Option.is_none (Option.bind (Clusters c n) ClusterConfig_Validate)) names \<and>
     (if Enabled (Audit c) then LogFile (Audit c) \<noteq> '''' \<and> 0 < MaxSizeMB (Audit c) else True)"
proof -
  have "validate_clusters names (Clusters c) = None \<longleftrightarrow>
      list_all (\<lambda>n. Option.is_none (Option.bind (Clusters c n) ClusterConfig_Validate)) names"
    by (auto simp: validate_clusters_None_iff list_all_iff Option.is_none_def split: bind_splits)
  then show ?thesis by (auto simp: Config_Validate_def split: option.split)
qed

end
