(* ===== verification/Sql_DB.thy ===== *)
theory Sql_DB
  imports Go_Strings
begin

text \<open>
  What the program uses of the standard library's \<open>database/sql\<close>: handles, connections,
  statements and rows.

  A \<open>*sql.DB\<close> is a number, an index into the heap \<open>dbs\<close> of a \<open>world\<close>;
  \<open>trace\<close> is the list of everything sent to MySQL, in order, each with the handle and the
  timeout of the context it was sent under. What MySQL and its driver answer is the argument
  \<open>driver\<close>: functions of the trace so far, so a server may answer differently each time.

  The connection accounting is the documented one: a \<open>sql.Conn\<close> taken with
  \<open>DB.Conn\<close> is in use until \<open>Conn.Close\<close>; closing the rows of a query made on a
  \<open>sql.Conn\<close> does not return it; rows of a query made on the \<open>sql.DB\<close> itself hold
  their connection until \<open>Rows.Close\<close>. When \<open>maxOpen\<close> connections are in use, a
  caller waits, and a request that runs alone waits until its context ends.
\<close>

section \<open>Values and answers\<close>

datatype sql_arg = ArgString string | ArgInt int

datatype cell = CBytes string | CString string | CInt int | CNull | COther string

record exec_result =
  RowsAffected :: "go_error + int"
  LastInsertId :: "go_error + int"

text \<open>
  The answer to a query: the column names, what each \<open>Next\<close> with its \<open>Scan\<close> delivers,
  and what \<open>Rows.Err\<close> reports at the end.
\<close>

record rows_data =
  rd_columns :: "go_error + string list"
  rd_items :: "(go_error + cell list) list"
  rd_err :: "go_error option"

text \<open>A \<open>*sql.Rows\<close>: closing it returns a connection of \<open>rows_owner\<close>, if there is one.\<close>

record sql_rows = rows_data +
  rows_owner :: "nat option"

datatype request =
    ReqConnect
  | ReqExec string
  | ReqQuery string "sql_arg list"

datatype event = Event (ev_db: nat) (ev_timeout: int) (ev_req: request)

record driver =
  drv_open :: "string \<Rightarrow> go_error option"
  drv_connect :: "event list \<Rightarrow> nat \<Rightarrow> go_error option"
  drv_exec :: "event list \<Rightarrow> nat \<Rightarrow> string \<Rightarrow> go_error + exec_result"
  drv_query :: "event list \<Rightarrow> nat \<Rightarrow> string \<Rightarrow> sql_arg list \<Rightarrow> go_error + rows_data"
  drv_close :: "event list \<Rightarrow> nat \<Rightarrow> go_error option"

section \<open>Handles\<close>

record sqldb =
  db_dsn :: string
  db_maxOpen :: int
  db_maxIdle :: int
  db_maxLifetime :: int
  db_inUse :: nat
  db_closed :: bool

record world =
  dbs :: "nat \<rightharpoonup> sqldb"
  next_db :: nat
  trace :: "event list"

definition upd_db :: "nat \<Rightarrow> (sqldb \<Rightarrow> sqldb) \<Rightarrow> 'a world_scheme \<Rightarrow> 'a world_scheme" where
  "upd_db h f w = w\<lparr>dbs := (dbs w)(h := map_option f (dbs w h))\<rparr>"

definition sql_Open :: "driver \<Rightarrow> string \<Rightarrow> 'a world_scheme \<Rightarrow> (go_error + nat) \<times> 'a world_scheme" where
  "sql_Open drv dsn w =
     (case drv_open drv dsn of
        Some e \<Rightarrow> (Inl e, w)
      | None \<Rightarrow>
          (Inr (next_db w),
           w\<lparr>dbs := (dbs w)(next_db w \<mapsto>
                \<lparr>db_dsn = dsn, db_maxOpen = 0, db_maxIdle = 2, db_maxLifetime = 0,
                 db_inUse = 0, db_closed = False\<rparr>),
             next_db := Suc (next_db w)\<rparr>))"

definition set_max_idle :: "int \<Rightarrow> sqldb \<Rightarrow> sqldb" where
  "set_max_idle n d =
     (let idle = (if n > 0 then n else 0)
      in d\<lparr>db_maxIdle := (if db_maxOpen d > 0 \<and> idle > db_maxOpen d then db_maxOpen d else idle)\<rparr>)"

definition set_max_open :: "int \<Rightarrow> sqldb \<Rightarrow> sqldb" where
  "set_max_open n d =
     (let d' = d\<lparr>db_maxOpen := (if n < 0 then 0 else n)\<rparr>
      in if db_maxOpen d' > 0 \<and> db_maxIdle d' > db_maxOpen d' then set_max_idle n d' else d')"

definition set_max_lifetime :: "int \<Rightarrow> sqldb \<Rightarrow> sqldb" where
  "set_max_lifetime t d = d\<lparr>db_maxLifetime := (if t < 0 then 0 else t)\<rparr>"

definition db_Close :: "driver \<Rightarrow> nat \<Rightarrow> 'a world_scheme \<Rightarrow> go_error option \<times> 'a world_scheme" where
  "db_Close drv h w = (drv_close drv (trace w) h, upd_db h (\<lambda>d. d\<lparr>db_closed := True\<rparr>) w)"

definition is_open :: "nat \<Rightarrow> 'a world_scheme \<Rightarrow> bool" where
  "is_open h w \<longleftrightarrow> (case dbs w h of None \<Rightarrow> False | Some d \<Rightarrow> \<not> db_closed d)"

definition in_use :: "nat \<Rightarrow> 'a world_scheme \<Rightarrow> nat" where
  "in_use h w = (case dbs w h of None \<Rightarrow> 0 | Some d \<Rightarrow> db_inUse d)"

section \<open>Connections\<close>

definition send :: "nat \<Rightarrow> int \<Rightarrow> request \<Rightarrow> 'a world_scheme \<Rightarrow> 'a world_scheme" where
  "send h t r w = w\<lparr>trace := trace w @ [Event h t r]\<rparr>"

definition acquire :: "nat \<Rightarrow> 'a world_scheme \<Rightarrow> 'a world_scheme" where
  "acquire h = upd_db h (\<lambda>d. d\<lparr>db_inUse := Suc (db_inUse d)\<rparr>)"

definition give_back :: "nat \<Rightarrow> 'a world_scheme \<Rightarrow> 'a world_scheme" where
  "give_back h = upd_db h (\<lambda>d. d\<lparr>db_inUse := db_inUse d - 1\<rparr>)"

definition exhausted :: "sqldb \<Rightarrow> bool" where
  "exhausted d \<longleftrightarrow> db_maxOpen d > 0 \<and> int (db_inUse d) \<ge> db_maxOpen d"

text \<open>\<open>DB.Conn(ctx)\<close>; the handle of the database stands for the connection.\<close>

definition db_Conn :: "driver \<Rightarrow> int \<Rightarrow> nat \<Rightarrow> 'a world_scheme \<Rightarrow> (go_error + nat) \<times> 'a world_scheme" where
  "db_Conn drv t h w =
     (case dbs w h of
        None \<Rightarrow> (Inl ''sql: database is closed'', w)
      | Some d \<Rightarrow>
          if db_closed d then (Inl ''sql: database is closed'', w)
          else if exhausted d then (Inl ''context deadline exceeded'', w)
          else (case drv_connect drv (trace w) h of
                  Some e \<Rightarrow> (Inl e, send h t ReqConnect w)
                | None \<Rightarrow> (Inr h, acquire h (send h t ReqConnect w))))"

definition conn_Close :: "nat \<Rightarrow> 'a world_scheme \<Rightarrow> 'a world_scheme" where
  "conn_Close h w = give_back h w"

definition conn_Exec ::
  "driver \<Rightarrow> int \<Rightarrow> nat \<Rightarrow> string \<Rightarrow> 'a world_scheme \<Rightarrow> (go_error + exec_result) \<times> 'a world_scheme" where
  "conn_Exec drv t h q w = (drv_exec drv (trace w) h q, send h t (ReqExec q) w)"

definition with_owner :: "nat option \<Rightarrow> rows_data \<Rightarrow> sql_rows" where
  "with_owner own r = rows_data.extend r \<lparr>rows_owner = own\<rparr>"

definition conn_Query ::
  "driver \<Rightarrow> int \<Rightarrow> nat \<Rightarrow> string \<Rightarrow> sql_arg list \<Rightarrow> 'a world_scheme \<Rightarrow>
     (go_error + sql_rows) \<times> 'a world_scheme" where
  "conn_Query drv t h q args w =
     (case drv_query drv (trace w) h q args of
        Inl e \<Rightarrow> (Inl e, send h t (ReqQuery q args) w)
      | Inr r \<Rightarrow> (Inr (with_owner None r), send h t (ReqQuery q args) w))"

definition rows_Close :: "sql_rows \<Rightarrow> 'a world_scheme \<Rightarrow> 'a world_scheme" where
  "rows_Close r w = (case rows_owner r of None \<Rightarrow> w | Some h \<Rightarrow> give_back h w)"

text \<open>\<open>DB.QueryContext\<close>: a connection of the pool, held until the rows are closed.\<close>

definition db_Query ::
  "driver \<Rightarrow> int \<Rightarrow> nat \<Rightarrow> string \<Rightarrow> sql_arg list \<Rightarrow> 'a world_scheme \<Rightarrow>
     (go_error + sql_rows) \<times> 'a world_scheme" where
  "db_Query drv t h q args w =
     (case db_Conn drv t h w of
        (Inl e, w1) \<Rightarrow> (Inl e, w1)
      | (Inr c, w1) \<Rightarrow>
          (case drv_query drv (trace w1) c q args of
             Inl e \<Rightarrow> (Inl e, give_back c (send c t (ReqQuery q args) w1))
           | Inr r \<Rightarrow> (Inr (with_owner (Some c) r), send c t (ReqQuery q args) w1)))"

section \<open>Scanning a row\<close>

definition scan_string :: "cell \<Rightarrow> go_error + string" where
  "scan_string c =
     (case c of
        CBytes s \<Rightarrow> Inr s | CString s \<Rightarrow> Inr s | CInt i \<Rightarrow> Inr (show_int i) | COther s \<Rightarrow> Inr s
      | CNull \<Rightarrow> Inl ''converting NULL to string is unsupported'')"

text \<open>\<open>sql.NullString\<close>: \<open>None\<close> is not valid.\<close>

definition scan_null_string :: "cell \<Rightarrow> string option" where
  "scan_null_string c = (case scan_string c of Inl _ \<Rightarrow> None | Inr s \<Rightarrow> Some s)"

fun scan_strings :: "cell list \<Rightarrow> go_error + string list" where
  "scan_strings [] = Inr []"
| "scan_strings (c # cs) =
     (case scan_string c of
        Inl e \<Rightarrow> Inl e
      | Inr s \<Rightarrow> (case scan_strings cs of Inl e \<Rightarrow> Inl e | Inr ss \<Rightarrow> Inr (s # ss)))"

section \<open>Laws\<close>

lemma upd_db_trace [state_frame]: "trace (upd_db h f w) = trace w"
  by (simp add: upd_db_def)

lemma upd_db_next [state_frame]: "next_db (upd_db h f w) = next_db w"
  by (simp add: upd_db_def)

lemma upd_db_lookup [db_laws]:
  "dbs (upd_db h f w) k = (if k = h then map_option f (dbs w k) else dbs w k)"
  by (simp add: upd_db_def)

lemma send_dbs [state_frame]: "dbs (send h t r w) = dbs w"
  by (simp add: send_def)

lemma send_trace [db_laws]: "trace (send h t r w) = trace w @ [Event h t r]"
  by (simp add: send_def)

lemma in_use_acquire [db_laws]:
  "in_use k (acquire h w) = (if k = h \<and> dbs w h \<noteq> None then Suc (in_use k w) else in_use k w)"
  by (auto simp: in_use_def acquire_def upd_db_lookup split: option.splits)

lemma in_use_give_back [db_laws]:
  "in_use k (give_back h w) = (if k = h then in_use k w - 1 else in_use k w)"
  by (auto simp: in_use_def give_back_def upd_db_lookup split: option.splits)

lemma in_use_send [db_laws]: "in_use k (send h t r w) = in_use k w"
  by (simp add: in_use_def state_frame)

lemma give_back_acquire_dbs [db_laws]: "dbs (give_back h (acquire h w)) = dbs w"
  by (rule ext) (simp add: give_back_def acquire_def upd_db_lookup option.map_comp comp_def option.map_ident)

lemma is_open_frames [db_laws]:
  "is_open k (send h t r w) = is_open k w"
  "is_open k (acquire h w) = is_open k w"
  "is_open k (give_back h w) = is_open k w"
  by (auto simp: is_open_def acquire_def give_back_def upd_db_lookup state_frame split: option.splits)

lemma acquire_trace [state_frame]: "trace (acquire h w) = trace w" "trace (give_back h w) = trace w"
  by (simp_all add: acquire_def give_back_def state_frame)

lemma with_owner_simps [simp]:
  "rows_owner (with_owner own r) = own"
  "rd_columns (with_owner own r) = rd_columns r"
  "rd_items (with_owner own r) = rd_items r"
  "rd_err (with_owner own r) = rd_err r"
  by (simp_all add: with_owner_def rows_data.defs)

lemma db_Conn_cases:
  obtains e where "db_Conn drv t h w = (Inl e, w)"
  | e where "db_Conn drv t h w = (Inl e, send h t ReqConnect w)"
  | d where "dbs w h = Some d" and "\<not> db_closed d" and "\<not> exhausted d"
      and "db_Conn drv t h w = (Inr h, acquire h (send h t ReqConnect w))"
proof -
  have "(\<exists>e. db_Conn drv t h w = (Inl e, w)) \<or>
      (\<exists>e. db_Conn drv t h w = (Inl e, send h t ReqConnect w)) \<or>
      (\<exists>d. dbs w h = Some d \<and> \<not> db_closed d \<and> \<not> exhausted d \<and>
        db_Conn drv t h w = (Inr h, acquire h (send h t ReqConnect w)))"
    by (auto simp: db_Conn_def split: option.splits)
  then show thesis using that by blast
qed

lemma db_Conn_exhausted:
  "dbs w h = Some d \<Longrightarrow> \<not> db_closed d \<Longrightarrow> exhausted d \<Longrightarrow>
     db_Conn drv t h w = (Inl ''context deadline exceeded'', w)"
  by (simp add: db_Conn_def)

end
