(* ===== verification/Pool.thy ===== *)
theory Pool
  imports Sql_DB Config
begin

text \<open>
  \<open>internal/database/pool.go\<close>: the reference-counted pool of database handles, one per
  cluster.

  The state extends the \<open>database/sql\<close> world by the heap \<open>mdbs\<close> of
  \<open>managedDB\<close> objects (the map \<open>clusters\<close> and the local map \<open>toClose\<close> of
  \<open>UpdateConfig\<close> share pointers to them), the map \<open>clusters\<close> itself and
  \<open>configs\<close>. \<open>refCount\<close> and \<open>closing\<close> are int32 values; the counter wraps.

  \<open>Get\<close> is three atomic steps (map lookup under the read lock, load of \<open>closing\<close>,
  increment of \<open>refCount\<close>); \<open>UpdateConfig\<close> is a locked phase that marks and adds, and a
  second phase that waits, closes and deletes without holding the lock. The functions here run the
  steps one after the other; the interleavings are in the theory \<open>Pool_Concurrency\<close>. While
  \<open>waitForRelease\<close> polls, other goroutines may call \<open>Get\<close> and \<open>release\<close>: the
  argument \<open>env\<close> gives what they do before each poll.
\<close>

record managedDB =
  mdb_db :: nat
  refCount :: int
  closing :: int

record pool = world +
  mdbs :: "nat \<rightharpoonup> managedDB"
  next_mdb :: nat
  clusters :: "string \<rightharpoonup> nat"
  configs :: ClustersConfig

definition upd_mdb :: "nat \<Rightarrow> (managedDB \<Rightarrow> managedDB) \<Rightarrow> 'a pool_scheme \<Rightarrow> 'a pool_scheme" where
  "upd_mdb p f s = s\<lparr>mdbs := (mdbs s)(p := map_option f (mdbs s p))\<rparr>"

definition alloc_mdb :: "nat \<Rightarrow> 'a pool_scheme \<Rightarrow> nat \<times> 'a pool_scheme" where
  "alloc_mdb h s =
     (next_mdb s,
      s\<lparr>mdbs := (mdbs s)(next_mdb s \<mapsto> \<lparr>mdb_db = h, refCount = 0, closing = 0\<rparr>),
        next_mdb := Suc (next_mdb s)\<rparr>)"

section \<open>Connecting\<close>

definition connect :: "driver \<Rightarrow> ClusterConfig \<Rightarrow> 'a pool_scheme \<Rightarrow> (go_error + nat) \<times> 'a pool_scheme" where
  "connect drv cfg s =
     (case sql_Open drv (GetDSN cfg) s of
        (Inl e, s1) \<Rightarrow> (Inl (''open connection: '' @ e), s1)
      | (Inr h, s1) \<Rightarrow>
          (Inr h,
           upd_db h (set_max_lifetime (ConnMaxLifetime cfg))
             (upd_db h (set_max_idle (MaxIdleConns cfg))
               (upd_db h (set_max_open (MaxOpenConns cfg)) s1))))"

definition install :: "string \<Rightarrow> nat \<Rightarrow> 'a pool_scheme \<Rightarrow> 'a pool_scheme" where
  "install name h s =
     (case alloc_mdb h s of (p, s1) \<Rightarrow> s1\<lparr>clusters := (clusters s1)(name \<mapsto> p)\<rparr>)"

section \<open>Closing everything\<close>

fun close_all :: "driver \<Rightarrow> string list \<Rightarrow> go_error option \<Rightarrow> 'a pool_scheme \<Rightarrow>
    go_error option \<times> 'a pool_scheme" where
  "close_all drv [] lastErr s = (lastErr, s)"
| "close_all drv (name # names) lastErr s =
     (case clusters s name of
        None \<Rightarrow> close_all drv names lastErr s
      | Some p \<Rightarrow>
          (case mdbs s p of
             None \<Rightarrow> close_all drv names lastErr s
           | Some m \<Rightarrow>
               (case db_Close drv (mdb_db m) s of
                  (None, s1) \<Rightarrow> close_all drv names lastErr s1
                | (Some e, s1) \<Rightarrow>
                    close_all drv names (Some (''close cluster '' @ name @ '': '' @ e)) s1)))"

definition Pool_Close :: "driver \<Rightarrow> string list \<Rightarrow> 'a pool_scheme \<Rightarrow> go_error option \<times> 'a pool_scheme" where
  "Pool_Close drv names s =
     (case close_all drv names None s of (lastErr, s1) \<Rightarrow> (lastErr, s1\<lparr>clusters := (\<lambda>_. None)\<rparr>))"

section \<open>Construction\<close>

text \<open>
  \<open>NewPool\<close> visits the clusters in the order \<open>names\<close>. When a connection fails it closes
  what it has opened (in the order \<open>order\<close> of the names installed so far) and returns the error.
\<close>

fun connect_all :: "driver \<Rightarrow> (string list \<Rightarrow> string list) \<Rightarrow> ClustersConfig \<Rightarrow> string list \<Rightarrow> string list \<Rightarrow>
    'a pool_scheme \<Rightarrow> go_error option \<times> 'a pool_scheme" where
  "connect_all drv order cfgs opened [] s = (None, s)"
| "connect_all drv order cfgs opened (name # names) s =
     (case cfgs name of
        None \<Rightarrow> connect_all drv order cfgs opened names s
      | Some cfg \<Rightarrow>
          (case connect drv cfg s of
             (Inl e, s1) \<Rightarrow>
               (Some (''connect to cluster '' @ name @ '': '' @ e), snd (Pool_Close drv (order opened) s1))
           | (Inr h, s1) \<Rightarrow>
               connect_all drv order cfgs (opened @ [name]) names (install name h s1)))"

definition NewPool :: "driver \<Rightarrow> (string list \<Rightarrow> string list) \<Rightarrow> string list \<Rightarrow> ClustersConfig \<Rightarrow>
    'a pool_scheme \<Rightarrow> go_error option \<times> 'a pool_scheme" where
  "NewPool drv order names cfgs s =
     connect_all drv order cfgs [] names (s\<lparr>clusters := (\<lambda>_. None), configs := cfgs\<rparr>)"

definition NewTestPool :: "string \<Rightarrow> nat \<Rightarrow> 'a pool_scheme \<Rightarrow> 'a pool_scheme" where
  "NewTestPool cluster h s = install cluster h (s\<lparr>clusters := (\<lambda>_. None), configs := (\<lambda>_. None)\<rparr>)"

section \<open>Get and release\<close>

definition get_lookup :: "string \<Rightarrow> 'a pool_scheme \<Rightarrow> go_error + nat" where
  "get_lookup cluster s =
     (case clusters s cluster of
        None \<Rightarrow> Inl (''unknown cluster: '' @ cluster)
      | Some p \<Rightarrow> Inr p)"

definition get_closing :: "nat \<Rightarrow> 'a pool_scheme \<Rightarrow> bool" where
  "get_closing p s = (case mdbs s p of None \<Rightarrow> False | Some m \<Rightarrow> closing m = 1)"

definition incr_ref :: "nat \<Rightarrow> 'a pool_scheme \<Rightarrow> 'a pool_scheme" where
  "incr_ref p = upd_mdb p (\<lambda>m. m\<lparr>refCount := wrap32 (refCount m + 1)\<rparr>)"

definition handle_of :: "nat \<Rightarrow> 'a pool_scheme \<Rightarrow> nat" where
  "handle_of p s = (case mdbs s p of None \<Rightarrow> 0 | Some m \<Rightarrow> mdb_db m)"

definition Get :: "string \<Rightarrow> 'a pool_scheme \<Rightarrow> (go_error + nat) \<times> 'a pool_scheme" where
  "Get cluster s =
     (case get_lookup cluster s of
        Inl e \<Rightarrow> (Inl e, s)
      | Inr p \<Rightarrow>
          if get_closing p s then (Inl (''cluster '' @ cluster @ '' is being closed''), s)
          else (Inr (handle_of p s), incr_ref p s))"

definition release_one :: "nat \<Rightarrow> string \<Rightarrow> 'a pool_scheme \<Rightarrow> 'a pool_scheme" where
  "release_one h name s =
     (case clusters s name of
        None \<Rightarrow> s
      | Some p \<Rightarrow>
          (case mdbs s p of
             None \<Rightarrow> s
           | Some m \<Rightarrow>
               if mdb_db m = h then upd_mdb p (\<lambda>m. m\<lparr>refCount := wrap32 (refCount m - 1)\<rparr>) s else s))"

definition pool_release :: "string list \<Rightarrow> nat \<Rightarrow> 'a pool_scheme \<Rightarrow> 'a pool_scheme" where
  "pool_release names h s = fold (release_one h) names s"

section \<open>UpdateConfig\<close>

definition same_endpoint :: "ClusterConfig \<Rightarrow> ClusterConfig \<Rightarrow> bool" where
  "same_endpoint old new \<longleftrightarrow>
     cl_Host old = cl_Host new \<and> cl_Port old = cl_Port new \<and>
     Username old = Username new \<and> Password old = Password new"

text \<open>\<open>p.configs[name]\<close> of an absent name is the zero value of the structure.\<close>

definition zero_cluster :: ClusterConfig where
  "zero_cluster = \<lparr>cl_Host = '''', cl_Port = 0, Username = '''', Password = '''',
     MaxOpenConns = 0, MaxIdleConns = 0, ConnMaxLifetime = 0\<rparr>"

definition config_or_zero :: "ClustersConfig \<Rightarrow> string \<Rightarrow> ClusterConfig" where
  "config_or_zero m name = (case m name of None \<Rightarrow> zero_cluster | Some c \<Rightarrow> c)"

definition must_close :: "ClustersConfig \<Rightarrow> ClustersConfig \<Rightarrow> string \<Rightarrow> bool" where
  "must_close old new name \<longleftrightarrow>
     (case new name of
        None \<Rightarrow> True
      | Some c \<Rightarrow> \<not> same_endpoint (config_or_zero old name) c)"

text \<open>First loop: mark what has to be closed; the result lists \<open>toClose\<close> in visiting order.\<close>

fun mark_closing :: "ClustersConfig \<Rightarrow> string list \<Rightarrow> 'a pool_scheme \<Rightarrow> (string \<times> nat) list \<times> 'a pool_scheme" where
  "mark_closing new [] s = ([], s)"
| "mark_closing new (name # names) s =
     (case clusters s name of
        None \<Rightarrow> mark_closing new names s
      | Some p \<Rightarrow>
          if must_close (configs s) new name then
            (case mark_closing new names (upd_mdb p (\<lambda>m. m\<lparr>closing := 1\<rparr>) s) of
               (toClose, s1) \<Rightarrow> ((name, p) # toClose, s1))
          else mark_closing new names s)"

text \<open>Second loop: connect the clusters whose name is not in the pool; a failure is logged.\<close>

fun add_new :: "driver \<Rightarrow> ClustersConfig \<Rightarrow> string list \<Rightarrow> 'a pool_scheme \<Rightarrow> 'a pool_scheme" where
  "add_new drv new [] s = s"
| "add_new drv new (name # names) s =
     (case new name of
        None \<Rightarrow> add_new drv new names s
      | Some cfg \<Rightarrow>
          (case clusters s name of
             Some _ \<Rightarrow> add_new drv new names s
           | None \<Rightarrow>
               (case connect drv cfg s of
                  (Inl e, s1) \<Rightarrow> add_new drv new names s1
                | (Inr h, s1) \<Rightarrow> add_new drv new names (install name h s1))))"

datatype pool_call = CallGet string | CallRelease "string list" nat

fun run_call :: "pool_call \<Rightarrow> 'a pool_scheme \<Rightarrow> 'a pool_scheme" where
  "run_call (CallGet c) s = snd (Get c s)"
| "run_call (CallRelease names h) s = pool_release names h s"

definition pool_calls :: "pool_call list \<Rightarrow> 'a pool_scheme \<Rightarrow> 'a pool_scheme" where
  "pool_calls cs s = fold run_call cs s"

text \<open>
  \<open>waitForRelease\<close>: one poll every 50 ms until the counter is zero or the shared 10 s context
  of \<open>UpdateConfig\<close> ends. \<open>budget\<close> is the number of polls the context still allows; the
  result is whether the counter was seen at zero, with the budget that is left.
\<close>

fun waitForRelease :: "(nat \<Rightarrow> pool_call list) \<Rightarrow> nat \<Rightarrow> nat \<Rightarrow> 'a pool_scheme \<Rightarrow>
    bool \<times> nat \<times> 'a pool_scheme" where
  "waitForRelease env 0 p s =
     (case mdbs s p of
        None \<Rightarrow> (False, 0, s)
      | Some m \<Rightarrow> (refCount m = 0, 0, s))"
| "waitForRelease env (Suc budget) p s =
     (case mdbs s p of
        None \<Rightarrow> (False, budget, s)
      | Some m \<Rightarrow>
          if refCount m = 0 then (True, Suc budget, s)
          else waitForRelease env budget p (pool_calls (env budget) s))"

fun close_marked :: "driver \<Rightarrow> (nat \<Rightarrow> pool_call list) \<Rightarrow> nat \<Rightarrow> (string \<times> nat) list \<Rightarrow>
    'a pool_scheme \<Rightarrow> 'a pool_scheme" where
  "close_marked drv env budget [] s = s"
| "close_marked drv env budget ((name, p) # rest) s =
     (case waitForRelease env budget p s of
        (released, budget', s1) \<Rightarrow>
          let s2 = snd (db_Close drv (handle_of p s1) s1);
              s3 = s2\<lparr>clusters := (clusters s2)(name := None)\<rparr>
          in close_marked drv env budget' rest s3)"

definition update_polls :: nat where "update_polls = 200"

text \<open>
  \<open>order\<close> is the visiting order of \<open>p.clusters\<close>, \<open>names\<close> that of the new
  configuration and \<open>perm\<close> the order in which the second phase visits \<open>toClose\<close>.
\<close>

definition UpdateConfig_locked :: "driver \<Rightarrow> string list \<Rightarrow> string list \<Rightarrow> ClustersConfig \<Rightarrow>
    'a pool_scheme \<Rightarrow> (string \<times> nat) list \<times> 'a pool_scheme" where
  "UpdateConfig_locked drv order names new s =
     (case mark_closing new order s of
        (toClose, s1) \<Rightarrow> (toClose, (add_new drv new names s1)\<lparr>configs := new\<rparr>))"

definition Pool_UpdateConfig :: "driver \<Rightarrow> (nat \<Rightarrow> pool_call list) \<Rightarrow> string list \<Rightarrow> string list \<Rightarrow>
    ((string \<times> nat) list \<Rightarrow> (string \<times> nat) list) \<Rightarrow> ClustersConfig \<Rightarrow> 'a pool_scheme \<Rightarrow> 'a pool_scheme" where
  "Pool_UpdateConfig drv env order names perm new s =
     (case UpdateConfig_locked drv order names new s of
        (toClose, s1) \<Rightarrow> close_marked drv env update_polls (perm toClose) s1)"

end
