(* ===== verification/Pool_Inv.thy ===== *)
theory Pool_Inv
  imports Pool
begin

text \<open>
  The invariant of the pool and what its operations do to the map of clusters.

  \<open>same_shape\<close> relates two states that differ at most in reference counts (and in the
  connection accounting of the handles): the effect of everything other goroutines do to the pool
  while \<open>UpdateConfig\<close> waits, and of every request the router sends. The locale
  \<open>handle_source\<close> is the contract of \<open>Get\<close> that the router uses.
\<close>

section \<open>The invariant\<close>

definition pool_inv :: "'a pool_scheme \<Rightarrow> bool" where
  "pool_inv s \<longleftrightarrow>
     (\<forall>n p. clusters s n = Some p \<longrightarrow> mdbs s p \<noteq> None) \<and>
     (\<forall>n n' p. clusters s n = Some p \<and> clusters s n' = Some p \<longrightarrow> n = n') \<and>
     (\<forall>p q m m'. mdbs s p = Some m \<and> mdbs s q = Some m' \<and> mdb_db m = mdb_db m' \<longrightarrow> p = q) \<and>
     (\<forall>p m. mdbs s p = Some m \<longrightarrow> dbs s (mdb_db m) \<noteq> None) \<and>
     (\<forall>p. next_mdb s \<le> p \<longrightarrow> mdbs s p = None) \<and>
     (\<forall>h. next_db s \<le> h \<longrightarrow> dbs s h = None) \<and>
     (\<forall>n p m. clusters s n = Some p \<and> mdbs s p = Some m \<and> closing m \<noteq> 1 \<longrightarrow> is_open (mdb_db m) s)"

lemma pool_invD:
  assumes "pool_inv s"
  shows "clusters s n = Some p \<Longrightarrow> mdbs s p \<noteq> None"
    and "clusters s n = Some p \<Longrightarrow> clusters s n' = Some p \<Longrightarrow> n = n'"
    and "mdbs s p = Some m \<Longrightarrow> mdbs s q = Some m' \<Longrightarrow> mdb_db m = mdb_db m' \<Longrightarrow> p = q"
    and "mdbs s p = Some m \<Longrightarrow> dbs s (mdb_db m) \<noteq> None"
    and "next_mdb s \<le> p \<Longrightarrow> mdbs s p = None"
    and "next_db s \<le> h \<Longrightarrow> dbs s h = None"
    and "clusters s n = Some p \<Longrightarrow> mdbs s p = Some m \<Longrightarrow> closing m \<noteq> 1 \<Longrightarrow> is_open (mdb_db m) s"
  using assms unfolding pool_inv_def by blast+

definition mdb_core :: "managedDB \<Rightarrow> nat \<times> int" where
  "mdb_core m = (mdb_db m, closing m)"

definition same_shape :: "'a pool_scheme \<Rightarrow> 'a pool_scheme \<Rightarrow> bool" where
  "same_shape s s' \<longleftrightarrow>
     clusters s' = clusters s \<and> configs s' = configs s \<and>
     next_mdb s' = next_mdb s \<and> next_db s' = next_db s \<and> pool.more s' = pool.more s \<and>
     (\<forall>p. map_option mdb_core (mdbs s' p) = map_option mdb_core (mdbs s p)) \<and>
     (\<forall>h. dbs s' h = None \<longleftrightarrow> dbs s h = None) \<and>
     (\<forall>h. is_open h s' \<longleftrightarrow> is_open h s)"

lemma same_shape_refl [simp]: "same_shape s s"
  by (simp add: same_shape_def)

lemma same_shape_trans: "same_shape s t \<Longrightarrow> same_shape t u \<Longrightarrow> same_shape s u"
  by (simp add: same_shape_def)

lemma same_shape_core:
  assumes "same_shape s s'"
  shows "mdbs s' p = Some m' \<Longrightarrow> \<exists>m. mdbs s p = Some m \<and> mdb_db m = mdb_db m' \<and> closing m = closing m'"
    and "mdbs s p = Some m \<Longrightarrow> \<exists>m'. mdbs s' p = Some m' \<and> mdb_db m = mdb_db m' \<and> closing m = closing m'"
    and "mdbs s' p = None \<longleftrightarrow> mdbs s p = None"
proof -
  have c: "map_option mdb_core (mdbs s' p) = map_option mdb_core (mdbs s p)"
    using assms by (simp add: same_shape_def)
  show "mdbs s' p = Some m' \<Longrightarrow> \<exists>m. mdbs s p = Some m \<and> mdb_db m = mdb_db m' \<and> closing m = closing m'"
    using c by (cases "mdbs s p") (auto simp: mdb_core_def)
  show "mdbs s p = Some m \<Longrightarrow> \<exists>m'. mdbs s' p = Some m' \<and> mdb_db m = mdb_db m' \<and> closing m = closing m'"
    using c by (cases "mdbs s' p") (auto simp: mdb_core_def)
  show "mdbs s' p = None \<longleftrightarrow> mdbs s p = None"
    using c by (metis map_option_is_None)
qed

lemma same_shape_handle_of: "same_shape s s' \<Longrightarrow> handle_of p s' = handle_of p s"
  using same_shape_core(2) [of s s' p] same_shape_core(3) [of s s' p]
  by (cases "mdbs s p") (auto simp: handle_of_def)

lemma same_shape_get_closing: "same_shape s s' \<Longrightarrow> get_closing p s' = get_closing p s"
  using same_shape_core(2) [of s s' p] same_shape_core(3) [of s s' p]
  by (cases "mdbs s p") (auto simp: get_closing_def)

lemma pool_inv_same_shape:
  assumes "pool_inv s" and sh: "same_shape s s'"
  shows "pool_inv s'"
proof -
  note I = pool_invD [OF assms(1)]
  have eqs: "clusters s' = clusters s" "next_mdb s' = next_mdb s" "next_db s' = next_db s"
    "\<And>h. dbs s' h = None \<longleftrightarrow> dbs s h = None" "\<And>h. is_open h s' \<longleftrightarrow> is_open h s"
    using sh by (simp_all add: same_shape_def)
  show ?thesis
    unfolding pool_inv_def
  proof (intro conjI allI impI)
    fix p q m m'
    assume "mdbs s' p = Some m \<and> mdbs s' q = Some m' \<and> mdb_db m = mdb_db m'"
    then show "p = q" using same_shape_core(1) [OF sh] I(3) by metis
  next
    fix p m
    assume "mdbs s' p = Some m"
    then show "dbs s' (mdb_db m) \<noteq> None" using same_shape_core(1) [OF sh] I(4) eqs(4) by metis
  next
    fix n p m
    assume "clusters s' n = Some p \<and> mdbs s' p = Some m \<and> closing m \<noteq> 1"
    then show "is_open (mdb_db m) s'"
      using same_shape_core(1) [OF sh] I(7) eqs(1,5) by metis
  qed (use I(1,2,5,6) eqs same_shape_core(3) [OF sh] in auto)
qed

section \<open>Get and release keep the shape\<close>

lemma upd_mdb_lookup: "mdbs (upd_mdb p f s) q = (if q = p then map_option f (mdbs s p) else mdbs s q)"
  by (simp add: upd_mdb_def)

lemma upd_mdb_frame [state_frame]:
  "clusters (upd_mdb p f s) = clusters s" "configs (upd_mdb p f s) = configs s"
  "next_mdb (upd_mdb p f s) = next_mdb s" "next_db (upd_mdb p f s) = next_db s"
  "dbs (upd_mdb p f s) = dbs s" "trace (upd_mdb p f s) = trace s"
  "pool.more (upd_mdb p f s) = pool.more s"
  by (simp_all add: upd_mdb_def)

lemma is_open_upd_mdb [state_frame]: "is_open h (upd_mdb p f s) = is_open h s"
  by (simp add: is_open_def state_frame)

lemma same_shape_upd_mdb:
  assumes "\<And>m. mdb_core (f m) = mdb_core m"
  shows "same_shape s (upd_mdb p f s)"
  using assms by (auto simp: same_shape_def state_frame upd_mdb_lookup option.map_comp comp_def)

lemma same_shape_incr_ref: "same_shape s (incr_ref p s)"
  unfolding incr_ref_def by (rule same_shape_upd_mdb) (simp add: mdb_core_def)

lemma same_shape_Get: "same_shape s (snd (Get c s))"
  by (auto simp: Get_def same_shape_incr_ref split: sum.splits)

lemma same_shape_release: "same_shape s (pool_release names h s)"
proof -
  have one: "same_shape s (release_one h n s)" for n and s :: "'a pool_scheme"
    by (auto simp: release_one_def mdb_core_def intro!: same_shape_upd_mdb split: option.splits)
  show ?thesis
    unfolding pool_release_def
    by (induction names arbitrary: s) (auto intro: same_shape_trans one)
qed

lemma same_shape_pool_calls: "same_shape s (pool_calls cs s)"
proof -
  have one: "same_shape s (run_call c s)" for c and s :: "'a pool_scheme"
    by (cases c) (simp_all add: same_shape_Get same_shape_release)
  show ?thesis
    unfolding pool_calls_def
    by (induction cs arbitrary: s) (auto intro: same_shape_trans one)
qed

lemma same_shape_waitForRelease: "same_shape s (snd (snd (waitForRelease env b p s)))"
  by (induction env b p s rule: waitForRelease.induct)
    (auto split: option.splits intro: same_shape_trans same_shape_pool_calls)

lemma same_shape_world:
  "same_shape s (send h t r s)" "same_shape s (acquire h s)" "same_shape s (give_back h s)"
  by (auto simp: same_shape_def send_def acquire_def give_back_def upd_db_def is_open_def
      split: option.splits)

lemma Get_trace [state_frame]: "trace (snd (Get c s)) = trace s"
  by (simp add: Get_def incr_ref_def state_frame split: sum.splits)

lemma Get_dbs [state_frame]: "dbs (snd (Get c s)) = dbs s"
  by (simp add: Get_def incr_ref_def state_frame split: sum.splits)

lemma pool_calls_dbs [state_frame]: "dbs (pool_calls cs s) = dbs s"
proof -
  have one: "dbs (release_one h n s) = dbs s" for h n and s :: "'a pool_scheme"
    by (simp add: release_one_def state_frame split: option.splits)
  have rel: "dbs (pool_release names h s) = dbs s" for names h and s :: "'a pool_scheme"
    unfolding pool_release_def by (induction names arbitrary: s) (simp_all add: one)
  have call: "dbs (run_call c s) = dbs s" for c and s :: "'a pool_scheme"
    by (cases c) (simp_all add: Get_dbs rel)
  show ?thesis
    unfolding pool_calls_def by (induction cs arbitrary: s) (simp_all add: call)
qed

lemma waitForRelease_dbs [state_frame]: "dbs (snd (snd (waitForRelease env b p s))) = dbs s"
  by (induction env b p s rule: waitForRelease.induct) (auto simp: state_frame split: option.splits)

section \<open>The contract of Get\<close>

text \<open>
  A source of handles: on success the handle is open and was configured for the name asked for, on
  failure nothing changes, and in both cases the invariant is kept and nothing is sent.
\<close>

locale handle_source =
  fixes get :: "string \<Rightarrow> 's \<Rightarrow> (go_error + nat) \<times> 's"
    and inv :: "'s \<Rightarrow> bool"
    and opened :: "nat \<Rightarrow> 's \<Rightarrow> bool"
    and sent :: "'s \<Rightarrow> event list"
  assumes get_open: "inv s \<Longrightarrow> get c s = (Inr h, s') \<Longrightarrow> opened h s'"
    and get_inv: "inv s \<Longrightarrow> inv (snd (get c s))"
    and get_error: "get c s = (Inl e, s') \<Longrightarrow> s' = s"
    and get_silent: "sent (snd (get c s)) = sent s"
    and get_keeps: "opened k s \<Longrightarrow> opened k (snd (get c s))"
begin

lemma gets_inv: "inv s \<Longrightarrow> inv (fold (\<lambda>c. snd \<circ> get c) cs s)"
  by (induction cs arbitrary: s) (simp_all add: get_inv)

lemma gets_silent: "sent (fold (\<lambda>c. snd \<circ> get c) cs s) = sent s"
  by (induction cs arbitrary: s) (simp_all add: get_silent)

lemma gets_keep: "opened k s \<Longrightarrow> opened k (fold (\<lambda>c. snd \<circ> get c) cs s)"
  by (induction cs arbitrary: s) (simp_all add: get_keeps)

lemma later_still_open:
  assumes "inv s" and "get c s = (Inr h, s')"
  shows "opened h (fold (\<lambda>c. snd \<circ> get c) cs s')"
  using get_open [OF assms] by (rule gets_keep)

end

lemma Get_open:
  assumes "pool_inv s" and "Get c s = (Inr h, s')"
  shows "is_open h s'"
proof -
  obtain p where p: "clusters s c = Some p" and nc: "\<not> get_closing p s" and h: "h = handle_of p s"
    and s': "s' = incr_ref p s"
    using assms(2) by (auto simp: Get_def get_lookup_def split: option.splits if_splits)
  obtain m where m: "mdbs s p = Some m" using pool_invD(1) [OF assms(1) p] by auto
  have "is_open (mdb_db m) s"
    using pool_invD(7) [OF assms(1) p m] nc m by (simp add: get_closing_def)
  then show ?thesis
    using h m s' by (simp add: handle_of_def incr_ref_def state_frame)
qed

lemma Get_error: "Get c s = (Inl e, s') \<Longrightarrow> s' = s"
  by (auto simp: Get_def split: sum.splits if_splits)

lemma Get_inv: "pool_inv s \<Longrightarrow> pool_inv (snd (Get c s))"
  by (rule pool_inv_same_shape [OF _ same_shape_Get])

interpretation pool: handle_source Get pool_inv is_open trace
proof unfold_locales
  show "is_open k s \<Longrightarrow> is_open k (snd (Get c s))" for k c and s :: "'a pool_scheme"
    using same_shape_Get [of s c] by (simp add: same_shape_def)
qed (simp_all add: Get_open Get_inv Get_trace Get_error)

end
