(* ===== verification/Pool_Update.thy ===== *)
theory Pool_Update
  imports Pool_Inv
begin

text \<open>
  What \<open>UpdateConfig\<close> and \<open>NewPool\<close> do to the pool: which clusters are kept, closed and
  added, and that the invariant is kept.
\<close>

section \<open>Marking\<close>

definition to_close :: "ClustersConfig \<Rightarrow> string list \<Rightarrow> 'a pool_scheme \<Rightarrow> (string \<times> nat) list" where
  "to_close new order s =
     map (\<lambda>n. (n, the (clusters s n)))
       (filter (\<lambda>n. clusters s n \<noteq> None \<and> must_close (configs s) new n) order)"

definition mark_ptrs :: "nat set \<Rightarrow> 'a pool_scheme \<Rightarrow> 'a pool_scheme" where
  "mark_ptrs P s =
     s\<lparr>mdbs := (\<lambda>p. if p \<in> P then map_option (\<lambda>m. m\<lparr>closing := 1\<rparr>) (mdbs s p) else mdbs s p)\<rparr>"

lemma mark_ptrs_upd: "mark_ptrs P (upd_mdb p (\<lambda>m. m\<lparr>closing := 1\<rparr>) s) = mark_ptrs (insert p P) s"
  by (auto simp: mark_ptrs_def upd_mdb_def option.map_comp comp_def intro!: pool.equality ext)

lemma to_close_upd_mdb [simp]: "to_close new order (upd_mdb p f s) = to_close new order s"
  by (simp add: to_close_def state_frame)

lemma mark_closing_eq:
  "mark_closing new order s =
     (to_close new order s, mark_ptrs (snd ` set (to_close new order s)) s)"
proof (induction new order s rule: mark_closing.induct)
  case (1 new s)
  then show ?case by (simp add: to_close_def mark_ptrs_def)
next
  case (2 new name names s)
  show ?case
  proof (cases "clusters s name")
    case None
    with 2(1) show ?thesis by (simp add: to_close_def)
  next
    case (Some p)
    show ?thesis
    proof (cases "must_close (configs s) new name")
      case True
      have tc: "to_close new (name # names) s = (name, p) # to_close new names s"
        using Some True by (simp add: to_close_def)
      show ?thesis
        using Some True 2(2) [OF Some True] by (simp add: tc mark_ptrs_upd)
    next
      case False
      have tc: "to_close new (name # names) s = to_close new names s"
        using False by (simp add: to_close_def)
      show ?thesis
        using Some False 2(3) [OF Some False] by (simp add: tc)
    qed
  qed
qed

lemma mark_ptrs_frame [state_frame]:
  "clusters (mark_ptrs P s) = clusters s" "configs (mark_ptrs P s) = configs s"
  "next_mdb (mark_ptrs P s) = next_mdb s" "next_db (mark_ptrs P s) = next_db s"
  "dbs (mark_ptrs P s) = dbs s" "trace (mark_ptrs P s) = trace s"
  by (simp_all add: mark_ptrs_def)

lemma mark_ptrs_lookup:
  "mdbs (mark_ptrs P s) p =
     (if p \<in> P then map_option (\<lambda>m. m\<lparr>closing := 1\<rparr>) (mdbs s p) else mdbs s p)"
  by (simp add: mark_ptrs_def)

lemma handle_of_mark_ptrs: "handle_of p (mark_ptrs P s) = handle_of p s"
  by (cases "mdbs s p") (simp_all add: handle_of_def mark_ptrs_lookup)

lemma pool_inv_mark_ptrs:
  assumes "pool_inv s"
  shows "pool_inv (mark_ptrs P s)"
proof -
  note I = pool_invD [OF assms]
  have core: "mdbs (mark_ptrs P s) p = Some m' \<Longrightarrow>
      \<exists>m. mdbs s p = Some m \<and> mdb_db m = mdb_db m' \<and> (closing m' \<noteq> 1 \<longrightarrow> closing m \<noteq> 1)" for p m'
    by (auto simp: mark_ptrs_lookup split: if_splits)
  show ?thesis
    unfolding pool_inv_def
  proof (intro conjI allI impI)
    fix p q m m'
    assume "mdbs (mark_ptrs P s) p = Some m \<and> mdbs (mark_ptrs P s) q = Some m' \<and> mdb_db m = mdb_db m'"
    then show "p = q" using core I(3) by metis
  next
    fix p m
    assume "mdbs (mark_ptrs P s) p = Some m"
    then show "dbs (mark_ptrs P s) (mdb_db m) \<noteq> None" using core I(4) by (metis mark_ptrs_frame(5))
  next
    fix n p m
    assume "clusters (mark_ptrs P s) n = Some p \<and> mdbs (mark_ptrs P s) p = Some m \<and> closing m \<noteq> 1"
    then obtain m0 where "clusters s n = Some p" "mdbs s p = Some m0" "mdb_db m0 = mdb_db m" "closing m0 \<noteq> 1"
      using core by (metis mark_ptrs_frame(1))
    then have "is_open (mdb_db m) s" using I(7) by metis
    then show "is_open (mdb_db m) (mark_ptrs P s)" by (simp add: is_open_def state_frame)
  qed (use I(1,2,5,6) in \<open>auto simp: state_frame mark_ptrs_lookup\<close>)
qed

section \<open>Adding\<close>

definition configured_db :: "ClusterConfig \<Rightarrow> sqldb" where
  "configured_db cfg =
     set_max_lifetime (ConnMaxLifetime cfg) (set_max_idle (MaxIdleConns cfg)
       (set_max_open (MaxOpenConns cfg)
         \<lparr>db_dsn = GetDSN cfg, db_maxOpen = 0, db_maxIdle = 2, db_maxLifetime = 0,
          db_inUse = 0, db_closed = False\<rparr>))"

definition open_cluster :: "string \<Rightarrow> ClusterConfig \<Rightarrow> 'a pool_scheme \<Rightarrow> 'a pool_scheme" where
  "open_cluster name cfg s =
     s\<lparr>dbs := (dbs s)(next_db s \<mapsto> configured_db cfg), next_db := Suc (next_db s),
       mdbs := (mdbs s)(next_mdb s \<mapsto> \<lparr>mdb_db = next_db s, refCount = 0, closing = 0\<rparr>),
       next_mdb := Suc (next_mdb s), clusters := (clusters s)(name \<mapsto> next_mdb s)\<rparr>"

lemma configured_db_fields:
  "db_dsn (configured_db cfg) = GetDSN cfg" "\<not> db_closed (configured_db cfg)"
  "db_inUse (configured_db cfg) = 0"
  "db_maxOpen (configured_db cfg) = max 0 (MaxOpenConns cfg)"
  by (auto simp: configured_db_def set_max_lifetime_def set_max_idle_def set_max_open_def Let_def)

lemma connect_error:
  "drv_open drv (GetDSN cfg) = Some e \<Longrightarrow> connect drv cfg s = (Inl (''open connection: '' @ e), s)"
  by (simp add: connect_def sql_Open_def)

lemma connect_install:
  assumes "drv_open drv (GetDSN cfg) = None"
  shows "\<exists>s1. connect drv cfg s = (Inr (next_db s), s1) \<and> install name (next_db s) s1 = open_cluster name cfg s"
  using assms
  by (auto simp: connect_def sql_Open_def install_def alloc_mdb_def open_cluster_def upd_db_def
      configured_db_def intro!: pool.equality ext)

lemma pool_inv_open_cluster:
  assumes "pool_inv s"
  shows "pool_inv (open_cluster name cfg s)"
proof -
  note I = pool_invD [OF assms]
  have fresh: "mdbs s p = Some m \<Longrightarrow> p \<noteq> next_mdb s \<and> mdb_db m \<noteq> next_db s" for p m
    using I(4,5,6) by (metis option.distinct(1) order_refl)
  have cl: "clusters s n = Some p \<Longrightarrow> p \<noteq> next_mdb s" for n p
    using I(1,5) by (metis order_refl)
  have op: "is_open h s \<Longrightarrow> is_open h (open_cluster name cfg s)" for h
    using I(6) [of h] by (auto simp: is_open_def open_cluster_def configured_db_fields split: option.splits)
  have opn: "is_open (next_db s) (open_cluster name cfg s)"
    by (simp add: is_open_def open_cluster_def configured_db_fields)
  show ?thesis
    unfolding pool_inv_def
  proof (intro conjI allI impI)
    fix n p
    assume "clusters (open_cluster name cfg s) n = Some p"
    then show "mdbs (open_cluster name cfg s) p \<noteq> None"
      using I(1) by (auto simp: open_cluster_def split: if_splits)
  next
    fix n n' p
    assume "clusters (open_cluster name cfg s) n = Some p \<and> clusters (open_cluster name cfg s) n' = Some p"
    then show "n = n'"
      using I(2) by (auto simp: open_cluster_def split: if_splits dest: cl)
  next
    fix p q m m'
    have new: "mdbs (open_cluster name cfg s) r = Some k \<Longrightarrow>
        r = next_mdb s \<and> mdb_db k = next_db s \<or> mdbs s r = Some k \<and> mdb_db k \<noteq> next_db s" for r k
      using fresh [of r k] by (auto simp: open_cluster_def split: if_splits)
    assume "mdbs (open_cluster name cfg s) p = Some m \<and> mdbs (open_cluster name cfg s) q = Some m' \<and>
      mdb_db m = mdb_db m'"
    then show "p = q"
      using I(3) new [of p m] new [of q m'] by metis
  next
    fix p m
    assume "mdbs (open_cluster name cfg s) p = Some m"
    then show "dbs (open_cluster name cfg s) (mdb_db m) \<noteq> None"
      using I(4) by (auto simp: open_cluster_def split: if_splits)
  next
    fix n p m
    assume a: "clusters (open_cluster name cfg s) n = Some p \<and> mdbs (open_cluster name cfg s) p = Some m \<and>
      closing m \<noteq> 1"
    show "is_open (mdb_db m) (open_cluster name cfg s)"
    proof (cases "p = next_mdb s")
      case True
      with a have "mdb_db m = next_db s" by (auto simp: open_cluster_def)
      with opn show ?thesis by simp
    next
      case False
      with a have "clusters s n = Some p" "mdbs s p = Some m" "closing m \<noteq> 1"
        by (auto simp: open_cluster_def split: if_splits)
      then show ?thesis using I(7) op by blast
    qed
  qed (use I(5,6) in \<open>auto simp: open_cluster_def\<close>)
qed

definition openable :: "driver \<Rightarrow> ClustersConfig \<Rightarrow> string \<Rightarrow> bool" where
  "openable drv new n \<longleftrightarrow> (\<exists>cfg. new n = Some cfg \<and> drv_open drv (GetDSN cfg) = None)"

text \<open>One round of the loop, in three cases.\<close>

lemma add_new_step:
  "add_new drv new (name # names) s =
     (if clusters s name = None \<and> openable drv new name
      then add_new drv new names (open_cluster name (the (new name)) s)
      else add_new drv new names s)"
proof (cases "new name")
  case None
  then show ?thesis by (simp add: openable_def)
next
  case (Some cfg)
  show ?thesis
  proof (cases "clusters s name")
    case None
    show ?thesis
    proof (cases "drv_open drv (GetDSN cfg)")
      case None2: None
      then show ?thesis
        using None Some connect_install [OF None2, of s name] by (auto simp: openable_def)
    next
      case e: (Some e)
      then show ?thesis using None Some by (simp add: openable_def connect_error)
    qed
  qed (simp add: Some)
qed

declare add_new.simps(2) [simp del]

lemma pool_inv_add_new: "pool_inv s \<Longrightarrow> pool_inv (add_new drv new names s)"
  by (induction names arbitrary: s) (simp_all add: add_new_step pool_inv_open_cluster)

lemma add_new_keeps:
  "clusters s n = Some p \<Longrightarrow> clusters (add_new drv new names s) n = Some p"
proof (induction names arbitrary: s)
  case (Cons m names)
  have "clusters s m = None \<Longrightarrow> clusters (open_cluster m c s) n = Some p" for c
    using Cons(2) by (auto simp: open_cluster_def)
  with Cons show ?case by (auto simp: add_new_step)
qed simp

lemma add_new_configs [state_frame]: "configs (add_new drv new names s) = configs s"
  by (induction names arbitrary: s) (simp_all add: add_new_step open_cluster_def)

lemma add_new_old_mdbs:
  "p < next_mdb s \<Longrightarrow> mdbs (add_new drv new names s) p = mdbs s p"
  by (induction names arbitrary: s) (simp_all add: add_new_step open_cluster_def)

lemma add_new_old_dbs:
  "h < next_db s \<Longrightarrow> dbs (add_new drv new names s) h = dbs s h"
  by (induction names arbitrary: s) (simp_all add: add_new_step open_cluster_def)

lemma add_new_adds:
  assumes "clusters s n = None"
  shows "clusters (add_new drv new names s) n \<noteq> None \<longleftrightarrow> n \<in> set names \<and> openable drv new n"
  using assms
proof (induction names arbitrary: s)
  case (Cons m names)
  show ?case
  proof (cases "clusters s m = None \<and> openable drv new m")
    case True
    show ?thesis
    proof (cases "m = n")
      case True': True
      have "clusters (open_cluster m (the (new m)) s) n = Some (next_mdb s)"
        using True' by (simp add: open_cluster_def)
      then have "clusters (add_new drv new names (open_cluster m (the (new m)) s)) n = Some (next_mdb s)"
        by (rule add_new_keeps)
      then show ?thesis using True True' by (simp add: add_new_step)
    next
      case False
      then have "clusters (open_cluster m (the (new m)) s) n = None"
        using Cons(2) by (simp add: open_cluster_def)
      with Cons.IH False True show ?thesis by (simp add: add_new_step)
    qed
  next
    case False
    with Cons show ?thesis by (auto simp: add_new_step)
  qed
qed simp

text \<open>A cluster that was added uses the new configuration.\<close>

definition fresh_cluster :: "ClustersConfig \<Rightarrow> string \<Rightarrow> nat \<Rightarrow> 'a pool_scheme \<Rightarrow> bool" where
  "fresh_cluster new n p s \<longleftrightarrow>
     (\<exists>cfg h. new n = Some cfg \<and> mdbs s p = Some \<lparr>mdb_db = h, refCount = 0, closing = 0\<rparr> \<and>
        dbs s h = Some (configured_db cfg))"

lemma add_new_fresh:
  assumes "pool_inv s" and "clusters s n = None" and "clusters (add_new drv new names s) n = Some p"
  shows "fresh_cluster new n p (add_new drv new names s) \<and> next_mdb s \<le> p"
  using assms
proof (induction names arbitrary: s)
  case (Cons m names)
  show ?case
  proof (cases "clusters s m = None \<and> openable drv new m")
    case True
    let ?s = "open_cluster m (the (new m)) s"
    have step: "add_new drv new (m # names) s = add_new drv new names ?s"
      using True by (simp add: add_new_step)
    show ?thesis
    proof (cases "m = n")
      case True': True
      have "clusters ?s n = Some (next_mdb s)" using True' by (simp add: open_cluster_def)
      then have p: "p = next_mdb s"
        using add_new_keeps [of ?s n "next_mdb s" drv new names] Cons.prems(3) step by simp
      obtain cfg where cfg: "new m = Some cfg" using True by (auto simp: openable_def)
      have "mdbs (add_new drv new names ?s) p = mdbs ?s p"
        and "dbs (add_new drv new names ?s) (next_db s) = dbs ?s (next_db s)"
        by (rule add_new_old_mdbs add_new_old_dbs; simp add: p open_cluster_def)+
      then have "mdbs (add_new drv new names ?s) p = Some \<lparr>mdb_db = next_db s, refCount = 0, closing = 0\<rparr>"
        and "dbs (add_new drv new names ?s) (next_db s) = Some (configured_db cfg)"
        by (simp_all add: p open_cluster_def cfg)
      then show ?thesis
        unfolding step fresh_cluster_def using cfg True' p by auto
    next
      case False
      then have "clusters ?s n = None" using Cons.prems(2) by (simp add: open_cluster_def)
      with Cons.IH [of ?s] Cons.prems(1,3) step
      have "fresh_cluster new n p (add_new drv new names ?s) \<and> next_mdb ?s \<le> p"
        by (simp add: pool_inv_open_cluster)
      then show ?thesis by (simp add: step open_cluster_def)
    qed
  next
    case False
    with Cons show ?thesis by (auto simp: add_new_step)
  qed
qed simp

section \<open>Waiting, closing, deleting\<close>

definition close_one :: "nat \<Rightarrow> string \<Rightarrow> 'a pool_scheme \<Rightarrow> 'a pool_scheme" where
  "close_one p name s =
     (let s2 = upd_db (handle_of p s) (\<lambda>d. d\<lparr>db_closed := True\<rparr>) s
      in s2\<lparr>clusters := (clusters s2)(name := None)\<rparr>)"

lemma close_marked_step:
  "close_marked drv env b ((name, p) # rest) s =
     (let r = waitForRelease env b p s
      in close_marked drv env (fst (snd r)) rest (close_one p name (snd (snd r))))"
  by (simp add: close_one_def db_Close_def Let_def split: prod.splits)

declare close_marked.simps(2) [simp del]

lemma upd_db_pool_frame [state_frame]:
  "mdbs (upd_db h f s) = mdbs s" "clusters (upd_db h f s) = clusters s"
  "configs (upd_db h f s) = configs s" "next_mdb (upd_db h f s) = next_mdb s"
  by (simp_all add: upd_db_def)

lemma close_one_frame [state_frame]:
  "mdbs (close_one p n s) = mdbs s" "configs (close_one p n s) = configs s"
  "clusters (close_one p n s) = (clusters s)(n := None)"
  "next_mdb (close_one p n s) = next_mdb s" "next_db (close_one p n s) = next_db s"
  by (simp_all add: close_one_def state_frame)

lemma close_one_dbs:
  "dbs (close_one p n s) h =
     (if h = handle_of p s then map_option (\<lambda>d. d\<lparr>db_closed := True\<rparr>) (dbs s h) else dbs s h)"
  by (simp add: close_one_def upd_db_lookup Let_def)

lemma close_one_is_open:
  "is_open h (close_one p n s) \<longleftrightarrow> h \<noteq> handle_of p s \<and> is_open h s"
  by (auto simp: is_open_def close_one_dbs split: option.splits)

text \<open>The two halves: the handle is closed, then, under the lock, the name is deleted.\<close>

definition close_handle :: "nat \<Rightarrow> 'a pool_scheme \<Rightarrow> 'a pool_scheme" where
  "close_handle p s = upd_db (handle_of p s) (\<lambda>d. d\<lparr>db_closed := True\<rparr>) s"

definition delete_cluster :: "string \<Rightarrow> 'a pool_scheme \<Rightarrow> 'a pool_scheme" where
  "delete_cluster n s = s\<lparr>clusters := (clusters s)(n := None)\<rparr>"

lemma close_one_halves: "close_one p n s = delete_cluster n (close_handle p s)"
  by (simp add: close_one_def close_handle_def delete_cluster_def Let_def)

lemma close_handle_frame [state_frame]:
  "mdbs (close_handle p s) = mdbs s" "configs (close_handle p s) = configs s"
  "clusters (close_handle p s) = clusters s" "next_mdb (close_handle p s) = next_mdb s"
  "next_db (close_handle p s) = next_db s" "pool.more (close_handle p s) = pool.more s"
  by (simp_all add: close_handle_def state_frame) (simp add: upd_db_def)

lemma close_handle_dbs:
  "dbs (close_handle p s) h =
     (if h = handle_of p s then map_option (\<lambda>d. d\<lparr>db_closed := True\<rparr>) (dbs s h) else dbs s h)"
  by (simp add: close_handle_def upd_db_lookup)

lemma close_handle_is_open:
  "is_open h (close_handle p s) \<longleftrightarrow> h \<noteq> handle_of p s \<and> is_open h s"
  by (auto simp: is_open_def close_handle_dbs split: option.splits)

lemma delete_cluster_frame [state_frame]:
  "mdbs (delete_cluster n s) = mdbs s" "configs (delete_cluster n s) = configs s"
  "clusters (delete_cluster n s) = (clusters s)(n := None)" "next_mdb (delete_cluster n s) = next_mdb s"
  "next_db (delete_cluster n s) = next_db s" "dbs (delete_cluster n s) = dbs s"
  "pool.more (delete_cluster n s) = pool.more s" "is_open h (delete_cluster n s) = is_open h s"
  by (simp_all add: delete_cluster_def is_open_def)

lemma pool_inv_close_handle:
  assumes "pool_inv s" and "get_closing p s"
  shows "pool_inv (close_handle p s)"
proof -
  note I = pool_invD [OF assms(1)]
  obtain m0 where m0: "mdbs s p = Some m0" and c0: "closing m0 = 1"
    using assms(2) by (auto simp: get_closing_def split: option.splits)
  show ?thesis
    unfolding pool_inv_def
  proof (intro conjI allI impI)
    fix n' q m
    assume a: "clusters (close_handle p s) n' = Some q \<and> mdbs (close_handle p s) q = Some m \<and> closing m \<noteq> 1"
    then have q: "clusters s n' = Some q" "mdbs s q = Some m" "closing m \<noteq> 1" by (simp_all add: state_frame)
    then have "is_open (mdb_db m) s" using I(7) by metis
    moreover have "q \<noteq> p" using q m0 c0 by auto
    then have "mdb_db m \<noteq> mdb_db m0" using I(3) q(2) m0 by metis
    ultimately show "is_open (mdb_db m) (close_handle p s)"
      by (simp add: close_handle_is_open handle_of_def m0)
  next
    fix q m
    assume "mdbs (close_handle p s) q = Some m"
    then show "dbs (close_handle p s) (mdb_db m) \<noteq> None"
      using I(4) [of q m] by (auto simp: state_frame close_handle_dbs)
  next
    fix n1 n2 q
    assume "clusters (close_handle p s) n1 = Some q \<and> clusters (close_handle p s) n2 = Some q"
    then show "n1 = n2" using I(2) by (auto simp: state_frame)
  next
    fix q q' m m'
    assume "mdbs (close_handle p s) q = Some m \<and> mdbs (close_handle p s) q' = Some m' \<and> mdb_db m = mdb_db m'"
    then show "q = q'" using I(3) by (auto simp: state_frame)
  qed (use I(1,5,6) in \<open>auto simp: state_frame close_handle_dbs\<close>)
qed

lemma pool_inv_delete_cluster: "pool_inv s \<Longrightarrow> pool_inv (delete_cluster n s)"
  by (auto simp: pool_inv_def state_frame split: if_splits)

lemma pool_inv_close_one:
  assumes "pool_inv s" and "clusters s n = Some p" and "get_closing p s"
  shows "pool_inv (close_one p n s)"
  by (simp add: close_one_halves pool_inv_delete_cluster pool_inv_close_handle assms)

text \<open>What phase two needs to know about the list it works through.\<close>

definition marked_list :: "(string \<times> nat) list \<Rightarrow> 'a pool_scheme \<Rightarrow> bool" where
  "marked_list tc s \<longleftrightarrow>
     distinct (map fst tc) \<and> (\<forall>(n, p) \<in> set tc. clusters s n = Some p \<and> get_closing p s)"

lemma marked_list_step:
  assumes ml: "marked_list ((n, p) # tc) s" and sh: "same_shape s s1"
  shows "clusters s1 n = Some p" and "get_closing p s1" and "marked_list tc (close_one p n s1)"
proof -
  have cl: "clusters s1 = clusters s" using sh by (simp add: same_shape_def)
  show "clusters s1 n = Some p" using ml cl by (simp add: marked_list_def)
  show "get_closing p s1" using ml sh by (simp add: marked_list_def same_shape_get_closing)
  have "get_closing q (close_one p n s1) = get_closing q s1" for q
    by (simp add: get_closing_def state_frame)
  then have "get_closing q (close_one p n s1) = get_closing q s" for q
    using same_shape_get_closing [OF sh] by simp
  moreover have "clusters (close_one p n s1) m = clusters s m" if "(m, q) \<in> set tc" for m q
    using ml that cl by (force simp: marked_list_def state_frame)
  ultimately show "marked_list tc (close_one p n s1)"
    using ml by (auto simp: marked_list_def)
qed

lemma pool_inv_close_marked:
  "pool_inv s \<Longrightarrow> marked_list tc s \<Longrightarrow> pool_inv (close_marked drv env b tc s)"
proof (induction tc arbitrary: b s)
  case (Cons np tc)
  obtain n p where np: "np = (n, p)" by (cases np)
  let ?s1 = "snd (snd (waitForRelease env b p s))"
  have sh: "same_shape s ?s1" by (rule same_shape_waitForRelease)
  note ms = marked_list_step [OF Cons.prems(2) [unfolded np] sh]
  have "pool_inv (close_one p n ?s1)"
    by (rule pool_inv_close_one [OF pool_inv_same_shape [OF Cons.prems(1) sh] ms(1,2)])
  with Cons.IH ms(3) show ?case by (simp add: np close_marked_step Let_def)
qed simp

lemma close_marked_clusters:
  "clusters (close_marked drv env b tc s) n = (if n \<in> fst ` set tc then None else clusters s n)"
proof (induction tc arbitrary: b s)
  case (Cons np tc)
  obtain m p where np: "np = (m, p)" by (cases np)
  have "clusters (snd (snd (waitForRelease env b p s))) = clusters s"
    using same_shape_waitForRelease [of s env b p] by (simp add: same_shape_def)
  with Cons show ?case by (auto simp: np close_marked_step Let_def state_frame)
qed simp

lemma close_marked_configs [state_frame]: "configs (close_marked drv env b tc s) = configs s"
proof (induction tc arbitrary: b s)
  case (Cons np tc)
  obtain m p where np: "np = (m, p)" by (cases np)
  have "configs (snd (snd (waitForRelease env b p s))) = configs s"
    using same_shape_waitForRelease [of s env b p] by (simp add: same_shape_def)
  with Cons show ?case by (simp add: np close_marked_step Let_def state_frame)
qed simp

lemma close_marked_dbs:
  "dbs (close_marked drv env b tc s) h =
     (if h \<in> (\<lambda>(n, p). handle_of p s) ` set tc
      then map_option (\<lambda>d. d\<lparr>db_closed := True\<rparr>) (dbs s h) else dbs s h)"
proof (induction tc arbitrary: b s)
  case (Cons np tc)
  obtain m p where np: "np = (m, p)" by (cases np)
  let ?s1 = "snd (snd (waitForRelease env b p s))"
  have sh: "same_shape s ?s1" by (rule same_shape_waitForRelease)
  have "handle_of q (close_one p m ?s1) = handle_of q s" for q
    using same_shape_handle_of [OF sh, of q] by (simp add: handle_of_def state_frame)
  moreover have "handle_of p ?s1 = handle_of p s" by (rule same_shape_handle_of [OF sh])
  ultimately show ?case
    by (auto simp: np close_marked_step Let_def Cons.IH close_one_dbs state_frame option.map_comp comp_def)
qed simp

lemma close_marked_core:
  "map_option mdb_core (mdbs (close_marked drv env b tc s) p) = map_option mdb_core (mdbs s p)"
proof (induction tc arbitrary: b s)
  case (Cons np tc)
  obtain m q where np: "np = (m, q)" by (cases np)
  have "same_shape s (snd (snd (waitForRelease env b q s)))" by (rule same_shape_waitForRelease)
  with Cons show ?case by (simp add: np close_marked_step Let_def state_frame same_shape_def)
qed simp

section \<open>UpdateConfig as a whole\<close>

text \<open>The visiting orders that an execution may have.\<close>

definition update_orders :: "string list \<Rightarrow> string list \<Rightarrow>
    ((string \<times> nat) list \<Rightarrow> (string \<times> nat) list) \<Rightarrow> ClustersConfig \<Rightarrow> 'a pool_scheme \<Rightarrow> bool" where
  "update_orders order names perm new s \<longleftrightarrow>
     ranges_over order (clusters s) \<and> ranges_over names new \<and>
     (\<forall>tc. distinct (map fst tc) \<longrightarrow> distinct (map fst (perm tc)) \<and> set (perm tc) = set tc)"

lemma to_close_iff:
  assumes "ranges_over order (clusters s)"
  shows "(n, p) \<in> set (to_close new order s) \<longleftrightarrow> clusters s n = Some p \<and> must_close (configs s) new n"
  using ranges_overD(2) [OF assms, of n] by (auto simp: to_close_def dom_def)

lemma to_close_distinct: "ranges_over order (clusters s) \<Longrightarrow> distinct (map fst (to_close new order s))"
  by (simp add: to_close_def comp_def ranges_over_def)

lemma update_ordersD:
  assumes "update_orders order names perm new s"
  shows "ranges_over order (clusters s)" and "ranges_over names new"
    and "distinct (map fst (perm (to_close new' order s)))"
    and "set (perm (to_close new' order s)) = set (to_close new' order s)"
  using assms to_close_distinct [of order s new'] by (simp_all add: update_orders_def)

lemma UpdateConfig_eq:
  "Pool_UpdateConfig drv env order names perm new s =
     close_marked drv env update_polls (perm (to_close new order s))
       ((add_new drv new names (mark_ptrs (snd ` set (to_close new order s)) s))\<lparr>configs := new\<rparr>)"
  by (simp add: Pool_UpdateConfig_def UpdateConfig_locked_def mark_closing_eq)

lemma configs_update_frame [state_frame]:
  "clusters (s\<lparr>configs := c\<rparr>) = clusters s" "mdbs (s\<lparr>configs := c\<rparr>) = mdbs s"
  "dbs (s\<lparr>configs := c\<rparr>) = dbs s" "get_closing p (s\<lparr>configs := c\<rparr>) = get_closing p s"
  "handle_of p (s\<lparr>configs := c\<rparr>) = handle_of p s" "pool_inv (s\<lparr>configs := c\<rparr>) = pool_inv s"
  by (simp_all add: get_closing_def handle_of_def pool_inv_def is_open_def)

lemma locked_marked_list:
  assumes inv: "pool_inv s" and ord: "update_orders order names perm new s"
  shows "marked_list (perm (to_close new order s))
     ((add_new drv new names (mark_ptrs (snd ` set (to_close new order s)) s))\<lparr>configs := new\<rparr>)"
proof -
  let ?tc = "to_close new order s"
  let ?s1 = "mark_ptrs (snd ` set ?tc) s"
  note ro = update_ordersD(1) [OF ord] and perm = update_ordersD(3,4) [OF ord, of new]
  have "clusters (add_new drv new names ?s1) n = Some p \<and> get_closing p (add_new drv new names ?s1)"
    if "(n, p) \<in> set ?tc" for n p
  proof -
    have cl: "clusters s n = Some p" using that to_close_iff [OF ro] by blast
    then obtain m where m: "mdbs s p = Some m" using pool_invD(1) [OF inv] by blast
    then have "p < next_mdb s" using pool_invD(5) [OF inv, of p] by (cases "p < next_mdb s") auto
    then have "mdbs (add_new drv new names ?s1) p = mdbs ?s1 p"
      by (simp add: add_new_old_mdbs state_frame)
    moreover have "mdbs ?s1 p = Some (m\<lparr>closing := 1\<rparr>)"
      using m that by (force simp: mark_ptrs_lookup)
    ultimately have "get_closing p (add_new drv new names ?s1)" by (simp add: get_closing_def)
    moreover have "clusters (add_new drv new names ?s1) n = Some p"
      by (rule add_new_keeps) (simp add: state_frame cl)
    ultimately show ?thesis by simp
  qed
  with perm show ?thesis by (auto simp: marked_list_def state_frame)
qed

lemma pool_inv_UpdateConfig:
  assumes "pool_inv s" and "update_orders order names perm new s"
  shows "pool_inv (Pool_UpdateConfig drv env order names perm new s)"
  unfolding UpdateConfig_eq
  by (intro pool_inv_close_marked locked_marked_list assms)
    (simp add: state_frame pool_inv_add_new pool_inv_mark_ptrs assms)

lemma UpdateConfig_clusters:
  assumes inv: "pool_inv s" and ord: "update_orders order names perm new s"
  shows "clusters s n = Some p \<Longrightarrow>
      clusters (Pool_UpdateConfig drv env order names perm new s) n =
        (if must_close (configs s) new n then None else Some p)"
    and "clusters s n = None \<Longrightarrow>
      clusters (Pool_UpdateConfig drv env order names perm new s) n \<noteq> None \<longleftrightarrow> openable drv new n"
proof -
  let ?tc = "to_close new order s"
  let ?s1 = "mark_ptrs (snd ` set ?tc) s"
  note ro = update_ordersD(1) [OF ord] and rn = update_ordersD(2) [OF ord]
    and perm = update_ordersD(4) [OF ord, of new]
  have eq: "clusters (Pool_UpdateConfig drv env order names perm new s) n =
      (if n \<in> fst ` set ?tc then None else clusters (add_new drv new names ?s1) n)"
    by (simp add: UpdateConfig_eq close_marked_clusters state_frame perm)
  show "clusters (Pool_UpdateConfig drv env order names perm new s) n =
        (if must_close (configs s) new n then None else Some p)" if "clusters s n = Some p"
  proof -
    have "clusters (add_new drv new names ?s1) n = Some p"
      by (rule add_new_keeps) (simp add: state_frame that)
    moreover have "n \<in> fst ` set ?tc \<longleftrightarrow> must_close (configs s) new n"
      using to_close_iff [OF ro, of n] that by (force simp: image_iff)
    ultimately show ?thesis by (simp add: eq)
  qed
  show "clusters (Pool_UpdateConfig drv env order names perm new s) n \<noteq> None \<longleftrightarrow> openable drv new n"
    if "clusters s n = None"
  proof -
    have "n \<notin> fst ` set ?tc" using to_close_iff [OF ro, of n] that by (auto simp: image_iff)
    moreover have "n \<in> set names \<and> openable drv new n \<longleftrightarrow> openable drv new n"
      using ranges_overD(2) [OF rn, of n] by (auto simp: openable_def dom_def)
    moreover have "clusters ?s1 n = None" by (simp add: state_frame that)
    ultimately show ?thesis using add_new_adds [of ?s1 n drv new names] eq by simp
  qed
qed

lemma add_new_more [state_frame]: "pool.more (add_new drv new names s) = pool.more s"
  by (induction names arbitrary: s) (simp_all add: add_new_step open_cluster_def)

lemma close_marked_more [state_frame]: "pool.more (close_marked drv env b tc s) = pool.more s"
proof (induction tc arbitrary: b s)
  case (Cons np tc)
  obtain m p where np: "np = (m, p)" by (cases np)
  have "pool.more (snd (snd (waitForRelease env b p s))) = pool.more s"
    using same_shape_waitForRelease [of s env b p] by (simp add: same_shape_def)
  with Cons show ?case by (simp add: np close_marked_step Let_def close_one_def upd_db_def)
qed simp

lemma UpdateConfig_more [state_frame]:
  "pool.more (Pool_UpdateConfig drv env order names perm new s) = pool.more s"
  by (simp add: UpdateConfig_eq state_frame mark_ptrs_def)

lemma UpdateConfig_configs [state_frame]:
  "configs (Pool_UpdateConfig drv env order names perm new s) = new"
  by (simp add: UpdateConfig_eq state_frame)

end
