(* ===== verification/Router.thy ===== *)
theory Router
  imports Pool_Update
begin

text \<open>
  \<open>internal/database/router.go\<close>: from a database name to a statement run on its cluster.

  The state extends the pool by the map of databases. A context is the timeout it was made with.
  \<open>Query\<close> and \<open>Exec\<close> take a dedicated connection, select the database on it and run
  the statement; what they do with the connection afterwards differs, and the connection accounting
  of \<open>Sql_DB\<close> shows it: \<open>Exec\<close> returns it on every path, \<open>Query\<close> only
  when it fails.
\<close>

record router = pool +
  rt_databases :: DatabasesConfig

definition NewRouter :: "pool \<Rightarrow> DatabasesConfig \<Rightarrow> router" where
  "NewRouter p databases = pool.extend p \<lparr>rt_databases = databases\<rparr>"

definition GetDB :: "string \<Rightarrow> 'a router_scheme \<Rightarrow> (go_error + nat) \<times> 'a router_scheme" where
  "GetDB database r =
     (case rt_databases r database of
        None \<Rightarrow> (Inl (''unknown database: '' @ database), r)
      | Some dbConfig \<Rightarrow> Get (Cluster dbConfig) r)"

definition GetCluster :: "string \<Rightarrow> 'a router_scheme \<Rightarrow> go_error + string" where
  "GetCluster database r =
     (case rt_databases r database of
        None \<Rightarrow> Inl (''unknown database: '' @ database)
      | Some dbConfig \<Rightarrow> Inr (Cluster dbConfig))"

definition Router_UpdateConfig :: "DatabasesConfig \<Rightarrow> 'a router_scheme \<Rightarrow> 'a router_scheme" where
  "Router_UpdateConfig databases r = r\<lparr>rt_databases := databases\<rparr>"

text \<open>\<open>order\<close> is the order in which the range visits the map.\<close>

fun ListDatabases_loop :: "string list \<Rightarrow> string list \<Rightarrow> string list" where
  "ListDatabases_loop [] databases = databases"
| "ListDatabases_loop (name # names) databases = ListDatabases_loop names (databases @ [name])"

definition ListDatabases :: "string list \<Rightarrow> string list" where
  "ListDatabases order = ListDatabases_loop order []"

definition useDB :: "driver \<Rightarrow> int \<Rightarrow> nat \<Rightarrow> string \<Rightarrow> 'a world_scheme \<Rightarrow> go_error option \<times> 'a world_scheme" where
  "useDB drv t conn database w =
     (case conn_Exec drv t conn (''USE `'' @ database @ ''`'') w of
        (Inl e, w1) \<Rightarrow> (Some (''switch to database '' @ database @ '': '' @ e), w1)
      | (Inr _, w1) \<Rightarrow> (None, w1))"

definition Router_Query ::
  "driver \<Rightarrow> int \<Rightarrow> string \<Rightarrow> string \<Rightarrow> sql_arg list \<Rightarrow> 'a router_scheme \<Rightarrow>
     (go_error + sql_rows) \<times> 'a router_scheme" where
  "Router_Query drv t database query args r =
     (case GetDB database r of
        (Inl e, r1) \<Rightarrow> (Inl e, r1)
      | (Inr db, r1) \<Rightarrow>
          (case db_Conn drv t db r1 of
             (Inl e, r2) \<Rightarrow> (Inl (''get connection: '' @ e), r2)
           | (Inr conn, r2) \<Rightarrow>
               (case useDB drv t conn database r2 of
                  (Some e, r3) \<Rightarrow> (Inl e, conn_Close conn r3)
                | (None, r3) \<Rightarrow>
                    (case conn_Query drv t conn query args r3 of
                       (Inl e, r4) \<Rightarrow> (Inl e, conn_Close conn r4)
                     | (Inr rows, r4) \<Rightarrow> (Inr rows, r4)))))"

definition Router_Exec ::
  "driver \<Rightarrow> int \<Rightarrow> string \<Rightarrow> string \<Rightarrow> 'a router_scheme \<Rightarrow>
     (go_error + exec_result) \<times> 'a router_scheme" where
  "Router_Exec drv t database query r =
     (case GetDB database r of
        (Inl e, r1) \<Rightarrow> (Inl e, r1)
      | (Inr db, r1) \<Rightarrow>
          (case db_Conn drv t db r1 of
             (Inl e, r2) \<Rightarrow> (Inl (''get connection: '' @ e), r2)
           | (Inr conn, r2) \<Rightarrow>
               (case useDB drv t conn database r2 of
                  (Some e, r3) \<Rightarrow> (Inl e, conn_Close conn r3)
                | (None, r3) \<Rightarrow>
                    (case conn_Exec drv t conn query r3 of
                       (res, r4) \<Rightarrow> (res, conn_Close conn r4)))))"

section \<open>What routing leaves alone\<close>

lemma ListDatabases_loop_eq: "ListDatabases_loop ns ds = ds @ ns"
  by (induction ns ds rule: ListDatabases_loop.induct) simp_all

lemma ListDatabases_eq [simp]: "ListDatabases order = order"
  by (simp add: ListDatabases_def ListDatabases_loop_eq)

text \<open>
  \<open>routed\<close>: everything a request does to a router besides its answer. The pool keeps its
  shape, the databases stay, the trace grows by events of one handle under one timeout.
\<close>

definition routed :: "int \<Rightarrow> 'a router_scheme \<Rightarrow> 'a router_scheme \<Rightarrow> bool" where
  "routed t r r' \<longleftrightarrow>
     same_shape r r' \<and> rt_databases r' = rt_databases r \<and> router.more r' = router.more r \<and>
     (\<exists>es. trace r' = trace r @ es \<and> (\<forall>e \<in> set es. ev_timeout e = t))"

lemma routed_refl [simp]: "routed t r r"
  by (simp add: routed_def)

lemma routed_trans [trans]: "routed t r r1 \<Longrightarrow> routed t r1 r2 \<Longrightarrow> routed t r r2"
  unfolding routed_def
  by (elim conjE exE, intro conjI) (auto intro: same_shape_trans)

lemma routed_send: "routed t r (send h t q r)"
  using same_shape_world(1) [of r h t q] by (auto simp: routed_def send_def)

lemma routed_acquire: "routed t r (acquire h r)"
  using same_shape_world(2) [of r h] by (auto simp: routed_def acquire_def upd_db_def)

lemma routed_give_back: "routed t r (give_back h r)"
  using same_shape_world(3) [of r h] by (auto simp: routed_def give_back_def upd_db_def)

lemma routed_world:
  assumes "routed t r r'"
  shows "routed t r (send h t q r')" and "routed t r (acquire h r')" and "routed t r (give_back h r')"
  by (rule routed_trans [OF assms]; rule routed_send routed_acquire routed_give_back)+

lemma routed_Get: "routed t r (snd (Get c r))"
  using same_shape_Get [of r c] Get_trace [of c r]
  by (auto simp: routed_def Get_def incr_ref_def upd_mdb_def split: sum.splits if_splits)

lemma routed_GetDB: "routed t r (snd (GetDB database r))"
  by (auto simp: GetDB_def routed_Get split: option.splits)

lemma routed_db_Conn: "routed t r (snd (db_Conn drv t h r))"
  by (cases rule: db_Conn_cases [of drv t h r])
    (auto intro!: routed_world)

lemma useDB_eq:
  "useDB drv t conn database w =
     ((case drv_exec drv (trace w) conn (''USE `'' @ database @ ''`'') of
         Inl e \<Rightarrow> Some (''switch to database '' @ database @ '': '' @ e)
       | Inr _ \<Rightarrow> None), send conn t (ReqExec (''USE `'' @ database @ ''`'')) w)"
  by (simp add: useDB_def conn_Exec_def split: sum.splits)

text \<open>
  The paths of a request. \<open>on_conn\<close> is the state once a connection is taken and the database
  selected on it.
\<close>

abbreviation use_stmt :: "string \<Rightarrow> string" where
  "use_stmt database \<equiv> ''USE `'' @ database @ ''`''"

definition on_conn :: "int \<Rightarrow> nat \<Rightarrow> string \<Rightarrow> 'a router_scheme \<Rightarrow> 'a router_scheme" where
  "on_conn t h database r1 =
     send h t (ReqExec (use_stmt database)) (acquire h (send h t ReqConnect r1))"

definition free_db :: "nat \<Rightarrow> 'a world_scheme \<Rightarrow> bool" where
  "free_db h w \<longleftrightarrow> (\<exists>d. dbs w h = Some d \<and> \<not> db_closed d \<and> \<not> exhausted d)"

lemma routed_on_conn: "routed t r r' \<Longrightarrow> routed t r (on_conn t h database r')"
  unfolding on_conn_def by (intro routed_world)

lemma request_cases:
  fixes r :: "'a router_scheme"
  obtains (routing) e where "GetDB database r = (Inl e, r)"
  | (connect) h r1 r2 e where "GetDB database r = (Inr h, r1)" and "db_Conn drv t h r1 = (Inl e, r2)"
      and "r2 = r1 \<or> r2 = send h t ReqConnect r1"
  | (selected) h r1 where "GetDB database r = (Inr h, r1)" and "free_db h r1"
      and "db_Conn drv t h r1 = (Inr h, acquire h (send h t ReqConnect r1))"
      and "\<And>e. fst (useDB drv t h database (acquire h (send h t ReqConnect r1))) = e \<Longrightarrow>
        useDB drv t h database (acquire h (send h t ReqConnect r1)) = (e, on_conn t h database r1)"
proof (cases "GetDB database r")
  case (Pair res r1)
  show thesis
  proof (cases res)
    case (Inl e)
    then have "r1 = r"
      using Pair by (auto simp: GetDB_def dest: Get_error split: option.splits)
    with Pair Inl routing show thesis by simp
  next
    case (Inr h)
    show thesis
      by (cases rule: db_Conn_cases [of drv t h r1])
        (use Pair Inr connect selected in \<open>auto simp: free_db_def useDB_eq on_conn_def\<close>)
  qed
qed

lemma Query_on_conn:
  assumes "GetDB database r = (Inr h, r1)"
    and "db_Conn drv t h r1 = (Inr h, r2)" and "useDB drv t h database r2 = (u, r3)"
  shows "Router_Query drv t database query args r =
     (case u of
        Some e \<Rightarrow> (Inl e, give_back h r3)
      | None \<Rightarrow>
          (case drv_query drv (trace r3) h query args of
             Inl e \<Rightarrow> (Inl e, give_back h (send h t (ReqQuery query args) r3))
           | Inr rows \<Rightarrow> (Inr (with_owner None rows), send h t (ReqQuery query args) r3)))"
  using assms by (simp add: Router_Query_def conn_Query_def conn_Close_def split: option.splits sum.splits)

lemma Exec_on_conn:
  assumes "GetDB database r = (Inr h, r1)"
    and "db_Conn drv t h r1 = (Inr h, r2)" and "useDB drv t h database r2 = (u, r3)"
  shows "Router_Exec drv t database query r =
     (case u of
        Some e \<Rightarrow> (Inl e, give_back h r3)
      | None \<Rightarrow> (drv_exec drv (trace r3) h query, give_back h (send h t (ReqExec query) r3)))"
  using assms by (simp add: Router_Exec_def conn_Exec_def conn_Close_def split: option.splits)

lemma Query_cases:
  obtains (routing) e where "GetDB database r = (Inl e, r)"
      and "Router_Query drv t database query args r = (Inl e, r)"
  | (connect) h r1 r2 e where "GetDB database r = (Inr h, r1)" and "db_Conn drv t h r1 = (Inl e, r2)"
      and "r2 = r1 \<or> r2 = send h t ReqConnect r1"
      and "Router_Query drv t database query args r = (Inl (''get connection: '' @ e), r2)"
  | (switch) h r1 e where "GetDB database r = (Inr h, r1)" and "free_db h r1"
      and "Router_Query drv t database query args r = (Inl e, give_back h (on_conn t h database r1))"
  | (fails) h r1 e where "GetDB database r = (Inr h, r1)" and "free_db h r1"
      and "Router_Query drv t database query args r =
        (Inl e, give_back h (send h t (ReqQuery query args) (on_conn t h database r1)))"
  | (answers) h r1 rows where "GetDB database r = (Inr h, r1)" and "free_db h r1"
      and "Router_Query drv t database query args r =
        (Inr (with_owner None rows), send h t (ReqQuery query args) (on_conn t h database r1))"
      and "drv_query drv (trace (on_conn t h database r1)) h query args = Inr rows"
proof (cases rule: request_cases [where database = database and r = r and drv = drv and t = t])
  case (selected h r1)
  let ?r2 = "acquire h (send h t ReqConnect r1)" and ?r3 = "on_conn t h database r1"
  note q = Query_on_conn [OF selected(1) selected(3) selected(4) [OF refl], of query args]
  show thesis
  proof (cases "fst (useDB drv t h database ?r2)")
    case (Some e)
    with q selected(1,2) switch show thesis by simp
  next
    case None
    then show thesis
      using q selected(1,2) fails answers
      by (cases "drv_query drv (trace ?r3) h query args") auto
  qed
qed (use routing connect in \<open>auto simp: Router_Query_def\<close>)

lemma Exec_cases:
  obtains (routing) e where "GetDB database r = (Inl e, r)"
      and "Router_Exec drv t database query r = (Inl e, r)"
  | (connect) h r1 r2 e where "GetDB database r = (Inr h, r1)" and "db_Conn drv t h r1 = (Inl e, r2)"
      and "r2 = r1 \<or> r2 = send h t ReqConnect r1"
      and "Router_Exec drv t database query r = (Inl (''get connection: '' @ e), r2)"
  | (switch) h r1 e where "GetDB database r = (Inr h, r1)" and "free_db h r1"
      and "Router_Exec drv t database query r = (Inl e, give_back h (on_conn t h database r1))"
  | (sent) h r1 where "GetDB database r = (Inr h, r1)" and "free_db h r1"
      and "Router_Exec drv t database query r =
        (drv_exec drv (trace (on_conn t h database r1)) h query,
         give_back h (send h t (ReqExec query) (on_conn t h database r1)))"
proof (cases rule: request_cases [where database = database and r = r and drv = drv and t = t])
  case (selected h r1)
  note q = Exec_on_conn [OF selected(1) selected(3) selected(4) [OF refl], of query]
  show thesis
    using q selected(1,2) switch sent
    by (cases "fst (useDB drv t h database (acquire h (send h t ReqConnect r1)))") auto
qed (use routing connect in \<open>auto simp: Router_Exec_def\<close>)

lemma routed_after_GetDB: "GetDB database r = (res, r1) \<Longrightarrow> routed t r r1"
  by (metis routed_GetDB snd_conv)

lemma routed_Query: "routed t r (snd (Router_Query drv t database query args r))"
  by (cases rule: Query_cases [where database = database and r = r and drv = drv and t = t and query = query and args = args])
    (auto intro!: routed_world routed_on_conn dest: routed_after_GetDB)

lemma routed_Exec: "routed t r (snd (Router_Exec drv t database query r))"
  by (cases rule: Exec_cases [where database = database and r = r and drv = drv and t = t and query = query])
    (auto intro!: routed_world routed_on_conn dest: routed_after_GetDB)

lemma routed_inv: "routed t r r' \<Longrightarrow> pool_inv r \<Longrightarrow> pool_inv r'"
  by (auto simp: routed_def intro: pool_inv_same_shape)

section \<open>Connection accounting\<close>

lemma dbs_send_acquire [db_laws]:
  "dbs (send h t q w) = dbs w" "dbs (acquire h (send h t q w)) = dbs (acquire h w)"
  by (auto simp: send_def acquire_def upd_db_def)

lemma dbs_cong_world:
  assumes "dbs w = dbs w'"
  shows "dbs (acquire h w) = dbs (acquire h w')" and "dbs (give_back h w) = dbs (give_back h w')"
  using assms by (simp_all add: acquire_def give_back_def upd_db_def)

lemma GetDB_dbs: "GetDB database r = (res, r1) \<Longrightarrow> dbs r1 = dbs r"
  using Get_dbs [of "Cluster (the (rt_databases r database))" r]
  by (auto simp: GetDB_def split: option.splits)

lemma dbs_on_conn: "dbs (on_conn t h database r1) = dbs (acquire h r1)"
  by (simp add: on_conn_def state_frame db_laws)

lemma dbs_give_back_on_conn:
  "dbs (give_back h (on_conn t h database r1)) = dbs r1"
  "dbs (give_back h (send h t q (on_conn t h database r1))) = dbs r1"
  using dbs_cong_world(2) [OF dbs_on_conn [of t h database r1], of h]
    dbs_cong_world(2) [OF trans [OF send_dbs [of h t q "on_conn t h database r1"] dbs_on_conn], of h]
  by (simp_all add: db_laws)

lemma Query_dbs_error:
  assumes "Router_Query drv t database query args r = (Inl e, r')"
  shows "dbs r' = dbs r"
  by (cases rule: Query_cases [where database = database and r = r and drv = drv and t = t and query = query and args = args])
    (use assms in \<open>auto simp: dbs_give_back_on_conn state_frame dest!: GetDB_dbs\<close>)

lemma Query_dbs_ok:
  assumes "Router_Query drv t database query args r = (Inr rows, r')"
  shows "\<exists>h. fst (GetDB database r) = Inr h \<and> free_db h r \<and> dbs r' = dbs (acquire h r)"
proof (cases rule: Query_cases [where database = database and r = r and drv = drv and t = t and query = query and args = args])
  case (answers h r1 rd)
  have "dbs r1 = dbs r" by (rule GetDB_dbs [OF answers(1)])
  then have "dbs r' = dbs (acquire h r)" and "free_db h r"
    using answers assms dbs_cong_world(1) [of r1 r h]
    by (auto simp: dbs_on_conn state_frame free_db_def)
  then show ?thesis using answers(1) by auto
qed (use assms in auto)

lemma Query_owner:
  assumes "Router_Query drv t database query args r = (Inr rows, r')"
  shows "rows_owner rows = None"
  by (cases rule: Query_cases [where database = database and r = r and drv = drv and t = t and query = query and args = args])
    (use assms in auto)

lemma Exec_dbs: "dbs (snd (Router_Exec drv t database query r)) = dbs r"
  by (cases rule: Exec_cases [where database = database and r = r and drv = drv and t = t and query = query])
    (auto simp: dbs_give_back_on_conn state_frame dest!: GetDB_dbs)

section \<open>A run of queries\<close>

text \<open>The database that a name leads to, and a sequence of requests whose rows are all closed.\<close>

definition routes_to :: "string \<Rightarrow> nat \<Rightarrow> 'a router_scheme \<Rightarrow> bool" where
  "routes_to database h r \<longleftrightarrow> fst (GetDB database r) = Inr h"

lemma routes_to_routed:
  assumes "routed t r r'"
  shows "routes_to database h r' = routes_to database h r"
  using assms same_shape_handle_of [of r r'] same_shape_get_closing [of r r']
  by (auto simp: routes_to_def routed_def GetDB_def Get_def get_lookup_def same_shape_def split: option.splits)

lemma rows_Close_unowned: "rows_owner rows = None \<Longrightarrow> rows_Close rows w = w"
  by (simp add: rows_Close_def)

type_synonym query_request = "int \<times> string \<times> string \<times> sql_arg list"

fun serve_queries :: "driver \<Rightarrow> query_request list \<Rightarrow> 'a router_scheme \<Rightarrow>
    (go_error + sql_rows) list \<times> 'a router_scheme" where
  "serve_queries drv [] r = ([], r)"
| "serve_queries drv ((t, database, query, args) # reqs) r =
     (case Router_Query drv t database query args r of
        (Inl e, r1) \<Rightarrow> (case serve_queries drv reqs r1 of (rs, r2) \<Rightarrow> (Inl e # rs, r2))
      | (Inr rows, r1) \<Rightarrow>
          (case serve_queries drv reqs (rows_Close rows r1) of (rs, r2) \<Rightarrow> (Inr rows # rs, r2)))"

definition successes :: "('e + 'a) list \<Rightarrow> nat" where
  "successes rs = length (filter (\<lambda>x. case x of Inl _ \<Rightarrow> False | Inr _ \<Rightarrow> True) rs)"

lemma Query_exhausted:
  assumes "routes_to database h r" and "dbs r h = Some d" and "\<not> db_closed d" and "exhausted d"
  shows "fst (Router_Query drv t database query args r) = Inl ''get connection: context deadline exceeded''"
    and "dbs (snd (Router_Query drv t database query args r)) = dbs r"
    and "trace (snd (Router_Query drv t database query args r)) = trace r"
proof -
  obtain r1 where g: "GetDB database r = (Inr h, r1)"
    using assms(1) by (cases "GetDB database r") (auto simp: routes_to_def)
  have d1: "dbs r1 = dbs r" by (rule GetDB_dbs [OF g])
  have t1: "trace r1 = trace r"
    using g by (auto simp: GetDB_def split: option.splits dest: arg_cong [where f = snd])
      (metis Get_trace snd_conv)
  have "db_Conn drv t h r1 = (Inl ''context deadline exceeded'', r1)"
    using assms d1 by (intro db_Conn_exhausted) simp_all
  then have q: "Router_Query drv t database query args r =
      (Inl ''get connection: context deadline exceeded'', r1)"
    using g by (simp add: Router_Query_def)
  show "fst (Router_Query drv t database query args r) = Inl ''get connection: context deadline exceeded''"
    and "dbs (snd (Router_Query drv t database query args r)) = dbs r"
    and "trace (snd (Router_Query drv t database query args r)) = trace r"
    using q d1 t1 by simp_all
qed

lemma serve_queries_in_use:
  fixes r :: "'a router_scheme"
  assumes "\<forall>req \<in> set reqs. routes_to (fst (snd req)) h r"
    and "dbs r h = Some d"
  shows "\<exists>d'. dbs (snd (serve_queries drv reqs r)) h = Some d' \<and>
     db_maxOpen d' = db_maxOpen d \<and> db_closed d' = db_closed d \<and>
     db_inUse d' = db_inUse d + successes (fst (serve_queries drv reqs r)) \<and>
     (0 < db_maxOpen d \<longrightarrow> int (db_inUse d) \<le> db_maxOpen d \<longrightarrow> int (db_inUse d') \<le> db_maxOpen d)"
  using assms
proof (induction reqs arbitrary: r d)
  case Nil
  then show ?case by (simp add: successes_def)
next
  case (Cons req reqs)
  obtain t database query args where req: "req = (t, database, query, args)" by (cases req) auto
  obtain res r1 where q: "Router_Query drv t database query args r = (res, r1)" by fastforce
  have rd: "routed t r r1" using routed_Query [of t r drv database query args] q by simp
  have rt: "\<forall>req \<in> set reqs. routes_to (fst (snd req)) h r1"
    using Cons.prems(1) rd by (auto simp: routes_to_routed)
  show ?case
  proof (cases res)
    case (Inl e)
    then have "dbs r1 h = Some d" using Query_dbs_error q Cons.prems(2) by metis
    from Cons.IH [OF rt this] show ?thesis
      using q Inl by (simp add: req successes_def case_prod_beta)
  next
    case (Inr rows)
    obtain h' where h': "fst (GetDB database r) = Inr h'" "free_db h' r" "dbs r1 = dbs (acquire h' r)"
      using Query_dbs_ok q Inr by blast
    have "h' = h" using h'(1) Cons.prems(1) by (auto simp: req routes_to_def)
    then have d1: "dbs r1 h = Some (d\<lparr>db_inUse := Suc (db_inUse d)\<rparr>)" and free: "\<not> exhausted d"
      using h' Cons.prems(2) by (auto simp: acquire_def upd_db_lookup free_db_def)
    have "rows_Close rows r1 = r1" using q Inr by (intro rows_Close_unowned) (auto intro: Query_owner)
    with Cons.IH [OF rt d1] show ?thesis
      using q Inr free by (auto simp: req successes_def exhausted_def case_prod_beta)
  qed
qed

end
