(* ===== verification/Go_Json.thy ===== *)
theory Go_Json
  imports Go_Strings
begin

text \<open>
  What the audit logger uses of \<open>encoding/json\<close> and \<open>time\<close>: the encoding of strings
  (with the HTML-safe escapes of \<open>json.Marshal\<close>), integers and UTC timestamps.

  A byte below 128 is escaped on its own; a well-formed UTF-8 sequence is copied, except the two line
  separators, and any other byte becomes the escape of the replacement rune.
  \<open>json_read\<close> is the reader the encoding is measured against: the text of a JSON string up
  to its closing quote.
\<close>

section \<open>Strings\<close>

definition hex_digit :: "nat \<Rightarrow> char" where
  "hex_digit n = (if n < 10 then char_of (48 + n) else char_of (87 + n))"

definition json_u00 :: "char \<Rightarrow> string" where
  "json_u00 c =
     [CHR 0x5C, CHR ''u'', CHR ''0'', CHR ''0'', hex_digit ((of_char c :: nat) div 16),
      hex_digit ((of_char c :: nat) mod 16)]"

definition json_short :: "(char \<times> char) list" where
  "json_short =
     [(CHR 0x22, CHR 0x22), (CHR 0x5C, CHR 0x5C), (CHR 0x08, CHR ''b''), (CHR 0x0C, CHR ''f''),
      (CHR 0x0A, CHR ''n''), (CHR 0x0D, CHR ''r''), (CHR 0x09, CHR ''t'')]"

definition json_plain :: "char \<Rightarrow> bool" where
  "json_plain c \<longleftrightarrow> 32 \<le> (of_char c :: nat) \<and> c \<notin> {CHR 0x22, CHR 0x5C, CHR ''<'', CHR ''>'', CHR ''&''}"

definition json_escape_byte :: "char \<Rightarrow> string" where
  "json_escape_byte c =
     (if json_plain c then [c]
      else case map_of json_short c of
        Some d \<Rightarrow> [CHR 0x5C, d]
      | None \<Rightarrow> json_u00 c)"

definition cont_byte :: "nat \<Rightarrow> nat \<Rightarrow> char \<Rightarrow> bool" where
  "cont_byte lo hi c \<longleftrightarrow> lo \<le> (of_char c :: nat) \<and> (of_char c :: nat) \<le> hi"

text \<open>Width of the well-formed UTF-8 sequence of two to four bytes at the front, or 0.\<close>

fun utf8_width :: "nat list \<Rightarrow> nat" where
  "utf8_width (a # b # bs) =
     (let cont = (\<lambda>x. 128 \<le> x \<and> x \<le> 191) in
      if 194 \<le> a \<and> a \<le> 223 then (if cont b then 2 else 0)
      else if 224 \<le> a \<and> a \<le> 239 then
        (case bs of c # _ \<Rightarrow>
            if (if a = 224 then 160 else 128) \<le> b \<and> b \<le> (if a = 237 then 159 else 191) \<and> cont c
            then 3 else 0
         | [] \<Rightarrow> 0)
      else if 240 \<le> a \<and> a \<le> 244 then
        (case bs of c # d # _ \<Rightarrow>
            if (if a = 240 then 144 else 128) \<le> b \<and> b \<le> (if a = 244 then 143 else 191) \<and> cont c \<and> cont d
            then 4 else 0
         | _ \<Rightarrow> 0)
      else 0)"
| "utf8_width _ = 0"

definition bytes_of :: "string \<Rightarrow> nat list" where
  "bytes_of s = map of_char s"

function json_escape :: "string \<Rightarrow> string" where
  "json_escape [] = []"
| "json_escape (c # s) =
     (if is_ascii c then json_escape_byte c @ json_escape s
      else
        let n = utf8_width (bytes_of (take 4 (c # s))) in
        if n = 0 then CHR 0x5C # ''ufffd'' @ json_escape s
        else if take 3 (c # s) = [CHR 0xE2, CHR 0x80, CHR 0xA8]
          then CHR 0x5C # ''u2028'' @ json_escape (drop 2 s)
        else if take 3 (c # s) = [CHR 0xE2, CHR 0x80, CHR 0xA9]
          then CHR 0x5C # ''u2029'' @ json_escape (drop 2 s)
        else take n (c # s) @ json_escape (drop (n - 1) s))"
  by pat_completeness auto
termination
  by (relation "measure length") auto

definition json_string :: "string \<Rightarrow> string" where
  "json_string s = CHR 0x22 # json_escape s @ [CHR 0x22]"

section \<open>Reading a string back\<close>

definition hex_value :: "char \<Rightarrow> nat" where
  "hex_value c = (if is_digit c then of_char c - 48 else of_char c - 87)"

fun json_read :: "string \<Rightarrow> (string \<times> string) option" where
  "json_read [] = None"
| "json_read (c # s) =
     (if c = CHR 0x22 then Some ([], s)
      else if c = CHR 0x5C then
        (case s of
           e # t \<Rightarrow>
             if e = CHR ''u'' then
               (case t of
                  z1 # z2 # h # l # t' \<Rightarrow>
                    map_option (\<lambda>(v, r). (char_of (hex_value h * 16 + hex_value l) # v, r)) (json_read t')
                | _ \<Rightarrow> None)
             else
               (case map_of (map (\<lambda>(a, b). (b, a)) json_short) e of
                  Some d \<Rightarrow> map_option (\<lambda>(v, r). (d # v, r)) (json_read t)
                | None \<Rightarrow> None)
         | [] \<Rightarrow> None)
      else map_option (\<lambda>(v, r). (c # v, r)) (json_read s))"

section \<open>Timestamps\<close>

text \<open>The proleptic Gregorian date of a number of days since 1 January of year 1.\<close>

definition leap_year :: "int \<Rightarrow> bool" where
  "leap_year y \<longleftrightarrow> y mod 4 = 0 \<and> (y mod 100 \<noteq> 0 \<or> y mod 400 = 0)"

definition year_of :: "int \<Rightarrow> int \<times> int" where
  "year_of days =
     (let n400 = days div 146097; d = days mod 146097;
          n100 = min 3 (d div 36524); d1 = d - 36524 * n100;
          n4 = d1 div 1461; d2 = d1 mod 1461;
          n1 = min 3 (d2 div 365)
      in (400 * n400 + 100 * n100 + 4 * n4 + n1 + 1, d2 - 365 * n1))"

fun month_of :: "int list \<Rightarrow> int \<Rightarrow> int \<Rightarrow> int \<times> int" where
  "month_of [] m d = (m, d + 1)"
| "month_of (len # lens) m d = (if d < len then (m, d + 1) else month_of lens (m + 1) (d - len))"

definition month_lengths :: "int \<Rightarrow> int list" where
  "month_lengths y = [31, if leap_year y then 29 else 28, 31, 30, 31, 30, 31, 31, 30, 31, 30, 31]"

definition pad :: "nat \<Rightarrow> int \<Rightarrow> string" where
  "pad w n = (let s = show_int n in replicate (w - length s) (CHR ''0'') @ s)"

definition fraction :: "int \<Rightarrow> string" where
  "fraction ns =
     (if ns = 0 then '''' else ''.'' @ rev (dropWhile (\<lambda>c. c = CHR ''0'') (rev (pad 9 ns))))"

text \<open>\<open>Time.MarshalJSON\<close> of a UTC time, without the quotes.\<close>

definition rfc3339 :: "gotime \<Rightarrow> go_error + string" where
  "rfc3339 t =
     (let secs = nanos t div second; days = secs div 86400; sod = secs mod 86400;
          (y, yday) = year_of days; (m, d) = month_of (month_lengths y) 1 yday
      in if 0 \<le> y \<and> y < 10000
         then Inr (pad 4 y @ ''-'' @ pad 2 m @ ''-'' @ pad 2 d @ ''T'' @ pad 2 (sod div 3600) @ '':'' @
                pad 2 (sod mod 3600 div 60) @ '':'' @ pad 2 (sod mod 60) @
                fraction (nanos t mod second) @ ''Z'')
         else Inl ''Time.MarshalJSON: year outside of range [0,9999]'')"

section \<open>Lemmas\<close>

lemma json_plain_no_control: "json_plain c \<Longrightarrow> 32 \<le> (of_char c :: nat)"
  by (simp add: json_plain_def)

lemma hex_digit_range: "n < 16 \<Longrightarrow> 48 \<le> (of_char (hex_digit n) :: nat) \<and> (of_char (hex_digit n) :: nat) \<le> 102"
  by (auto simp: hex_digit_def)

lemma hex_value_digit: "n < 16 \<Longrightarrow> hex_value (hex_digit n) = n"
  by (auto simp: hex_digit_def hex_value_def is_digit_def)

definition printable :: "char \<Rightarrow> bool" where
  "printable c \<longleftrightarrow> 32 \<le> (of_char c :: nat)"

lemma json_escape_byte_printable: "list_all printable (json_escape_byte c)"
proof (cases "json_plain c")
  case True
  then show ?thesis by (simp add: json_escape_byte_def printable_def json_plain_def)
next
  case False
  have hx: "printable (hex_digit n)" if "n < 16" for n
    using hex_digit_range [OF that] by (simp add: printable_def)
  have "(of_char c :: nat) div 16 < 16" using nat_of_char_less_256 [of c] by arith
  then have "list_all printable (json_u00 c)" by (simp add: json_u00_def hx) (simp add: printable_def)
  moreover have "map_of json_short c = Some d \<Longrightarrow> printable d" for d
    by (auto simp: json_short_def printable_def split: if_splits)
  ultimately show ?thesis
    using False by (auto simp: json_escape_byte_def printable_def split: option.splits)
qed

lemma not_ascii_printable: "\<not> is_ascii c \<Longrightarrow> printable c"
  by (simp add: is_ascii_def printable_def)

lemma utf8_width_high:
  "utf8_width bs = n \<Longrightarrow> list_all (\<lambda>b. 128 \<le> b) (take n bs)"
  by (cases bs rule: utf8_width.cases) (auto simp: Let_def split: if_splits list.splits)

lemma utf8_width_le: "utf8_width bs \<le> length bs"
  by (cases bs rule: utf8_width.cases) (auto simp: Let_def split: list.splits)

lemma utf8_take_printable:
  assumes "utf8_width (bytes_of (take 4 s)) = n"
  shows "list_all printable (take n s)"
proof -
  have "n \<le> 4" using utf8_width_le [of "bytes_of (take 4 s)"] assms by (simp add: bytes_of_def)
  then have "take n s = take n (take 4 s)" by (simp add: min_def)
  moreover have "list_all (\<lambda>b. 128 \<le> b) (bytes_of (take n (take 4 s)))"
    using utf8_width_high [OF assms] by (simp add: bytes_of_def take_map)
  ultimately show ?thesis
    by (auto simp: bytes_of_def list_all_iff printable_def)
qed

lemma json_escape_printable: "list_all printable (json_escape s)"
proof (induction s rule: json_escape.induct)
  case (2 c s)
  have lit: "printable (CHR 0x5C)" "list_all printable ''ufffd''" "list_all printable ''u2028''"
    "list_all printable ''u2029''"
    by (simp_all add: printable_def)
  show ?case
  proof (cases "is_ascii c")
    case True
    with 2 show ?thesis by (simp add: json_escape_byte_printable)
  next
    case False
    with 2 lit utf8_take_printable [of "c # s"] show ?thesis
      by (simp add: Let_def del: take_Suc_Cons)
  qed
qed simp

lemma json_read_escape_byte:
  assumes "is_ascii c"
  shows "json_read (json_escape_byte c @ t) = map_option (\<lambda>(v, r). (c # v, r)) (json_read t)"
proof (cases "json_plain c")
  case True
  then show ?thesis by (simp add: json_escape_byte_def json_plain_def)
next
  case False
  show ?thesis
  proof (cases "map_of json_short c")
    case (Some d)
    then have "map_of (map (\<lambda>(a, b). (b, a)) json_short) d = Some c" "d \<noteq> CHR ''u''"
      by (auto simp: json_short_def split: if_splits)
    with False Some show ?thesis
      by (simp add: json_escape_byte_def)
  next
    case None
    have c: "(of_char c :: nat) div 16 < 16" using nat_of_char_less_256 [of c] by arith
    have "hex_value (hex_digit ((of_char c :: nat) div 16)) * 16 + hex_value (hex_digit ((of_char c :: nat) mod 16)) = of_char c"
      by (simp add: hex_value_digit c)
    with False None show ?thesis
      by (simp add: json_escape_byte_def json_u00_def del: mult.commute)
  qed
qed

lemma json_read_escape:
  "list_all is_ascii s \<Longrightarrow> json_read (json_escape s @ CHR 0x22 # r) = Some (s, r)"
  by (induction s) (simp_all add: json_read_escape_byte)

end
