(* ===== verification/Audit_Log.thy ===== *)
theory Audit_Log
  imports Go_Json Config
begin

text \<open>
  \<open>internal/audit/logger.go\<close>: the audit logger.

  A \<open>lumberjack.Logger\<close> is third-party; the state keeps the heap of those that were made, and
  \<open>lj_trace\<close>, every call made on one of them, in order. What it does with a line (rotation,
  compression) is its own business: the logger only reports its errors on standard error. The
  argument \<open>mkdir\<close> is \<open>os.MkdirAll(filepath.Dir(file))\<close>, \<open>close_err\<close> what
  closing a writer returns. Writing through a nil writer panics.
\<close>

record Entry =
  Timestamp :: gotime
  e_UserID :: string
  e_UserEmail :: string
  e_Database :: string
  e_SQL :: string
  e_SQLType :: string
  e_Status :: string
  e_BlockReason :: string
  e_RowsAffected :: int
  e_DurationMs :: int
  e_SQLLength :: int

record lumberjack =
  lj_Filename :: string
  lj_MaxSize :: int
  lj_MaxBackups :: int
  lj_MaxAge :: int
  lj_Compress :: bool

datatype lj_call = LjWrite nat string | LjClose nat

record audit_log =
  writer :: "nat option"
  maxSQLLen :: int
  enabled :: bool
  lj_heap :: "nat \<rightharpoonup> lumberjack"
  next_lj :: nat
  lj_trace :: "lj_call list"

section \<open>Encoding an entry\<close>

definition json_key :: "string \<Rightarrow> string" where
  "json_key k = json_string k @ '':''"

definition entry_json :: "Entry \<Rightarrow> go_error + string" where
  "entry_json e =
     (case rfc3339 (Timestamp e) of
        Inl err \<Rightarrow> Inl err
      | Inr ts \<Rightarrow> Inr
          (''{'' @ json_key ''timestamp'' @ json_string ts
           @ '','' @ json_key ''user_id'' @ json_string (e_UserID e)
           @ '','' @ json_key ''user_email'' @ json_string (e_UserEmail e)
           @ '','' @ json_key ''database'' @ json_string (e_Database e)
           @ '','' @ json_key ''sql'' @ json_string (e_SQL e)
           @ '','' @ json_key ''sql_type'' @ json_string (e_SQLType e)
           @ '','' @ json_key ''status'' @ json_string (e_Status e)
           @ (if e_BlockReason e = '''' then ''''
              else '','' @ json_key ''block_reason'' @ json_string (e_BlockReason e))
           @ '','' @ json_key ''rows_affected'' @ show_int (e_RowsAffected e)
           @ '','' @ json_key ''duration_ms'' @ show_int (e_DurationMs e)
           @ '','' @ json_key ''sql_length'' @ show_int (e_SQLLength e) @ ''}''))"

section \<open>The logger\<close>

definition new_writer :: "AuditConfig \<Rightarrow> lumberjack" where
  "new_writer cfg =
     \<lparr>lj_Filename = LogFile cfg, lj_MaxSize = MaxSizeMB cfg, lj_MaxBackups = MaxBackups cfg,
      lj_MaxAge = MaxAgeDays cfg, lj_Compress = Compress cfg\<rparr>"

definition NewLogger :: "(string \<Rightarrow> go_error option) \<Rightarrow> AuditConfig \<Rightarrow> go_error + audit_log" where
  "NewLogger mkdir cfg =
     (if \<not> Enabled cfg then
        Inr \<lparr>writer = None, maxSQLLen = 0, enabled = False, lj_heap = (\<lambda>_. None), next_lj = 0,
             lj_trace = []\<rparr>
      else case mkdir (LogFile cfg) of
        Some e \<Rightarrow> Inl (''create log directory: '' @ e)
      | None \<Rightarrow>
          Inr \<lparr>writer = Some 0, maxSQLLen = MaxSQLLength cfg, enabled = True,
               lj_heap = [0 \<mapsto> new_writer cfg], next_lj = 1, lj_trace = []\<rparr>)"

definition truncated_mark :: string where "truncated_mark = ''...(truncated)''"

definition prepare_entry :: "gotime \<Rightarrow> int \<Rightarrow> Entry \<Rightarrow> Entry" where
  "prepare_entry now maxLen entry =
     (let e1 = (if Timestamp entry = zero_time then entry\<lparr>Timestamp := now\<rparr> else entry);
          e2 = e1\<lparr>e_SQLLength := int (length (e_SQL e1))\<rparr>
      in if maxLen > 0 \<and> int (length (e_SQL e2)) > maxLen
         then e2\<lparr>e_SQL := take (nat maxLen) (e_SQL e2) @ truncated_mark\<rparr> else e2)"

definition Log :: "gotime \<Rightarrow> Entry \<Rightarrow> audit_log \<Rightarrow> audit_log outcome" where
  "Log now entry l =
     (if \<not> enabled l then Ret l
      else case entry_json (prepare_entry now (maxSQLLen l) entry) of
        Inl _ \<Rightarrow> Ret l
      | Inr data \<Rightarrow>
          (case writer l of
             None \<Rightarrow> Panic ''invalid memory address or nil pointer dereference''
           | Some w \<Rightarrow> Ret (l\<lparr>lj_trace := lj_trace l @ [LjWrite w (data @ [CHR 0x0A])]\<rparr>)))"

definition Log_Close :: "(nat \<Rightarrow> go_error option) \<Rightarrow> audit_log \<Rightarrow> go_error option \<times> audit_log" where
  "Log_Close close_err l =
     (case writer l of
        None \<Rightarrow> (None, l)
      | Some w \<Rightarrow> (close_err w, l\<lparr>lj_trace := lj_trace l @ [LjClose w]\<rparr>))"

definition Log_UpdateConfig ::
  "(string \<Rightarrow> go_error option) \<Rightarrow> AuditConfig \<Rightarrow> audit_log \<Rightarrow> go_error option \<times> audit_log" where
  "Log_UpdateConfig mkdir cfg l =
     (if \<not> Enabled cfg then
        (None,
         case writer l of
           None \<Rightarrow> l\<lparr>enabled := False\<rparr>
         | Some w \<Rightarrow> l\<lparr>enabled := False, writer := None, lj_trace := lj_trace l @ [LjClose w]\<rparr>)
      else case mkdir (LogFile cfg) of
        Some e \<Rightarrow> (Some (''create log directory: '' @ e), l)
      | None \<Rightarrow>
          (None, l\<lparr>writer := Some (next_lj l), lj_heap := (lj_heap l)(next_lj l \<mapsto> new_writer cfg),
                   next_lj := Suc (next_lj l), maxSQLLen := MaxSQLLength cfg, enabled := True\<rparr>))"

definition TruncateSQL :: "audit_log \<Rightarrow> string \<Rightarrow> string" where
  "TruncateSQL l sql =
     (if maxSQLLen l \<le> 0 \<or> int (length sql) \<le> maxSQLLen l then sql else take (nat (maxSQLLen l)) sql)"

section \<open>The invariant\<close>

definition audit_inv :: "audit_log \<Rightarrow> bool" where
  "audit_inv l \<longleftrightarrow>
     (enabled l \<longleftrightarrow> writer l \<noteq> None) \<and>
     (\<forall>w. writer l = Some w \<longrightarrow> lj_heap l w \<noteq> None) \<and>
     (\<forall>w. next_lj l \<le> w \<longrightarrow> lj_heap l w = None)"

text \<open>An audit sink: a component the handlers write to without it ever failing them.\<close>

locale audit_sink =
  fixes log :: "gotime \<Rightarrow> Entry \<Rightarrow> 'l \<Rightarrow> 'l outcome"
    and inv :: "'l \<Rightarrow> bool"
    and lines :: "'l \<Rightarrow> 'x list"
  assumes log_returns: "inv l \<Longrightarrow> \<exists>l'. log now e l = Ret l' \<and> inv l' \<and> prefix (lines l) (lines l')"
begin

text \<open>A handler that writes several entries, one after the other.\<close>

lemma logs_return:
  "inv l \<Longrightarrow> \<exists>l'. foldl (\<lambda>r (now, e). case r of Panic m \<Rightarrow> Panic m | Ret k \<Rightarrow> log now e k) (Ret l) es = Ret l'
     \<and> inv l' \<and> prefix (lines l) (lines l')"
proof (induction es rule: rev_induct)
  case (snoc x es)
  then obtain k where k: "foldl (\<lambda>r (now, e). case r of Panic m \<Rightarrow> Panic m | Ret k \<Rightarrow> log now e k) (Ret l) es = Ret k"
      "inv k" "prefix (lines l) (lines k)"
    by blast
  obtain now e where x: "x = (now, e)" by (cases x)
  obtain k' where "log now e k = Ret k'" "inv k'" "prefix (lines k) (lines k')"
    using log_returns [OF k(2)] by blast
  with k show ?case by (auto simp: x intro: prefix_order.trans)
qed simp

end

lemma Log_cases:
  assumes "audit_inv l"
  obtains "Log now e l = Ret l"
  | w data where "enabled l" and "writer l = Some w"
      and "entry_json (prepare_entry now (maxSQLLen l) e) = Inr data"
      and "Log now e l = Ret (l\<lparr>lj_trace := lj_trace l @ [LjWrite w (data @ [CHR 0x0A])]\<rparr>)"
proof (cases "enabled l")
  case False
  with that(1) show ?thesis by (simp add: Log_def)
next
  case True
  then obtain w where w: "writer l = Some w" using assms by (auto simp: audit_inv_def)
  show ?thesis
  proof (cases "entry_json (prepare_entry now (maxSQLLen l) e)")
    case (Inl x)
    with True that(1) show ?thesis by (simp add: Log_def)
  next
    case (Inr data)
    with True w that(2) show ?thesis by (simp add: Log_def)
  qed
qed

interpretation sink: audit_sink Log audit_inv lj_trace
proof unfold_locales
  fix l now e
  assume inv: "audit_inv l"
  then show "\<exists>l'. Log now e l = Ret l' \<and> audit_inv l' \<and> prefix (lj_trace l) (lj_trace l')"
    by (cases rule: Log_cases [of l now e]) (use inv in \<open>auto simp: audit_inv_def\<close>)
qed

lemma audit_inv_NewLogger: "NewLogger mkdir cfg = Inr l \<Longrightarrow> audit_inv l"
  by (auto simp: NewLogger_def audit_inv_def split: if_splits option.splits)

lemma audit_inv_UpdateConfig: "audit_inv l \<Longrightarrow> audit_inv (snd (Log_UpdateConfig mkdir cfg l))"
  by (auto simp: Log_UpdateConfig_def audit_inv_def split: option.splits)

lemma audit_inv_Close: "audit_inv l \<Longrightarrow> audit_inv (snd (Log_Close close_err l))"
  by (auto simp: Log_Close_def audit_inv_def split: option.splits)

section \<open>Entries and lines\<close>

lemma prepare_entry_fields:
  "e_SQLLength (prepare_entry now m e) = int (length (e_SQL e))"
  "e_SQL (prepare_entry now m e) =
     (if m > 0 \<and> int (length (e_SQL e)) > m then take (nat m) (e_SQL e) @ truncated_mark else e_SQL e)"
  "Timestamp (prepare_entry now m e) = (if Timestamp e = zero_time then now else Timestamp e)"
  "e_UserID (prepare_entry now m e) = e_UserID e"
  "e_UserEmail (prepare_entry now m e) = e_UserEmail e"
  "e_Database (prepare_entry now m e) = e_Database e"
  "e_Status (prepare_entry now m e) = e_Status e"
  "e_SQLType (prepare_entry now m e) = e_SQLType e"
  "e_BlockReason (prepare_entry now m e) = e_BlockReason e"
  by (auto simp: prepare_entry_def Let_def)

lemma printable_newline: "\<not> printable (CHR 0x0A)"
  by (simp add: printable_def)

lemma json_string_printable: "list_all printable (json_string s)"
  using json_escape_printable [of s] by (simp add: json_string_def printable_def)

lemma show_nat_printable: "list_all printable (show_nat n)"
  using show_nat_digits [of n] by (auto simp: list_all_iff is_digit_def printable_def)

lemma show_int_printable: "list_all printable (show_int i)"
  using show_nat_printable by (auto simp: show_int_def printable_def)

lemma json_key_printable: "list_all printable (json_key k)"
  using json_string_printable [of k] by (simp add: json_key_def) (simp add: printable_def)

lemma entry_json_printable:
  assumes "entry_json e = Inr data"
  shows "list_all printable data"
proof -
  have lit: "printable (CHR ''{'')" "printable (CHR ''}'')" "printable (CHR '','')"
    by (simp_all add: printable_def)
  show ?thesis
    using assms by (auto simp: entry_json_def lit json_string_printable json_key_printable show_int_printable
        split: sum.splits)
qed

lemma entry_json_ok_iff: "(\<exists>data. entry_json e = Inr data) \<longleftrightarrow> (\<exists>ts. rfc3339 (Timestamp e) = Inr ts)"
  by (auto simp: entry_json_def split: sum.splits)

end
