(* ===== verification/Auth.thy ===== *)
theory Auth
  imports Go_Strings
begin

text \<open>
  \<open>internal/auth/jwt.go\<close>: the bearer token of a request, its validation, and the user that
  is carried in the request context.

  The JWT library is third-party: the record \<open>jwt_lib\<close> holds the three functions the file
  calls. \<open>jwt_parse\<close> gets the key function, as \<open>ParseWithClaims\<close> does, and the
  current time. What is relied on of the library is stated as \<open>jwt_keyed\<close>: a token it accepts
  is one whose key function returned a key for the token's method. Nothing is assumed of the claims a
  token is decoded to. \<open>os.Getenv\<close> is the argument \<open>getenv\<close>.
\<close>

section \<open>Claims and tokens\<close>

record Claims =
  UserID :: string
  UserEmail :: string
  IssuedAt :: "gotime option"
  ExpiresAt :: "gotime option"

datatype signing_method = SigningHMAC string | SigningOther string

abbreviation HS256 :: signing_method where "HS256 \<equiv> SigningHMAC ''HS256''"

fun method_alg :: "signing_method \<Rightarrow> string" where
  "method_alg (SigningHMAC a) = a"
| "method_alg (SigningOther a) = a"

text \<open>\<open>tok_claims\<close> is \<open>None\<close> when the dynamic type is not \<open>*Claims\<close>.\<close>

record jwt_token =
  tok_method :: signing_method
  tok_claims :: "Claims option"
  tok_valid :: bool

datatype jwt_error = JwtTokenExpired | JwtOther string

type_synonym key_func = "signing_method \<Rightarrow> go_error + string"

record jwt_lib =
  jwt_parse :: "string \<Rightarrow> key_func \<Rightarrow> gotime \<Rightarrow> jwt_error + jwt_token"
  jwt_sign :: "signing_method \<Rightarrow> Claims \<Rightarrow> string \<Rightarrow> go_error + string"
  jwt_date :: "gotime \<Rightarrow> gotime"

section \<open>The validator\<close>

datatype auth_error =
    ErrMissingToken
  | ErrInvalidToken
  | ErrTokenExpired
  | ErrSecretTooShort nat
  | ErrSecretNotConfigured

record Validator =
  v_secret :: string

definition MinJWTSecretLength :: nat where "MinJWTSecretLength = 32"

definition NewValidator :: "string \<Rightarrow> Validator" where
  "NewValidator secret = \<lparr>v_secret = secret\<rparr>"

definition EnvJWTSecret :: string where "EnvJWTSecret = ''JWT_SECRET''"

definition GetJWTSecret :: "(string \<Rightarrow> string) \<Rightarrow> string \<Rightarrow> auth_error + string \<times> string" where
  "GetJWTSecret getenv configSecret =
     (let secret = getenv EnvJWTSecret in
      if secret \<noteq> '''' then Inr (secret, ''env'')
      else if configSecret \<noteq> '''' then Inr (configSecret, ''config'')
      else Inl ErrSecretNotConfigured)"

definition ValidateJWTSecret :: "string \<Rightarrow> auth_error option" where
  "ValidateJWTSecret secret =
     (if length secret < MinJWTSecretLength then Some (ErrSecretTooShort (length secret)) else None)"

definition NewValidatorFromEnv :: "(string \<Rightarrow> string) \<Rightarrow> string \<Rightarrow> auth_error + Validator" where
  "NewValidatorFromEnv getenv configSecret =
     (case GetJWTSecret getenv configSecret of
        Inl e \<Rightarrow> Inl e
      | Inr (secret, source) \<Rightarrow>
          (case ValidateJWTSecret secret of
             Some e \<Rightarrow> Inl e
           | None \<Rightarrow> Inr (NewValidator secret)))"

definition validator_key :: "Validator \<Rightarrow> key_func" where
  "validator_key v m =
     (case m of
        SigningHMAC _ \<Rightarrow> Inr (v_secret v)
      | SigningOther alg \<Rightarrow> Inl (''unexpected signing method: '' @ alg))"

definition Validate :: "jwt_lib \<Rightarrow> gotime \<Rightarrow> Validator \<Rightarrow> string \<Rightarrow> auth_error + Claims" where
  "Validate lib now v tokenString =
     (if tokenString = '''' then Inl ErrMissingToken
      else case jwt_parse lib tokenString (validator_key v) now of
        Inl JwtTokenExpired \<Rightarrow> Inl ErrTokenExpired
      | Inl (JwtOther _) \<Rightarrow> Inl ErrInvalidToken
      | Inr token \<Rightarrow>
          (case tok_claims token of
             None \<Rightarrow> Inl ErrInvalidToken
           | Some claims \<Rightarrow> if \<not> tok_valid token then Inl ErrInvalidToken else Inr claims))"

definition GenerateToken ::
  "jwt_lib \<Rightarrow> gotime \<Rightarrow> Validator \<Rightarrow> string \<Rightarrow> string \<Rightarrow> int \<Rightarrow> go_error + string" where
  "GenerateToken lib now v userID email expiration =
     jwt_sign lib HS256
       \<lparr>UserID = userID, UserEmail = email, IssuedAt = Some (jwt_date lib now),
        ExpiresAt = Some (jwt_date lib (time_add now expiration))\<rparr> (v_secret v)"

section \<open>Headers and contexts\<close>

definition ExtractToken :: "string \<Rightarrow> string" where
  "ExtractToken authHeader =
     (if authHeader = '''' then ''''
      else let parts = split_on (CHR '' '') authHeader in
        if length parts \<noteq> 2 \<or> \<not> equal_fold (parts ! 0) ''bearer'' then '''' else parts ! 1)"

text \<open>A key of another type than \<open>contextKey\<close> is never equal to one of these.\<close>

datatype ctx_key = ContextKey string | ForeignKey string

datatype ctx_value = CtxString string | CtxForeign

datatype ctx = Background | WithValue ctx ctx_key ctx_value

fun ctx_Value :: "ctx \<Rightarrow> ctx_key \<Rightarrow> ctx_value option" where
  "ctx_Value Background k = None"
| "ctx_Value (WithValue c k' v) k = (if k' = k then Some v else ctx_Value c k)"

abbreviation UserIDKey :: ctx_key where "UserIDKey \<equiv> ContextKey ''userID''"
abbreviation UserEmailKey :: ctx_key where "UserEmailKey \<equiv> ContextKey ''userEmail''"

definition ContextWithUser :: "ctx \<Rightarrow> string \<Rightarrow> string \<Rightarrow> ctx" where
  "ContextWithUser c userID userEmail =
     WithValue (WithValue c UserIDKey (CtxString userID)) UserEmailKey (CtxString userEmail)"

definition GetUserID :: "ctx \<Rightarrow> string" where
  "GetUserID c = (case ctx_Value c UserIDKey of Some (CtxString s) \<Rightarrow> s | _ \<Rightarrow> '''')"

definition GetUserEmail :: "ctx \<Rightarrow> string" where
  "GetUserEmail c = (case ctx_Value c UserEmailKey of Some (CtxString s) \<Rightarrow> s | _ \<Rightarrow> '''')"

section \<open>What is relied on of the library\<close>

definition jwt_keyed :: "jwt_lib \<Rightarrow> bool" where
  "jwt_keyed lib \<longleftrightarrow>
     (\<forall>s kf now tok. jwt_parse lib s kf now = Inr tok \<longrightarrow> (\<exists>k. kf (tok_method tok) = Inr k))"

definition expired :: "Claims \<Rightarrow> gotime \<Rightarrow> bool" where
  "expired c now \<longleftrightarrow> (case ExpiresAt c of None \<Rightarrow> False | Some t \<Rightarrow> t \<le> now)"

text \<open>An instance: a library that signs one token.\<close>

definition one_token_lib :: "Claims \<Rightarrow> string \<Rightarrow> jwt_lib" where
  "one_token_lib c0 k0 =
     \<lparr>jwt_parse = (\<lambda>s kf now.
        if s \<noteq> ''t0'' then Inl (JwtOther ''malformed'')
        else case kf HS256 of
          Inl e \<Rightarrow> Inl (JwtOther e)
        | Inr k \<Rightarrow>
            if k \<noteq> k0 then Inl (JwtOther ''signature is invalid'')
            else if expired c0 now then Inl JwtTokenExpired
            else Inr \<lparr>tok_method = HS256, tok_claims = Some c0, tok_valid = True\<rparr>),
      jwt_sign = (\<lambda>m c k. if m = HS256 \<and> c = c0 \<and> k = k0 then Inr ''t0'' else Inl ''key is of invalid type''),
      jwt_date = (\<lambda>t. t)\<rparr>"

lemma jwt_keyed_one_token: "jwt_keyed (one_token_lib c0 k0)"
  by (auto simp: jwt_keyed_def one_token_lib_def split: if_splits sum.splits)

section \<open>Lemmas\<close>

lemma split_on_two:
  "split_on sep s = [a, b] \<longleftrightarrow> s = a @ sep # b \<and> sep \<notin> set a \<and> sep \<notin> set b"
proof
  assume l: "split_on sep s = [a, b]"
  have join: "s = concat (map (\<lambda>w. w @ [sep]) (butlast (split_on sep s))) @ last (split_on sep s)" for s
    by (induction s) (auto split: list.splits)
  have free: "w \<in> set (split_on sep s) \<Longrightarrow> sep \<notin> set w" for w s
    by (induction s arbitrary: w) (auto split: list.splits if_splits)
  have "sep \<notin> set a" "sep \<notin> set b" using free [of a s] free [of b s] by (simp_all add: l)
  moreover have "s = a @ sep # b" using join [of s] by (simp add: l)
  ultimately show "s = a @ sep # b \<and> sep \<notin> set a \<and> sep \<notin> set b" by blast
next
  assume "s = a @ sep # b \<and> sep \<notin> set a \<and> sep \<notin> set b"
  then show "split_on sep s = [a, b]" by (simp add: split_on_append split_on_no_sep)
qed

lemma length_two_conv: "length xs = 2 \<longleftrightarrow> (\<exists>a b. xs = [a, b])"
  by (auto simp: numeral_2_eq_2 length_Suc_conv)

lemma ExtractToken_iff:
  assumes "t \<noteq> ''''"
  shows "ExtractToken h = t \<longleftrightarrow>
     (\<exists>scheme. h = scheme @ '' '' @ t \<and> equal_fold scheme ''bearer'' \<and>
        CHR '' '' \<notin> set scheme \<and> CHR '' '' \<notin> set t)"
proof
  assume e: "ExtractToken h = t"
  then have "length (split_on (CHR '' '') h) = 2" "equal_fold (split_on (CHR '' '') h ! 0) ''bearer''"
    "split_on (CHR '' '') h ! 1 = t"
    using assms by (auto simp: ExtractToken_def Let_def split: if_splits)
  then show "\<exists>scheme. h = scheme @ '' '' @ t \<and> equal_fold scheme ''bearer'' \<and>
        CHR '' '' \<notin> set scheme \<and> CHR '' '' \<notin> set t"
    by (auto simp: length_two_conv split_on_two split_on_append split_on_no_sep)
next
  assume "\<exists>scheme. h = scheme @ '' '' @ t \<and> equal_fold scheme ''bearer'' \<and>
        CHR '' '' \<notin> set scheme \<and> CHR '' '' \<notin> set t"
  then obtain scheme where "split_on (CHR '' '') h = [scheme, t]" "equal_fold scheme ''bearer''" "h \<noteq> ''''"
    by (auto simp: split_on_two)
  then show "ExtractToken h = t" by (simp add: ExtractToken_def)
qed

text \<open>A header that carries a bearer token.\<close>

definition bearer_header :: "string \<Rightarrow> string \<Rightarrow> bool" where
  "bearer_header h s \<longleftrightarrow>
     (\<exists>scheme. h = scheme @ '' '' @ s \<and> equal_fold scheme ''bearer'' \<and> CHR '' '' \<notin> set scheme) \<and>
     CHR '' '' \<notin> set s \<and> s \<noteq> ''''"

lemma ExtractToken_bearer: "bearer_header h s \<longleftrightarrow> ExtractToken h = s \<and> s \<noteq> ''''"
  using ExtractToken_iff [of s h] by (auto simp: bearer_header_def)

lemma GetUserID_ContextWithUser [simp]: "GetUserID (ContextWithUser c u e) = u"
  by (simp add: GetUserID_def ContextWithUser_def)

lemma GetUserEmail_ContextWithUser [simp]: "GetUserEmail (ContextWithUser c u e) = e"
  by (simp add: GetUserEmail_def ContextWithUser_def)

lemma Validate_ok:
  assumes "Validate lib now v s = Inr c"
  shows "s \<noteq> ''''"
    and "\<exists>tok. jwt_parse lib s (validator_key v) now = Inr tok \<and> tok_claims tok = Some c \<and> tok_valid tok"
  using assms
  by (auto simp: Validate_def split: if_splits sum.splits jwt_error.splits option.splits)

lemma NewValidatorFromEnv_eq:
  "NewValidatorFromEnv getenv cs =
     (let secret = (if getenv ''JWT_SECRET'' \<noteq> '''' then getenv ''JWT_SECRET'' else cs) in
      if secret = '''' then Inl ErrSecretNotConfigured
      else if length secret < 32 then Inl (ErrSecretTooShort (length secret))
      else Inr \<lparr>v_secret = secret\<rparr>)"
  by (simp add: NewValidatorFromEnv_def GetJWTSecret_def ValidateJWTSecret_def NewValidator_def
      MinJWTSecretLength_def EnvJWTSecret_def Let_def)

lemma NewValidatorFromEnv_ok:
  assumes "NewValidatorFromEnv getenv cs = Inr v"
  shows "32 \<le> length (v_secret v)"
    and "v_secret v = (if getenv ''JWT_SECRET'' \<noteq> '''' then getenv ''JWT_SECRET'' else cs)"
  using assms
  by (auto simp: NewValidatorFromEnv_def GetJWTSecret_def ValidateJWTSecret_def NewValidator_def
      MinJWTSecretLength_def EnvJWTSecret_def Let_def split: if_splits)

end
