(* ===== verification/Watcher.thy ===== *)
theory Watcher
  imports Config "HOL-Library.Word"
begin

text \<open>
  \<open>internal/config/watcher.go\<close>: the reloadable configuration and the watcher that reloads it.

  A file system is read at several moments of one operation and may change in between, so each
  operation takes one \<open>snapshot\<close> per moment. \<open>conf_env\<close> holds what comes from outside:
  the environment, the YAML decoder (third-party), \<open>filepath.Abs\<close> of the working directory,
  the order of a range over the clusters, and the registration of a directory with fsnotify.

  The callbacks are functions on the state \<open>'s\<close> of the application. The two goroutines of
  \<open>Start\<close> and the SIGHUP handler act one event at a time: \<open>watch_step\<close> is one event
  and \<open>watch_run\<close> a sequence of them, up to \<open>Stop\<close>.
\<close>

record snapshot =
  snap_read :: "string \<Rightarrow> go_error + string"
  snap_mtime :: "string \<Rightarrow> gotime option"

record conf_env =
  env_getenv :: "string \<Rightarrow> string"
  env_yaml_config :: "string \<Rightarrow> go_error + Config"
  env_yaml_security :: "string \<Rightarrow> go_error + SecurityConfig"
  env_order :: "ClustersConfig \<Rightarrow> string list"
  env_abs :: "string \<Rightarrow> go_error + string"
  env_dir :: "string \<Rightarrow> string"
  env_watch :: "string \<Rightarrow> go_error option"

definition LoadAt :: "conf_env \<Rightarrow> snapshot \<Rightarrow> string \<Rightarrow> go_error + Config" where
  "LoadAt env f path = Load (snap_read f) (env_getenv env) (env_yaml_config env) (env_order env) path"

definition LoadSecurityAt :: "conf_env \<Rightarrow> snapshot \<Rightarrow> string \<Rightarrow> go_error + SecurityConfig" where
  "LoadSecurityAt env f path = LoadSecurity (snap_read f) (env_yaml_security env) path"

section \<open>The reloadable configuration\<close>

record ReloadableConfig =
  rc_config :: Config
  rc_security :: "SecurityConfig option"

definition NewReloadableConfig ::
  "conf_env \<Rightarrow> snapshot \<Rightarrow> snapshot \<Rightarrow> string \<Rightarrow> go_error + ReloadableConfig" where
  "NewReloadableConfig env f1 f2 path =
     (case LoadAt env f1 path of
        Inl e \<Rightarrow> Inl e
      | Inr cfg \<Rightarrow>
          if ConfigFile (cfg_Security cfg) \<noteq> '''' then
            (case LoadSecurityAt env f2 (ConfigFile (cfg_Security cfg)) of
               Inl e \<Rightarrow> Inl e
             | Inr sec \<Rightarrow> Inr \<lparr>rc_config = cfg, rc_security = Some sec\<rparr>)
          else Inr \<lparr>rc_config = cfg, rc_security = None\<rparr>)"

definition rc_Get :: "ReloadableConfig \<Rightarrow> Config" where
  "rc_Get rc = rc_config rc"

definition GetSecurity :: "ReloadableConfig \<Rightarrow> SecurityRules option" where
  "GetSecurity rc = (case rc_security rc of None \<Rightarrow> None | Some sec \<Rightarrow> Some (Security sec))"

definition rc_Update :: "Config \<Rightarrow> SecurityConfig option \<Rightarrow> ReloadableConfig \<Rightarrow> ReloadableConfig" where
  "rc_Update cfg security rc = rc\<lparr>rc_config := cfg, rc_security := security\<rparr>"

section \<open>The watcher\<close>

type_synonym 's callback = "Config \<Rightarrow> SecurityConfig option \<Rightarrow> 's \<Rightarrow> 's"

record 's watcher =
  configPath :: string
  securityPath :: string
  callbacks :: "'s callback list"
  pollInterval :: int
  lastConfigMod :: gotime
  lastSecurityMod :: gotime

definition WithPollInterval :: "int \<Rightarrow> 's watcher \<Rightarrow> 's watcher" where
  "WithPollInterval d w = w\<lparr>pollInterval := d\<rparr>"

definition stat_time :: "snapshot \<Rightarrow> string \<Rightarrow> gotime \<Rightarrow> gotime" where
  "stat_time f path old = (case snap_mtime f path of None \<Rightarrow> old | Some t \<Rightarrow> t)"

definition NewWatcher ::
  "conf_env \<Rightarrow> go_error option \<Rightarrow> snapshot \<Rightarrow> string \<Rightarrow> ('s watcher \<Rightarrow> 's watcher) list \<Rightarrow>
     go_error + 's watcher" where
  "NewWatcher env fsnotify_err f path opts =
     (case fsnotify_err of
        Some e \<Rightarrow> Inl e
      | None \<Rightarrow>
          (case env_abs env path of
             Inl e \<Rightarrow> Inl e
           | Inr absPath \<Rightarrow>
               let w = \<lparr>configPath = absPath, securityPath = '''', callbacks = [], pollInterval = 0,
                        lastConfigMod = zero_time, lastSecurityMod = zero_time\<rparr>;
                   w1 = fold (\<lambda>opt. opt) opts w;
                   w2 = w1\<lparr>lastConfigMod := stat_time f absPath (lastConfigMod w1)\<rparr>
               in case env_watch env (env_dir env absPath) of
                    Some e \<Rightarrow> Inl e
                  | None \<Rightarrow> Inr w2))"

definition SetSecurityPath ::
  "conf_env \<Rightarrow> snapshot \<Rightarrow> string \<Rightarrow> 's watcher \<Rightarrow> go_error option \<times> 's watcher" where
  "SetSecurityPath env f path w =
     (case env_abs env path of
        Inl e \<Rightarrow> (Some e, w)
      | Inr absPath \<Rightarrow>
          (env_watch env (env_dir env absPath),
           w\<lparr>securityPath := absPath, lastSecurityMod := stat_time f absPath (lastSecurityMod w)\<rparr>))"

definition OnChange :: "'s callback \<Rightarrow> 's watcher \<Rightarrow> 's watcher" where
  "OnChange cb w = w\<lparr>callbacks := callbacks w @ [cb]\<rparr>"

text \<open>
  \<open>f1\<close> is the file system when the configuration is read, \<open>f2\<close> when the security file
  is, \<open>f3\<close> when the modification times are taken.
\<close>

definition load_both :: "conf_env \<Rightarrow> snapshot \<Rightarrow> snapshot \<Rightarrow> 's watcher \<Rightarrow> (Config \<times> SecurityConfig option) option" where
  "load_both env f1 f2 w =
     (case LoadAt env f1 (configPath w) of
        Inl e \<Rightarrow> None
      | Inr cfg \<Rightarrow>
          if securityPath w \<noteq> '''' then
            (case LoadSecurityAt env f2 (securityPath w) of
               Inl e \<Rightarrow> None
             | Inr sec \<Rightarrow> Some (cfg, Some sec))
          else Some (cfg, None))"

definition record_mtimes :: "snapshot \<Rightarrow> 's watcher \<Rightarrow> 's watcher" where
  "record_mtimes f w =
     (let w1 = w\<lparr>lastConfigMod := stat_time f (configPath w) (lastConfigMod w)\<rparr>
      in if securityPath w1 \<noteq> ''''
         then w1\<lparr>lastSecurityMod := stat_time f (securityPath w1) (lastSecurityMod w1)\<rparr> else w1)"

definition reload ::
  "conf_env \<Rightarrow> snapshot \<Rightarrow> snapshot \<Rightarrow> snapshot \<Rightarrow> 's watcher \<times> 's \<Rightarrow> 's watcher \<times> 's" where
  "reload env f1 f2 f3 ws =
     (case ws of (w, s) \<Rightarrow>
        (case load_both env f1 f2 w of
           None \<Rightarrow> (w, s)
         | Some (cfg, sec) \<Rightarrow> (record_mtimes f3 w, fold (\<lambda>cb. cb cfg sec) (callbacks w) s)))"

definition handleEvent ::
  "conf_env \<Rightarrow> snapshot \<Rightarrow> snapshot \<Rightarrow> snapshot \<Rightarrow> string \<Rightarrow> 's watcher \<times> 's \<Rightarrow> 's watcher \<times> 's" where
  "handleEvent env f1 f2 f3 filename ws =
     (case env_abs env filename of
        Inl e \<Rightarrow> ws
      | Inr absFilename \<Rightarrow>
          if absFilename \<noteq> configPath (fst ws) \<and> absFilename \<noteq> securityPath (fst ws) then ws
          else reload env f1 f2 f3 ws)"

definition newer :: "snapshot \<Rightarrow> string \<Rightarrow> gotime \<Rightarrow> bool" where
  "newer f path seen = (case snap_mtime f path of None \<Rightarrow> False | Some t \<Rightarrow> seen < t)"

definition mtime_changed :: "snapshot \<Rightarrow> 's watcher \<Rightarrow> bool" where
  "mtime_changed f w \<longleftrightarrow>
     newer f (configPath w) (lastConfigMod w) \<or>
     (securityPath w \<noteq> '''' \<and> newer f (securityPath w) (lastSecurityMod w))"

definition checkMtime ::
  "conf_env \<Rightarrow> snapshot \<Rightarrow> snapshot \<Rightarrow> snapshot \<Rightarrow> snapshot \<Rightarrow> 's watcher \<times> 's \<Rightarrow> 's watcher \<times> 's" where
  "checkMtime env f0 f1 f2 f3 ws =
     (if mtime_changed f0 (fst ws) then reload env f1 f2 f3 ws else ws)"

section \<open>The loops\<close>

text \<open>\<open>fsnotify.Op\<close> is a set of bits; Create is bit 0 and Write bit 1.\<close>

datatype watch_event =
    FileEvent "32 word" string
  | ErrorEvent go_error
  | Tick
  | Sighup

definition watch_step ::
  "conf_env \<Rightarrow> snapshot \<times> snapshot \<times> snapshot \<times> snapshot \<Rightarrow> watch_event \<Rightarrow> 's watcher \<times> 's \<Rightarrow> 's watcher \<times> 's" where
  "watch_step env fs ev ws =
     (case fs of (f0, f1, f2, f3) \<Rightarrow>
        (case ev of
           FileEvent op name \<Rightarrow>
             if and op 2 = 2 \<or> and op 1 = 1 then handleEvent env f1 f2 f3 name ws else ws
         | ErrorEvent e \<Rightarrow> ws
         | Tick \<Rightarrow> if pollInterval (fst ws) > 0 then checkMtime env f0 f1 f2 f3 ws else ws
         | Sighup \<Rightarrow> reload env f1 f2 f3 ws))"

text \<open>\<open>None\<close> in the sequence is \<open>Stop\<close>: no event after it is handled.\<close>

fun watch_run ::
  "conf_env \<Rightarrow> ((snapshot \<times> snapshot \<times> snapshot \<times> snapshot) \<times> watch_event) option list \<Rightarrow>
     's watcher \<times> 's \<Rightarrow> 's watcher \<times> 's" where
  "watch_run env [] ws = ws"
| "watch_run env (None # es) ws = ws"
| "watch_run env (Some (fs, ev) # es) ws = watch_run env es (watch_step env fs ev ws)"

section \<open>Lemmas\<close>

text \<open>The polling goroutine on its own: a check per tick, until the channel \<open>done\<close> is closed.\<close>

fun pollLoop ::
  "conf_env \<Rightarrow> (snapshot \<times> snapshot \<times> snapshot \<times> snapshot) option list \<Rightarrow> 's watcher \<times> 's \<Rightarrow> 's watcher \<times> 's" where
  "pollLoop env [] ws = ws"
| "pollLoop env (None # ticks) ws = ws"
| "pollLoop env (Some (f0, f1, f2, f3) # ticks) ws = pollLoop env ticks (checkMtime env f0 f1 f2 f3 ws)"

lemma record_mtimes_frame [state_frame]:
  "configPath (record_mtimes f w) = configPath w" "securityPath (record_mtimes f w) = securityPath w"
  "callbacks (record_mtimes f w) = callbacks w" "pollInterval (record_mtimes f w) = pollInterval w"
  by (simp_all add: record_mtimes_def Let_def)

lemma newer_stat_time: "\<not> newer f p (stat_time f p t)"
  by (simp add: newer_def stat_time_def split: option.splits)

lemma mtime_recorded: "\<not> mtime_changed f (record_mtimes f w)"
  by (simp add: mtime_changed_def record_mtimes_def Let_def newer_stat_time)

lemma reload_None: "load_both env f1 f2 w = None \<Longrightarrow> reload env f1 f2 f3 (w, s) = (w, s)"
  by (simp add: reload_def)

lemma reload_Some:
  "load_both env f1 f2 w = Some (cfg, sec) \<Longrightarrow>
     reload env f1 f2 f3 (w, s) = (record_mtimes f3 w, fold (\<lambda>cb. cb cfg sec) (callbacks w) s)"
  by (simp add: reload_def)

text \<open>
  One reload per event at most: what an event does to the application is nothing, or every callback
  once, in order, on one pair that was loaded.
\<close>

lemma watch_step_cases:
  obtains "watch_step env (f0, f1, f2, f3) ev (w, s) = (w, s)"
  | cfg sec where "load_both env f1 f2 w = Some (cfg, sec)"
      and "watch_step env (f0, f1, f2, f3) ev (w, s) =
        (record_mtimes f3 w, fold (\<lambda>cb. cb cfg sec) (callbacks w) s)"
proof -
  have "watch_step env (f0, f1, f2, f3) ev (w, s) = (w, s) \<or>
      watch_step env (f0, f1, f2, f3) ev (w, s) = reload env f1 f2 f3 (w, s)"
    by (auto simp: watch_step_def handleEvent_def checkMtime_def split: watch_event.splits sum.splits)
  then show thesis
    using that by (cases "load_both env f1 f2 w") (auto simp: reload_None reload_Some)
qed

text \<open>What no event changes: the paths, the callbacks and the poll interval.\<close>

definition same_watch :: "'s watcher \<Rightarrow> 's watcher \<Rightarrow> bool" where
  "same_watch w w' \<longleftrightarrow>
     configPath w' = configPath w \<and> securityPath w' = securityPath w \<and>
     callbacks w' = callbacks w \<and> pollInterval w' = pollInterval w"

lemma same_watch_step: "same_watch w (fst (watch_step env fs ev (w, s)))"
proof -
  obtain f0 f1 f2 f3 where fs: "fs = (f0, f1, f2, f3)" by (cases fs)
  show ?thesis
    unfolding fs
    by (cases rule: watch_step_cases [where env = env and ev = ev and w = w and s = s
          and ?f0.0 = f0 and ?f1.0 = f1 and ?f2.0 = f2 and ?f3.0 = f3])
      (simp_all add: same_watch_def state_frame)
qed

lemma same_watch_run: "same_watch w (fst (watch_run env es (w, s)))"
proof (induction env es "(w, s)" arbitrary: w s rule: watch_run.induct)
  case (3 env fs ev es w s)
  obtain w1 s1 where s: "watch_step env fs ev (w, s) = (w1, s1)" by fastforce
  with 3 [of w1 s1] same_watch_step [of w env fs ev s] show ?case by (simp add: same_watch_def)
qed (simp_all add: same_watch_def)

lemma pollLoop_watch_run:
  "0 < pollInterval (fst ws) \<Longrightarrow>
     pollLoop env ticks ws = watch_run env (map (map_option (\<lambda>fs. (fs, Tick))) ticks) ws"
proof (induction env ticks ws rule: pollLoop.induct)
  case (3 env f0 f1 f2 f3 ticks ws)
  obtain w s where ws: "ws = (w, s)" by (cases ws)
  have "pollInterval (fst (checkMtime env f0 f1 f2 f3 ws)) = pollInterval w"
    by (auto simp: ws checkMtime_def reload_def record_mtimes_def Let_def split: option.splits)
  then show ?case using 3 by (simp add: ws watch_step_def)
qed simp_all

end
