(* ===== verification/Tools.thy ===== *)
theory Tools
  imports Router Rewriter Validation Audit_Log Auth Watcher
begin

text \<open>
  \<open>internal/mcp/tools.go\<close>: the handlers of the seven MCP tools.

  A handler's state is the router with the checker, the rewriter, the audit logger and the reloadable
  configuration; the source's \<open>Handler\<close> points to these and shares them with the server,
  which extends the same record. The arguments are the \<open>driver\<close> of \<open>Sql_DB\<close>, the
  SQL parser \<open>tidb\<close> and a \<open>clock\<close> with the three times an execution reads: at its
  start, when it computes the duration, and inside \<open>Log\<close>.

  \<open>executeQuery\<close> and \<open>executeExplain\<close> use the parsed statement without checking it
  for nil, so their result is an \<open>outcome\<close>. The MCP SDK is third-party: a handler's answer is
  a \<open>tool_response\<close>, and \<open>call_tool\<close> dispatches on the registered tools.
\<close>

record handler = router +
  h_checker :: Checker
  h_rewriter :: Rewriter
  h_audit :: audit_log
  h_config :: ReloadableConfig

record clock =
  clk_start :: gotime
  clk_done :: gotime
  clk_log :: gotime

definition NewHandler :: "router \<Rightarrow> Checker \<Rightarrow> Rewriter \<Rightarrow> audit_log \<Rightarrow> ReloadableConfig \<Rightarrow> handler" where
  "NewHandler r checker rewriter auditLogger cfg =
     router.extend r \<lparr>h_checker = checker, h_rewriter = rewriter, h_audit = auditLogger, h_config = cfg\<rparr>"

definition UpdateSecurityRules :: "SecurityRules option \<Rightarrow> 'a handler_scheme \<Rightarrow> 'a handler_scheme" where
  "UpdateSecurityRules rules h =
     h\<lparr>h_checker := Checker_UpdateRules (h_checker h) rules,
       h_rewriter := Rewriter_UpdateRules (h_rewriter h) rules\<rparr>"

section \<open>Results\<close>

record QueryResult =
  qr_Columns :: "string list"
  qr_Rows :: "cell list list"
  qr_RowsAffected :: int
  qr_LastInsertID :: int
  qr_Warnings :: "string list"

record TableInfo = ti_Name :: string  ti_Comment :: string

record ListTablesResult = lt_Tables :: "TableInfo list"  lt_Truncated :: bool

record ColumnInfo =
  ci_Field :: string
  ci_Type :: string
  ci_Null :: string
  ci_Key :: string
  ci_Default :: string
  ci_Extra :: string
  ci_Comment :: string

record ExplainResult = er_Columns :: "string list"  er_Rows :: "cell list list"

record TableMatch = tm_Database :: string  tm_Table :: string

record SearchTablesResult = st_Matches :: "TableMatch list"  st_Truncated :: bool

definition empty_result :: QueryResult where
  "empty_result = \<lparr>qr_Columns = [], qr_Rows = [], qr_RowsAffected = 0, qr_LastInsertID = 0, qr_Warnings = []\<rparr>"

section \<open>Timeouts, limits, audit\<close>

definition defaultQueryTimeout :: int where "defaultQueryTimeout = 30 * second"
definition defaultMaxRows :: int where "defaultMaxRows = 10000"
definition defaultMaxTables :: nat where "defaultMaxTables = 1000"

definition getQueryTimeout :: "'a handler_scheme \<Rightarrow> int" where
  "getQueryTimeout h =
     (case GetSecurity (h_config h) of
        Some rules \<Rightarrow> if QueryTimeout rules > 0 then QueryTimeout rules else defaultQueryTimeout
      | None \<Rightarrow> defaultQueryTimeout)"

definition getMaxRows :: "'a handler_scheme \<Rightarrow> int" where
  "getMaxRows h =
     (case GetSecurity (h_config h) of
        Some rules \<Rightarrow> if MaxRows rules > 0 then MaxRows rules else defaultMaxRows
      | None \<Rightarrow> defaultMaxRows)"

text \<open>\<open>Duration.Milliseconds\<close> truncates towards zero.\<close>

definition millis :: "int \<Rightarrow> int" where
  "millis d = (if d < 0 then - (- d div 1000000) else d div 1000000)"

definition query_entry ::
  "clock \<Rightarrow> ctx \<Rightarrow> string \<Rightarrow> string \<Rightarrow> string \<Rightarrow> string \<Rightarrow> string \<Rightarrow> int \<Rightarrow> Entry" where
  "query_entry clk c db sqlStr sqlType status reason rowsAffected =
     \<lparr>Timestamp = zero_time, e_UserID = GetUserID c, e_UserEmail = GetUserEmail c, e_Database = db,
      e_SQL = sqlStr, e_SQLType = sqlType, e_Status = status, e_BlockReason = reason,
      e_RowsAffected = rowsAffected, e_DurationMs = millis (nanos (clk_done clk) - nanos (clk_start clk)),
      e_SQLLength = 0\<rparr>"

definition audit :: "clock \<Rightarrow> Entry \<Rightarrow> 'r \<Rightarrow> 'a handler_scheme \<Rightarrow> ('r \<times> 'a handler_scheme) outcome" where
  "audit clk entry r h =
     (case Log (clk_log clk) entry (h_audit h) of
        Panic m \<Rightarrow> Panic m
      | Ret l \<Rightarrow> Ret (r, h\<lparr>h_audit := l\<rparr>))"

section \<open>Scanning rows\<close>

definition to_text :: "cell \<Rightarrow> cell" where
  "to_text c = (case c of CBytes s \<Rightarrow> CString s | _ \<Rightarrow> c)"

text \<open>The loop of the query tool; \<open>rows.Next\<close> is called before the count is tested.\<close>

fun fetch_rows :: "int \<Rightarrow> (go_error + cell list) list \<Rightarrow> cell list list \<Rightarrow> go_error + cell list list" where
  "fetch_rows maxRows [] rows = Inr rows"
| "fetch_rows maxRows (item # items) rows =
     (if int (length rows) < maxRows then
        (case item of
           Inl e \<Rightarrow> Inl e
         | Inr values \<Rightarrow> fetch_rows maxRows items (rows @ [map to_text values]))
      else Inr rows)"

fun fetch_all :: "(go_error + cell list) list \<Rightarrow> cell list list \<Rightarrow> go_error + cell list list" where
  "fetch_all [] rows = Inr rows"
| "fetch_all (item # items) rows =
     (case item of
        Inl e \<Rightarrow> Inl e
      | Inr values \<Rightarrow> fetch_all items (rows @ [map to_text values]))"

definition scan_mismatch :: "cell list \<Rightarrow> nat \<Rightarrow> go_error" where
  "scan_mismatch cells n =
     ''sql: expected '' @ show_nat (length cells) @ '' destination arguments in Scan, not '' @ show_nat n"

definition scan_row :: "nat \<Rightarrow> cell list \<Rightarrow> go_error + string list" where
  "scan_row n cells = (if length cells \<noteq> n then Inl (scan_mismatch cells n) else scan_strings cells)"

fun table_rows :: "(go_error + cell list) list \<Rightarrow> TableInfo list \<Rightarrow> go_error + TableInfo list \<times> bool" where
  "table_rows [] tables = Inr (tables, False)"
| "table_rows (item # items) tables =
     (if length tables \<ge> defaultMaxTables then Inr (tables, True)
      else case item of
        Inl e \<Rightarrow> Inl e
      | Inr cells \<Rightarrow>
          (case scan_row 2 cells of
             Inl e \<Rightarrow> Inl e
           | Inr vs \<Rightarrow> table_rows items (tables @ [\<lparr>ti_Name = vs ! 0, ti_Comment = vs ! 1\<rparr>])))"

definition scan_column :: "cell list \<Rightarrow> go_error + ColumnInfo" where
  "scan_column cells =
     (case cells of
        [field, type, nullable, key, dflt, extra, comment] \<Rightarrow>
          (case scan_strings [field, type, nullable, key, extra] of
             Inl e \<Rightarrow> Inl e
           | Inr vs \<Rightarrow>
               Inr \<lparr>ci_Field = vs ! 0, ci_Type = vs ! 1, ci_Null = vs ! 2, ci_Key = vs ! 3,
                    ci_Default = (case scan_null_string dflt of None \<Rightarrow> '''' | Some s \<Rightarrow> s),
                    ci_Extra = vs ! 4,
                    ci_Comment = (case scan_null_string comment of None \<Rightarrow> '''' | Some s \<Rightarrow> s)\<rparr>)
      | _ \<Rightarrow> Inl (scan_mismatch cells 7))"

fun column_rows :: "(go_error + cell list) list \<Rightarrow> ColumnInfo list \<Rightarrow> go_error + ColumnInfo list" where
  "column_rows [] cols = Inr cols"
| "column_rows (item # items) cols =
     (case item of
        Inl e \<Rightarrow> Inl e
      | Inr cells \<Rightarrow>
          (case scan_column cells of
             Inl e \<Rightarrow> Inl e
           | Inr col \<Rightarrow> column_rows items (cols @ [col])))"

fun match_rows :: "int \<Rightarrow> string \<Rightarrow> (go_error + cell list) list \<Rightarrow> TableMatch list \<Rightarrow> TableMatch list \<times> bool" where
  "match_rows maxMatches dbName [] matches = (matches, False)"
| "match_rows maxMatches dbName (item # items) matches =
     (if int (length matches) \<ge> maxMatches then (matches, True)
      else case (case item of Inl e \<Rightarrow> Inl e | Inr cells \<Rightarrow> scan_row 1 cells) of
        Inl e \<Rightarrow> match_rows maxMatches dbName items matches
      | Inr vs \<Rightarrow>
          match_rows maxMatches dbName items (matches @ [\<lparr>tm_Database = dbName, tm_Table = vs ! 0\<rparr>]))"

section \<open>Metadata queries\<close>

text \<open>The raw string literals: each line with its indentation, the closing backquote one tab less.\<close>

definition sql_lines :: "nat \<Rightarrow> (nat \<times> string) list \<Rightarrow> string" where
  "sql_lines depth ls =
     concat (map (\<lambda>(n, l). CHR 0x0A # replicate n (CHR 0x09) @ l) ls) @ CHR 0x0A # replicate depth (CHR 0x09)"

definition list_tables_query :: string where
  "list_tables_query = sql_lines 1
     [(2, ''SELECT TABLE_NAME, TABLE_COMMENT''),
      (2, ''FROM INFORMATION_SCHEMA.TABLES''),
      (2, ''WHERE TABLE_SCHEMA = ?''),
      (2, ''ORDER BY TABLE_NAME''),
      (2, ''LIMIT ?'')]"

definition describe_query :: string where
  "describe_query = sql_lines 1
     [(2, ''SELECT''),
      (3, ''COLUMN_NAME as Field,''),
      (3, ''COLUMN_TYPE as Type,''),
      (3, ''IS_NULLABLE as '' @ [CHR 0x27] @ ''Null'' @ [CHR 0x27] @ '',''),
      (3, ''COLUMN_KEY as '' @ [CHR 0x27] @ ''Key'' @ [CHR 0x27] @ '',''),
      (3, ''COLUMN_DEFAULT as '' @ [CHR 0x27] @ ''Default'' @ [CHR 0x27] @ '',''),
      (3, ''EXTRA as Extra,''),
      (3, ''COLUMN_COMMENT as Comment''),
      (2, ''FROM INFORMATION_SCHEMA.COLUMNS''),
      (2, ''WHERE TABLE_SCHEMA = ? AND TABLE_NAME = ?''),
      (2, ''ORDER BY ORDINAL_POSITION'')]"

definition search_query :: string where
  "search_query = sql_lines 2
     [(3, ''SELECT TABLE_NAME''),
      (3, ''FROM INFORMATION_SCHEMA.TABLES''),
      (3, ''WHERE TABLE_SCHEMA = ? AND LOWER(TABLE_NAME) LIKE ?''),
      (3, ''ORDER BY TABLE_NAME''),
      (3, ''LIMIT ?'')]"

section \<open>The query tool\<close>

definition is_read :: "SQLType \<Rightarrow> bool" where
  "is_read t \<longleftrightarrow> t = SQLTypeSelect \<or> t = SQLTypeShow \<or> t = SQLTypeExplain"

definition rewrite_step :: "CheckResult \<Rightarrow> Rewriter \<Rightarrow> ParsedSQL \<Rightarrow> string \<Rightarrow> string \<times> string list" where
  "rewrite_step res rw p sqlStr =
     (if AutoRewrite res then (SQL (Rewrite rw (Some p)), [''SQL was auto-rewritten for safety''])
      else (sqlStr, []))"

definition run_read ::
  "driver \<Rightarrow> clock \<Rightarrow> ctx \<Rightarrow> string \<Rightarrow> string \<Rightarrow> ParsedSQL \<Rightarrow> string \<Rightarrow> string list \<Rightarrow> 'a handler_scheme \<Rightarrow>
     ((go_error + QueryResult) \<times> 'a handler_scheme) outcome" where
  "run_read drv clk c db sqlStr p sqlToExecute warnings h =
     (case Router_Query drv (getQueryTimeout h) db sqlToExecute [] h of
        (Inl e, h1) \<Rightarrow>
          audit clk (query_entry clk c db sqlStr (SQLType_String (SqlType p)) ''error'' e 0) (Inl e) h1
      | (Inr rows, h1) \<Rightarrow>
          (case rd_columns rows of
             Inl e \<Rightarrow> Ret (Inl e, rows_Close rows h1)
           | Inr cols \<Rightarrow>
               (case fetch_rows (getMaxRows h1) (rd_items rows) [] of
                  Inl e \<Rightarrow> Ret (Inl e, rows_Close rows h1)
                | Inr rs \<Rightarrow>
                    (case audit clk
                        (query_entry clk c db sqlStr (SQLType_String (SqlType p)) ''success'' '''' (int (length rs)))
                        (Inr \<lparr>qr_Columns = cols, qr_Rows = rs, qr_RowsAffected = int (length rs),
                              qr_LastInsertID = 0, qr_Warnings = warnings\<rparr>) h1 of
                       Panic m \<Rightarrow> Panic m
                     | Ret (res, h2) \<Rightarrow> Ret (res, rows_Close rows h2)))))"

definition value_or_zero :: "go_error + int \<Rightarrow> int" where
  "value_or_zero r = (case r of Inl _ \<Rightarrow> 0 | Inr n \<Rightarrow> n)"

definition run_write ::
  "driver \<Rightarrow> clock \<Rightarrow> ctx \<Rightarrow> string \<Rightarrow> string \<Rightarrow> ParsedSQL \<Rightarrow> string \<Rightarrow> string list \<Rightarrow> 'a handler_scheme \<Rightarrow>
     ((go_error + QueryResult) \<times> 'a handler_scheme) outcome" where
  "run_write drv clk c db sqlStr p sqlToExecute warnings h =
     (case Router_Exec drv (getQueryTimeout h) db sqlToExecute h of
        (Inl e, h1) \<Rightarrow>
          audit clk (query_entry clk c db sqlStr (SQLType_String (SqlType p)) ''error'' e 0) (Inl e) h1
      | (Inr execResult, h1) \<Rightarrow>
          audit clk
            (query_entry clk c db sqlStr (SQLType_String (SqlType p)) ''success'' ''''
               (value_or_zero (RowsAffected execResult)))
            (Inr \<lparr>qr_Columns = [], qr_Rows = [], qr_RowsAffected = value_or_zero (RowsAffected execResult),
                  qr_LastInsertID = value_or_zero (LastInsertId execResult), qr_Warnings = warnings\<rparr>) h1)"

definition nil_deref :: string where
  "nil_deref = ''invalid memory address or nil pointer dereference''"

definition executeQuery ::
  "driver \<Rightarrow> (string \<Rightarrow> go_error + stmt_node list) \<Rightarrow> clock \<Rightarrow> ctx \<Rightarrow> string \<Rightarrow> string \<Rightarrow> 'a handler_scheme \<Rightarrow>
     ((go_error + QueryResult) \<times> 'a handler_scheme) outcome" where
  "executeQuery drv tidb clk c db sqlStr h =
     (case Parse tidb sqlStr of
        Inl e \<Rightarrow>
          audit clk (query_entry clk c db sqlStr ''UNKNOWN'' ''error'' (''parse error: '' @ e) 0)
            (Inl (''SQL parse error: '' @ e)) h
      | Inr parsed \<Rightarrow>
          let checkResult = Check (h_checker h) parsed in
          (case parsed of
             None \<Rightarrow> Panic nil_deref
           | Some p \<Rightarrow>
               if \<not> Allowed checkResult then
                 audit clk
                   (query_entry clk c db sqlStr (SQLType_String (SqlType p)) ''blocked'' (Reason checkResult) 0)
                   (Inl (''SQL blocked: '' @ Reason checkResult)) h
               else
                 (case rewrite_step checkResult (h_rewriter h) p sqlStr of
                    (sqlToExecute, warnings) \<Rightarrow>
                      if is_read (SqlType p) then run_read drv clk c db sqlStr p sqlToExecute warnings h
                      else run_write drv clk c db sqlStr p sqlToExecute warnings h)))"

section \<open>The other tools\<close>

definition executeListDatabases :: "string list \<Rightarrow> 'a handler_scheme \<Rightarrow> go_error + string list" where
  "executeListDatabases order h = Inr (ListDatabases order)"

text \<open>The metadata tools query the handle itself; the rows are closed on every path.\<close>

definition with_rows ::
  "driver \<Rightarrow> string \<Rightarrow> string \<Rightarrow> sql_arg list \<Rightarrow> (sql_rows \<Rightarrow> go_error + 'r) \<Rightarrow> 'a handler_scheme \<Rightarrow>
     (go_error + 'r) \<times> 'a handler_scheme" where
  "with_rows drv dbName query args consume h =
     (case GetDB dbName h of
        (Inl e, h1) \<Rightarrow> (Inl e, h1)
      | (Inr db, h1) \<Rightarrow>
          (case db_Query drv (getQueryTimeout h1) db query args h1 of
             (Inl e, h2) \<Rightarrow> (Inl e, h2)
           | (Inr rows, h2) \<Rightarrow> (consume rows, rows_Close rows h2)))"

definition executeListTables ::
  "driver \<Rightarrow> string \<Rightarrow> 'a handler_scheme \<Rightarrow> (go_error + ListTablesResult) \<times> 'a handler_scheme" where
  "executeListTables drv dbName =
     with_rows drv dbName list_tables_query [ArgString dbName, ArgInt (int defaultMaxTables + 1)]
       (\<lambda>rows. case table_rows (rd_items rows) [] of
          Inl e \<Rightarrow> Inl e
        | Inr (tables, truncated) \<Rightarrow> Inr \<lparr>lt_Tables = tables, lt_Truncated = truncated\<rparr>)"

definition executeDescribeTable ::
  "driver \<Rightarrow> string \<Rightarrow> string \<Rightarrow> 'a handler_scheme \<Rightarrow> (go_error + ColumnInfo list) \<times> 'a handler_scheme" where
  "executeDescribeTable drv dbName tableName =
     with_rows drv dbName describe_query [ArgString dbName, ArgString tableName]
       (\<lambda>rows. column_rows (rd_items rows) [])"

text \<open>\<open>QueryRow(...).Scan\<close> reads one row.\<close>

definition single_row :: "sql_rows \<Rightarrow> go_error + string list" where
  "single_row rows =
     (case rd_items rows of
        [] \<Rightarrow> Inl (case rd_err rows of Some e \<Rightarrow> e | None \<Rightarrow> ''sql: no rows in result set'')
      | Inl e # _ \<Rightarrow> Inl e
      | Inr cells # _ \<Rightarrow> scan_row 2 cells)"

definition executeShowCreateTable ::
  "driver \<Rightarrow> string \<Rightarrow> string \<Rightarrow> 'a handler_scheme \<Rightarrow> (go_error + string) \<times> 'a handler_scheme" where
  "executeShowCreateTable drv dbName tableName =
     with_rows drv dbName
       (''SHOW CREATE TABLE '' @ QuoteIdentifier dbName @ ''.'' @ QuoteIdentifier tableName) []
       (\<lambda>rows. case single_row rows of Inl e \<Rightarrow> Inl e | Inr vs \<Rightarrow> Inr (vs ! 1))"

definition executeExplain ::
  "driver \<Rightarrow> (string \<Rightarrow> go_error + stmt_node list) \<Rightarrow> string \<Rightarrow> string \<Rightarrow> 'a handler_scheme \<Rightarrow>
     ((go_error + ExplainResult) \<times> 'a handler_scheme) outcome" where
  "executeExplain drv tidb dbName sqlStr h =
     (case Parse tidb sqlStr of
        Inl e \<Rightarrow> Ret (Inl (''invalid SQL for EXPLAIN: '' @ e), h)
      | Inr None \<Rightarrow> Panic nil_deref
      | Inr (Some p) \<Rightarrow>
          if SqlType p \<notin> {SQLTypeSelect, SQLTypeInsert, SQLTypeUpdate, SQLTypeDelete}
          then Ret (Inl (''EXPLAIN not supported for SQL type: '' @ SQLType_String (SqlType p)), h)
          else
            (case Router_Query drv (getQueryTimeout h) dbName (''EXPLAIN '' @ sqlStr) [] h of
               (Inl e, h1) \<Rightarrow> Ret (Inl e, h1)
             | (Inr rows, h1) \<Rightarrow>
                 Ret (case rd_columns rows of
                        Inl e \<Rightarrow> Inl e
                      | Inr cols \<Rightarrow>
                          (case fetch_all (rd_items rows) [] of
                             Inl e \<Rightarrow> Inl e
                           | Inr rs \<Rightarrow> Inr \<lparr>er_Columns = cols, er_Rows = rs\<rparr>),
                      rows_Close rows h1)))"

definition search_pattern :: "string \<Rightarrow> string" where
  "search_pattern tablePattern = ''%'' @ to_lower (EscapeLikePattern tablePattern) @ ''%''"

fun search_loop ::
  "driver \<Rightarrow> int \<Rightarrow> string \<Rightarrow> int \<Rightarrow> string list \<Rightarrow> TableMatch list \<Rightarrow> 'a handler_scheme \<Rightarrow>
     TableMatch list \<times> bool \<times> 'a handler_scheme" where
  "search_loop drv t pattern maxMatches [] matches h = (matches, False, h)"
| "search_loop drv t pattern maxMatches (dbName # dbNames) matches h =
     (case GetDB dbName h of
        (Inl e, h1) \<Rightarrow> search_loop drv t pattern maxMatches dbNames matches h1
      | (Inr db, h1) \<Rightarrow>
          let remaining = maxMatches - int (length matches) in
          if remaining \<le> 0 then (matches, True, h1)
          else
            (case db_Query drv t db search_query [ArgString dbName, ArgString pattern, ArgInt (remaining + 1)] h1 of
               (Inl e, h2) \<Rightarrow> search_loop drv t pattern maxMatches dbNames matches h2
             | (Inr rows, h2) \<Rightarrow>
                 (case match_rows maxMatches dbName (rd_items rows) matches of
                    (matches', True) \<Rightarrow> (matches', True, rows_Close rows h2)
                  | (matches', False) \<Rightarrow>
                      search_loop drv t pattern maxMatches dbNames matches' (rows_Close rows h2))))"

definition executeSearchTables ::
  "driver \<Rightarrow> string list \<Rightarrow> string \<Rightarrow> 'a handler_scheme \<Rightarrow> (go_error + SearchTablesResult) \<times> 'a handler_scheme" where
  "executeSearchTables drv order tablePattern h =
     (case search_loop drv (getQueryTimeout h) (search_pattern tablePattern) (getMaxRows h)
         (ListDatabases order) [] h of
        (matches, truncated, h1) \<Rightarrow> (Inr \<lparr>st_Matches = matches, st_Truncated = truncated\<rparr>, h1))"

section \<open>Tool calls\<close>

datatype 'r tool_response = ToolResult 'r | ToolInvalid validation_error | ToolError go_error

datatype tool_call =
    QueryCall string string
  | ListDatabasesCall
  | ListTablesCall string
  | DescribeTableCall string string
  | ShowCreateTableCall string string
  | ExplainCall string string
  | SearchTablesCall string

datatype tool_value =
    VQuery QueryResult | VDatabases "string list" | VTables ListTablesResult
  | VColumns "ColumnInfo list" | VCreate string | VExplain ExplainResult | VMatches SearchTablesResult

definition registered_tools :: "(string \<times> string) list" where
  "registered_tools =
     [(''query'', ''Execute SQL query on specified database''),
      (''list_databases'', ''List all available databases''),
      (''list_tables'', ''List tables in specified database''),
      (''describe_table'', ''Get table structure''),
      (''show_create_table'', ''Get CREATE TABLE statement''),
      (''explain'', ''Get SQL execution plan''),
      (''search_tables'', ''Search tables by name across all databases'')]"

definition respond :: "('r \<Rightarrow> tool_value) \<Rightarrow> go_error + 'r \<Rightarrow> tool_value tool_response" where
  "respond f r = (case r of Inl e \<Rightarrow> ToolError e | Inr v \<Rightarrow> ToolResult (f v))"

definition respond_out ::
  "('r \<Rightarrow> tool_value) \<Rightarrow> ((go_error + 'r) \<times> 'h) outcome \<Rightarrow> (tool_value tool_response \<times> 'h) outcome" where
  "respond_out f o' = (case o' of Panic m \<Rightarrow> Panic m | Ret (r, h) \<Rightarrow> Ret (respond f r, h))"

definition handleQueryTool where
  "handleQueryTool drv tidb clk c db sqlStr h =
     (case ValidateDatabaseName db of
        Some e \<Rightarrow> Ret (ToolInvalid e, h)
      | None \<Rightarrow>
          (case ValidateSQL sqlStr of
             Some e \<Rightarrow> Ret (ToolInvalid e, h)
           | None \<Rightarrow> respond_out VQuery (executeQuery drv tidb clk c db sqlStr h)))"

definition handleListDatabasesTool where
  "handleListDatabasesTool order h = Ret (respond VDatabases (executeListDatabases order h), h)"

definition handleListTablesTool where
  "handleListTablesTool drv db h =
     (case ValidateDatabaseName db of
        Some e \<Rightarrow> Ret (ToolInvalid e, h)
      | None \<Rightarrow> respond_out VTables (Ret (executeListTables drv db h)))"

definition handleDescribeTableTool where
  "handleDescribeTableTool drv db table h =
     (case ValidateDatabaseName db of
        Some e \<Rightarrow> Ret (ToolInvalid e, h)
      | None \<Rightarrow>
          (case ValidateTableName table of
             Some e \<Rightarrow> Ret (ToolInvalid e, h)
           | None \<Rightarrow> respond_out VColumns (Ret (executeDescribeTable drv db table h))))"

definition handleShowCreateTableTool where
  "handleShowCreateTableTool drv db table h =
     (case ValidateDatabaseName db of
        Some e \<Rightarrow> Ret (ToolInvalid e, h)
      | None \<Rightarrow>
          (case ValidateTableName table of
             Some e \<Rightarrow> Ret (ToolInvalid e, h)
           | None \<Rightarrow> respond_out VCreate (Ret (executeShowCreateTable drv db table h))))"

definition handleExplainTool where
  "handleExplainTool drv tidb db sqlStr h =
     (case ValidateDatabaseName db of
        Some e \<Rightarrow> Ret (ToolInvalid e, h)
      | None \<Rightarrow>
          (case ValidateSQL sqlStr of
             Some e \<Rightarrow> Ret (ToolInvalid e, h)
           | None \<Rightarrow> respond_out VExplain (executeExplain drv tidb db sqlStr h)))"

definition handleSearchTablesTool where
  "handleSearchTablesTool drv order pattern h =
     (case ValidateSearchPattern pattern of
        Some e \<Rightarrow> Ret (ToolInvalid e, h)
      | None \<Rightarrow> respond_out VMatches (Ret (executeSearchTables drv order pattern h)))"

fun call_tool ::
  "driver \<Rightarrow> (string \<Rightarrow> go_error + stmt_node list) \<Rightarrow> clock \<Rightarrow> string list \<Rightarrow> ctx \<Rightarrow> tool_call \<Rightarrow>
     'a handler_scheme \<Rightarrow> (tool_value tool_response \<times> 'a handler_scheme) outcome" where
  "call_tool drv tidb clk order c (QueryCall db sqlStr) h = handleQueryTool drv tidb clk c db sqlStr h"
| "call_tool drv tidb clk order c ListDatabasesCall h = handleListDatabasesTool order h"
| "call_tool drv tidb clk order c (ListTablesCall db) h = handleListTablesTool drv db h"
| "call_tool drv tidb clk order c (DescribeTableCall db table) h = handleDescribeTableTool drv db table h"
| "call_tool drv tidb clk order c (ShowCreateTableCall db table) h = handleShowCreateTableTool drv db table h"
| "call_tool drv tidb clk order c (ExplainCall db sqlStr) h = handleExplainTool drv tidb db sqlStr h"
| "call_tool drv tidb clk order c (SearchTablesCall pattern) h = handleSearchTablesTool drv order pattern h"

end
