(* ===== verification/Tools_Laws.thy ===== *)
theory Tools_Laws
  imports Tools
begin

text \<open>
  Laws of the tool handlers: what they send to MySQL, what they write to the audit log, when they
  panic, and that they keep the invariant of the handler.
\<close>

section \<open>What a routed request sends\<close>

definition query_events :: "nat \<Rightarrow> int \<Rightarrow> string \<Rightarrow> request \<Rightarrow> event list" where
  "query_events k t database req =
     [Event k t ReqConnect, Event k t (ReqExec (use_stmt database)), Event k t req]"

lemma GetDB_trace: "GetDB database r = (res, r1) \<Longrightarrow> trace r1 = trace r"
  using Get_trace [of "Cluster (the (rt_databases r database))" r]
  by (auto simp: GetDB_def split: option.splits)

lemma trace_on_conn:
  "trace (on_conn t k database r1) =
     trace r1 @ [Event k t ReqConnect, Event k t (ReqExec (use_stmt database))]"
  by (simp add: on_conn_def db_laws state_frame)

lemma Query_trace:
  "\<exists>k es. trace (snd (Router_Query drv t database query args r)) = trace r @ es \<and>
     prefix es (query_events k t database (ReqQuery query args)) \<and>
     (es \<noteq> [] \<longrightarrow> routes_to database k r) \<and>
     (\<forall>rows. fst (Router_Query drv t database query args r) = Inr rows \<longrightarrow>
        es = query_events k t database (ReqQuery query args))"
proof (cases rule: Query_cases [where database = database and r = r and drv = drv and t = t and query = query and args = args])
  case (connect k r1 r2 e)
  then show ?thesis
    using GetDB_trace [OF connect(1)]
    by (auto simp: routes_to_def db_laws query_events_def intro!: exI [of _ k])
next
  case (switch k r1 e)
  then show ?thesis
    using GetDB_trace [OF switch(1)]
    by (auto simp: routes_to_def state_frame trace_on_conn query_events_def intro!: exI [of _ k])
next
  case (fails k r1 e)
  then show ?thesis
    using GetDB_trace [OF fails(1)]
    by (auto simp: routes_to_def state_frame db_laws trace_on_conn query_events_def intro!: exI [of _ k])
next
  case (answers k r1 rows)
  then show ?thesis
    using GetDB_trace [OF answers(1)]
    by (auto simp: routes_to_def db_laws trace_on_conn query_events_def intro!: exI [of _ k])
qed auto

lemma Exec_trace:
  "\<exists>k es. trace (snd (Router_Exec drv t database query r)) = trace r @ es \<and>
     prefix es (query_events k t database (ReqExec query)) \<and>
     (es \<noteq> [] \<longrightarrow> routes_to database k r) \<and>
     (\<forall>res. fst (Router_Exec drv t database query r) = Inr res \<longrightarrow>
        es = query_events k t database (ReqExec query))"
proof (cases rule: Exec_cases [where database = database and r = r and drv = drv and t = t and query = query])
  case (connect k r1 r2 e)
  then show ?thesis
    using GetDB_trace [OF connect(1)]
    by (auto simp: routes_to_def db_laws query_events_def intro!: exI [of _ k])
next
  case (switch k r1 e)
  then show ?thesis
    using GetDB_trace [OF switch(1)]
    by (auto simp: routes_to_def state_frame trace_on_conn query_events_def intro!: exI [of _ k])
next
  case (sent k r1)
  then show ?thesis
    using GetDB_trace [OF sent(1)]
    by (auto simp: routes_to_def state_frame db_laws trace_on_conn query_events_def intro!: exI [of _ k])
qed auto

text \<open>What routing keeps of the larger handler state.\<close>

definition same_handler :: "'a handler_scheme \<Rightarrow> 'a handler_scheme \<Rightarrow> bool" where
  "same_handler h h' \<longleftrightarrow>
     h_checker h' = h_checker h \<and> h_rewriter h' = h_rewriter h \<and> h_audit h' = h_audit h \<and>
     h_config h' = h_config h \<and> handler.more h' = handler.more h"

lemma same_handler_refl [simp]: "same_handler h h"
  by (simp add: same_handler_def)

lemma routed_same_handler:
  assumes "routed t h h'"
  shows "same_handler h h'"
proof -
  have "router.more h' = router.more h" using assms by (simp add: routed_def)
  then show ?thesis by (cases h; cases h') (simp add: same_handler_def)
qed

lemma same_handler_limits:
  assumes "same_handler h h'"
  shows "getQueryTimeout h' = getQueryTimeout h" and "getMaxRows h' = getMaxRows h"
  using assms by (simp_all add: same_handler_def getQueryTimeout_def getMaxRows_def)

section \<open>The audit line\<close>

text \<open>The calls on the writer that one entry causes.\<close>

definition log_calls :: "gotime \<Rightarrow> Entry \<Rightarrow> audit_log \<Rightarrow> lj_call list" where
  "log_calls now e l =
     (if \<not> enabled l then []
      else case (entry_json (prepare_entry now (maxSQLLen l) e), writer l) of
        (Inr data, Some w) \<Rightarrow> [LjWrite w (data @ [CHR 0x0A])]
      | _ \<Rightarrow> [])"

definition write_calls :: "lj_call list \<Rightarrow> audit_log \<Rightarrow> audit_log" where
  "write_calls cs l = l\<lparr>lj_trace := lj_trace l @ cs\<rparr>"

lemma Log_eq:
  assumes "audit_inv l"
  shows "Log now e l = Ret (write_calls (log_calls now e l) l)"
  by (cases rule: Log_cases [OF assms, of now e])
    (auto simp: log_calls_def write_calls_def Log_def split: sum.splits option.splits)

lemma audit_inv_write_calls: "audit_inv l \<Longrightarrow> audit_inv (write_calls cs l)"
  by (simp add: audit_inv_def write_calls_def)

lemma audit_eq:
  "audit_inv (h_audit h) \<Longrightarrow>
     audit clk e r h = Ret (r, h\<lparr>h_audit := write_calls (log_calls (clk_log clk) e (h_audit h)) (h_audit h)\<rparr>)"
  by (simp add: audit_def Log_eq)

section \<open>The invariant of a handler\<close>

definition handler_inv :: "'a handler_scheme \<Rightarrow> bool" where
  "handler_inv h \<longleftrightarrow> pool_inv h \<and> audit_inv (h_audit h)"

lemma pool_inv_h_audit [simp]: "pool_inv (h\<lparr>h_audit := l\<rparr>) = pool_inv h"
  by (simp add: pool_inv_def is_open_def)

lemma handler_inv_routed: "handler_inv h \<Longrightarrow> routed t h h' \<Longrightarrow> handler_inv h'"
  using routed_same_handler [of t h h'] routed_inv [of t h h']
  by (auto simp: handler_inv_def same_handler_def)

lemma handler_inv_audit: "handler_inv h \<Longrightarrow> audit_inv l \<Longrightarrow> handler_inv (h\<lparr>h_audit := l\<rparr>)"
  by (simp add: handler_inv_def)

section \<open>The query tool, case by case\<close>

abbreviation entry_of where
  "entry_of clk c db sqlStr p \<equiv> query_entry clk c db sqlStr (SQLType_String (SqlType p))"

abbreviation note_entry :: "clock \<Rightarrow> Entry \<Rightarrow> 'a handler_scheme \<Rightarrow> 'a handler_scheme" where
  "note_entry clk e h \<equiv> h\<lparr>h_audit := write_calls (log_calls (clk_log clk) e (h_audit h)) (h_audit h)\<rparr>"

lemma run_read_cases:
  fixes h :: "'a handler_scheme"
  assumes "audit_inv (h_audit h)"
  obtains (refused) e h1 where
      "Router_Query drv (getQueryTimeout h) db q [] h = (Inl e, h1)"
      and "run_read drv clk c db s p q ws h = Ret (Inl e, note_entry clk (entry_of clk c db s p ''error'' e 0) h1)"
  | (lost) e rows h1 where
      "Router_Query drv (getQueryTimeout h) db q [] h = (Inr rows, h1)"
      and "run_read drv clk c db s p q ws h = Ret (Inl e, h1)"
      and "rd_columns rows = Inl e \<or> (\<exists>cols. rd_columns rows = Inr cols \<and> fetch_rows (getMaxRows h) (rd_items rows) [] = Inl e)"
  | (answered) rows h1 cols rs where
      "Router_Query drv (getQueryTimeout h) db q [] h = (Inr rows, h1)"
      and "rd_columns rows = Inr cols" and "fetch_rows (getMaxRows h) (rd_items rows) [] = Inr rs"
      and "run_read drv clk c db s p q ws h =
        Ret (Inr \<lparr>qr_Columns = cols, qr_Rows = rs, qr_RowsAffected = int (length rs),
                  qr_LastInsertID = 0, qr_Warnings = ws\<rparr>,
             note_entry clk (entry_of clk c db s p ''success'' '''' (int (length rs))) h1)"
proof (cases "Router_Query drv (getQueryTimeout h) db q [] h")
  case (Pair res h1)
  have rd: "routed (getQueryTimeout h) h h1"
    using routed_Query [of "getQueryTimeout h" h drv db q "[]"] Pair by simp
  note sh = routed_same_handler [OF rd]
  have inv: "audit_inv (h_audit h1)" using sh assms by (simp add: same_handler_def)
  note mr = same_handler_limits(2) [OF sh]
  show thesis
  proof (cases res)
    case (Inl e)
    with Pair inv refused show thesis by (simp add: run_read_def audit_eq)
  next
    case (Inr rows)
    then have cl: "rows_Close rows k = k" for k :: "'a handler_scheme"
      using Query_owner Pair by (intro rows_Close_unowned) blast
    show thesis
    proof (cases "rd_columns rows")
      case (Inl e)
      with Pair Inr cl lost show thesis by (simp add: run_read_def)
    next
      case cols: (Inr cols)
      show thesis
        using Pair Inr cl cols lost answered inv mr
        by (cases "fetch_rows (getMaxRows h) (rd_items rows) []") (auto simp: run_read_def audit_eq)
    qed
  qed
qed

lemma run_write_cases:
  fixes h :: "'a handler_scheme"
  assumes "audit_inv (h_audit h)"
  obtains (refused) e h1 where
      "Router_Exec drv (getQueryTimeout h) db q h = (Inl e, h1)"
      and "run_write drv clk c db s p q ws h = Ret (Inl e, note_entry clk (entry_of clk c db s p ''error'' e 0) h1)"
  | (wrote) res h1 where
      "Router_Exec drv (getQueryTimeout h) db q h = (Inr res, h1)"
      and "run_write drv clk c db s p q ws h =
        Ret (Inr \<lparr>qr_Columns = [], qr_Rows = [], qr_RowsAffected = value_or_zero (RowsAffected res),
                  qr_LastInsertID = value_or_zero (LastInsertId res), qr_Warnings = ws\<rparr>,
             note_entry clk (entry_of clk c db s p ''success'' '''' (value_or_zero (RowsAffected res))) h1)"
proof (cases "Router_Exec drv (getQueryTimeout h) db q h")
  case (Pair res h1)
  have rd: "routed (getQueryTimeout h) h h1"
    using routed_Exec [of "getQueryTimeout h" h drv db q] Pair by simp
  have inv: "audit_inv (h_audit h1)"
    using routed_same_handler [OF rd] assms by (simp add: same_handler_def)
  show thesis
    using Pair inv refused wrote by (cases res) (simp_all add: run_write_def audit_eq)
qed

lemma executeQuery_cases:
  fixes h :: "'a handler_scheme"
  assumes "audit_inv (h_audit h)"
  obtains (no_statement) "tidb s = Inr []" and "executeQuery drv tidb clk c db s h = Panic nil_deref"
  | (unparsed) e where "tidb s = Inl e"
      and "executeQuery drv tidb clk c db s h = Ret (Inl (''SQL parse error: '' @ e),
        note_entry clk (query_entry clk c db s ''UNKNOWN'' ''error'' (''parse error: '' @ e) 0) h)"
  | (blocked) p where "Parse tidb s = Inr (Some p)" and "\<not> policy (chk_rules (h_checker h)) (SqlType p)"
      and "executeQuery drv tidb clk c db s h =
        Ret (Inl (''SQL blocked: '' @ Reason (Check (h_checker h) (Some p))),
          note_entry clk (entry_of clk c db s p ''blocked'' (Reason (Check (h_checker h) (Some p))) 0) h)"
  | (reads) p q ws where "Parse tidb s = Inr (Some p)" and "policy (chk_rules (h_checker h)) (SqlType p)"
      and "is_read (SqlType p)" and "rewrite_step (Check (h_checker h) (Some p)) (h_rewriter h) p s = (q, ws)"
      and "executeQuery drv tidb clk c db s h = run_read drv clk c db s p q ws h"
  | (writes) p q ws where "Parse tidb s = Inr (Some p)" and "policy (chk_rules (h_checker h)) (SqlType p)"
      and "\<not> is_read (SqlType p)" and "rewrite_step (Check (h_checker h) (Some p)) (h_rewriter h) p s = (q, ws)"
      and "executeQuery drv tidb clk c db s h = run_write drv clk c db s p q ws h"
proof (cases "Parse tidb s")
  case (Inl e)
  then have "tidb s = Inl e" by (simp add: Parse_error_iff)
  then show thesis by (rule unparsed) (simp add: executeQuery_def Inl audit_eq assms)
next
  case (Inr parsed)
  show thesis
  proof (cases parsed)
    case None
    then have "tidb s = Inr []" using Inr by (simp add: Parse_nil_iff)
    then show thesis by (rule no_statement) (simp add: executeQuery_def Inr None)
  next
    case (Some p)
    show thesis
    proof (cases "Allowed (Check (h_checker h) (Some p))")
      case False
      then show thesis using Inr Some assms blocked by (simp add: executeQuery_def audit_eq gate.gate_policy Let_def)
    next
      case True
      obtain q ws where "rewrite_step (Check (h_checker h) (Some p)) (h_rewriter h) p s = (q, ws)"
        by fastforce
      then show thesis
        using True Inr Some reads writes
        by (cases "is_read (SqlType p)") (simp_all add: executeQuery_def gate.gate_policy Let_def)
    qed
  qed
qed

text \<open>The text that is executed for an allowed statement.\<close>

definition executed_text :: "'a handler_scheme \<Rightarrow> ParsedSQL \<Rightarrow> string \<Rightarrow> string" where
  "executed_text h p s =
     (if chk_rules (h_checker h) \<noteq> None \<and> unfiltered_write p
      then SQL (Rewrite (h_rewriter h) (Some p)) else s)"

definition request_of :: "ParsedSQL \<Rightarrow> string \<Rightarrow> request" where
  "request_of p q = (if is_read (SqlType p) then ReqQuery q [] else ReqExec q)"

lemma rewrite_step_text:
  assumes "policy (chk_rules (h_checker h)) (SqlType p)"
    and "rewrite_step (Check (h_checker h) (Some p)) (h_rewriter h) p s = (q, ws)"
  shows "q = executed_text h p s"
  using assms by (auto simp: rewrite_step_def executed_text_def gate.gate_rewrite gate.gate_policy split: if_splits)

lemma trace_note_entry [simp]: "trace (note_entry clk e h) = trace h"
  by simp

lemma run_read_sends:
  assumes "audit_inv (h_audit h)" and "run_read drv clk c db s p q ws h = Ret (r, h')" and "is_read (SqlType p)"
  shows "\<exists>k es. trace h' = trace h @ es \<and> (es \<noteq> [] \<longrightarrow> routes_to db k h) \<and>
     prefix es (query_events k (getQueryTimeout h) db (request_of p q)) \<and>
     (\<forall>v. r = Inr v \<longrightarrow> es = query_events k (getQueryTimeout h) db (request_of p q))"
  using Query_trace [of drv "getQueryTimeout h" db q "[]" h]
  by (cases rule: run_read_cases [OF assms(1), of drv db q clk c s p ws])
    (use assms(2,3) in \<open>auto simp: request_of_def\<close>)

lemma run_write_sends:
  assumes "audit_inv (h_audit h)" and "run_write drv clk c db s p q ws h = Ret (r, h')" and "\<not> is_read (SqlType p)"
  shows "\<exists>k es. trace h' = trace h @ es \<and> (es \<noteq> [] \<longrightarrow> routes_to db k h) \<and>
     prefix es (query_events k (getQueryTimeout h) db (request_of p q)) \<and>
     (\<forall>v. r = Inr v \<longrightarrow> es = query_events k (getQueryTimeout h) db (request_of p q))"
  using Exec_trace [of drv "getQueryTimeout h" db q h]
  by (cases rule: run_write_cases [OF assms(1), of drv db q clk c s p ws])
    (use assms(2,3) in \<open>auto simp: request_of_def\<close>)

lemma executeQuery_sends:
  assumes inv: "audit_inv (h_audit h)" and ex: "executeQuery drv tidb clk c db s h = Ret (r, h')"
  shows "(trace h' = trace h \<and> (\<exists>e. r = Inl e)) \<or>
     (\<exists>p k es. Parse tidb s = Inr (Some p) \<and> policy (chk_rules (h_checker h)) (SqlType p) \<and>
        trace h' = trace h @ es \<and> (es \<noteq> [] \<longrightarrow> routes_to db k h) \<and>
        prefix es (query_events k (getQueryTimeout h) db (request_of p (executed_text h p s))) \<and>
        (\<forall>v. r = Inr v \<longrightarrow> es = query_events k (getQueryTimeout h) db (request_of p (executed_text h p s))))"
proof (cases rule: executeQuery_cases [OF inv, of tidb s drv clk c db,
      consumes 0, case_names no_statement unparsed blocked reads writes])
  case (reads p q ws)
  with run_read_sends [OF inv, of drv clk c db s p q ws r h'] ex rewrite_step_text [of h p s q ws]
  show ?thesis by (intro disjI2 exI [of _ p]) simp
next
  case (writes p q ws)
  with run_write_sends [OF inv, of drv clk c db s p q ws r h'] ex rewrite_step_text [of h p s q ws]
  show ?thesis by (intro disjI2 exI [of _ p]) simp
qed (use ex in auto)

lemma executeQuery_panics_iff:
  assumes inv: "audit_inv (h_audit h)"
  shows "(\<exists>m. executeQuery drv tidb clk c db s h = Panic m) \<longleftrightarrow> tidb s = Inr []"
proof (cases rule: executeQuery_cases [OF inv, of tidb s drv clk c db,
      consumes 0, case_names no_statement unparsed blocked reads writes])
  case (reads p q ws)
  then show ?thesis
    by (cases rule: run_read_cases [OF inv, of drv db q clk c s p ws])
      (auto simp: Parse_def split: sum.splits list.splits)
next
  case (writes p q ws)
  then show ?thesis
    by (cases rule: run_write_cases [OF inv, of drv db q clk c s p ws])
      (auto simp: Parse_def split: sum.splits list.splits)
qed (auto simp: Parse_def split: sum.splits list.splits)

section \<open>Rows\<close>

lemma fetch_rows_bound:
  "fetch_rows n items rows = Inr rs \<Longrightarrow> int (length rows) \<le> max 0 n \<Longrightarrow> int (length rs) \<le> max 0 n"
  by (induction n items rows rule: fetch_rows.induct) (auto split: sum.splits if_splits)

text \<open>The row limit only cuts the answer off.\<close>

lemma fetch_rows_eq: "fetch_rows n items rows = fetch_all (take (nat (n - int (length rows))) items) rows"
proof (induction n items rows rule: fetch_rows.induct)
  case (2 n item items rows)
  show ?case
  proof (cases "int (length rows) < n")
    case True
    then have "nat (n - int (length rows)) = Suc (nat (n - int (Suc (length rows))))" by linarith
    with True 2 show ?thesis by (simp split: sum.splits)
  qed simp
qed simp

lemma getMaxRows_pos: "0 < getMaxRows h"
  by (auto simp: getMaxRows_def defaultMaxRows_def split: option.splits)

lemma getQueryTimeout_pos: "0 < getQueryTimeout h"
  by (auto simp: getQueryTimeout_def defaultQueryTimeout_def split: option.splits)

lemma executeQuery_row_limit:
  assumes inv: "audit_inv (h_audit h)" and ex: "executeQuery drv tidb clk c db s h = Ret (Inr res, h')"
  shows "int (length (qr_Rows res)) \<le> getMaxRows h"
proof -
  have bound: "fetch_rows (getMaxRows h) items [] = Inr rs \<Longrightarrow> int (length rs) \<le> getMaxRows h" for items rs
    using fetch_rows_bound [of "getMaxRows h" items "[]" rs] getMaxRows_pos [of h] by simp
  show ?thesis
  proof (cases rule: executeQuery_cases [OF inv, of tidb s drv clk c db,
      consumes 0, case_names no_statement unparsed blocked reads writes])
    case (reads p q ws)
    with ex bound show ?thesis
      by (cases rule: run_read_cases [OF inv, of drv db q clk c s p ws]) auto
  next
    case (writes p q ws)
    with ex getMaxRows_pos [of h] show ?thesis
      by (cases rule: run_write_cases [OF inv, of drv db q clk c s p ws]) auto
  qed (use ex in auto)
qed

end
