(* ===== verification/Tools_Meta.thy ===== *)
theory Tools_Meta
  imports Tools_Laws
begin

text \<open>
  Laws of the audit trail of the query tool and of the metadata tools: every statement they send is
  a fixed text (or a quoted name), the user's text travels as an argument, the rows are closed and
  the connection comes back.
\<close>

section \<open>The audit trail of the query tool\<close>

definition audited :: "clock \<Rightarrow> Entry \<Rightarrow> 'a handler_scheme \<Rightarrow> 'a handler_scheme \<Rightarrow> bool" where
  "audited clk e h h' \<longleftrightarrow>
     h_audit h' = write_calls (log_calls (clk_log clk) e (h_audit h)) (h_audit h)"

definition about_call :: "clock \<Rightarrow> ctx \<Rightarrow> string \<Rightarrow> string \<Rightarrow> Entry \<Rightarrow> bool" where
  "about_call clk c db s e \<longleftrightarrow>
     e_SQL e = s \<and> e_Database e = db \<and> e_UserID e = GetUserID c \<and> e_UserEmail e = GetUserEmail c \<and>
     Timestamp e = zero_time"

lemma about_query_entry [simp]: "about_call clk c db s (query_entry clk c db s ty st re n)"
  by (simp add: about_call_def query_entry_def)

lemma query_entry_fields [simp]:
  "e_Status (query_entry clk c db s ty st re n) = st"
  "e_SQLType (query_entry clk c db s ty st re n) = ty"
  "e_BlockReason (query_entry clk c db s ty st re n) = re"
  "e_RowsAffected (query_entry clk c db s ty st re n) = n"
  by (simp_all add: query_entry_def)

lemma routed_audit: "routed t h h' \<Longrightarrow> h_audit h' = h_audit h"
  using routed_same_handler [of t h h'] by (simp add: same_handler_def)

lemma executeQuery_audit:
  assumes inv: "audit_inv (h_audit h)" and ex: "executeQuery drv tidb clk c db s h = Ret (r, h')"
  shows "(\<exists>e. audited clk e h h' \<and> about_call clk c db s e \<and>
        e_Status e = (case r of Inr _ \<Rightarrow> ''success''
                      | Inl _ \<Rightarrow> if \<exists>p. Parse tidb s = Inr (Some p) \<and> \<not> policy (chk_rules (h_checker h)) (SqlType p)
                                then ''blocked'' else ''error'')) \<or>
     (h_audit h' = h_audit h \<and> (\<exists>err p. r = Inl err \<and> Parse tidb s = Inr (Some p) \<and> is_read (SqlType p) \<and>
        (\<exists>rows. fst (Router_Query drv (getQueryTimeout h) db (executed_text h p s) [] h) = Inr rows)))"
proof (cases rule: executeQuery_cases [OF inv, of tidb s drv clk c db,
      consumes 0, case_names no_statement unparsed blocked reads writes])
  case (unparsed e)
  then show ?thesis using ex by (intro disjI1) (auto simp: audited_def Parse_def)
next
  case (blocked p)
  then show ?thesis using ex by (intro disjI1) (auto simp: audited_def)
next
  case (reads p q ws)
  have rd: "routed (getQueryTimeout h) h h1"
    if "Router_Query drv (getQueryTimeout h) db q [] h = (res, h1)" for res h1
    using routed_Query [of "getQueryTimeout h" h drv db q "[]"] that by simp
  from reads rewrite_step_text [of h p s q ws] ex rd show ?thesis
    by (cases rule: run_read_cases [OF inv, of drv db q clk c s p ws, consumes 0, case_names refused lost answered])
      (auto simp: audited_def dest!: routed_audit)
next
  case (writes p q ws)
  have rd: "routed (getQueryTimeout h) h h1"
    if "Router_Exec drv (getQueryTimeout h) db q h = (res, h1)" for res h1
    using routed_Exec [of "getQueryTimeout h" h drv db q] that by simp
  from writes ex rd show ?thesis
    by (cases rule: run_write_cases [OF inv, of drv db q clk c s p ws, consumes 0, case_names refused wrote])
      (auto simp: audited_def dest!: routed_audit)
qed (use ex in auto)

lemma handler_inv_note:
  "handler_inv h \<Longrightarrow> handler_inv (note_entry clk e h)"
  by (simp add: handler_inv_def audit_inv_write_calls)

lemma executeQuery_inv:
  assumes inv: "handler_inv h" and ex: "executeQuery drv tidb clk c db s h = Ret (r, h')"
  shows "handler_inv h'"
proof -
  have ainv: "audit_inv (h_audit h)" using inv by (simp add: handler_inv_def)
  show ?thesis
  proof (cases rule: executeQuery_cases [OF ainv, of tidb s drv clk c db,
        consumes 0, case_names no_statement unparsed blocked reads writes])
    case (reads p q ws)
    have "handler_inv h1" if "Router_Query drv (getQueryTimeout h) db q [] h = (res, h1)" for res h1
      using handler_inv_routed [OF inv routed_Query] that by (metis snd_conv)
    with reads ex show ?thesis
      by (cases rule: run_read_cases [OF ainv, of drv db q clk c s p ws, consumes 0, case_names refused lost answered])
        (auto intro!: handler_inv_note)
  next
    case (writes p q ws)
    have "handler_inv h1" if "Router_Exec drv (getQueryTimeout h) db q h = (res, h1)" for res h1
      using handler_inv_routed [OF inv routed_Exec] that by (metis snd_conv)
    with writes ex show ?thesis
      by (cases rule: run_write_cases [OF ainv, of drv db q clk c s p ws, consumes 0, case_names refused wrote])
        (auto intro!: handler_inv_note)
  qed (use ex inv in \<open>auto intro!: handler_inv_note\<close>)
qed

section \<open>A query on the handle itself\<close>

definition meta_events :: "nat \<Rightarrow> int \<Rightarrow> string \<Rightarrow> sql_arg list \<Rightarrow> event list" where
  "meta_events k t query args = [Event k t ReqConnect, Event k t (ReqQuery query args)]"

text \<open>The state after the query, with its rows closed when there are any.\<close>

definition after_rows :: "(go_error + sql_rows) \<times> 'a world_scheme \<Rightarrow> 'a world_scheme" where
  "after_rows rw = (case fst rw of Inl e \<Rightarrow> snd rw | Inr rows \<Rightarrow> rows_Close rows (snd rw))"

lemma db_Query_cases:
  obtains (failed) e where "db_Query drv t k q args w = (Inl e, w)"
  | (unconnected) e where "db_Query drv t k q args w = (Inl e, send k t ReqConnect w)"
  | (refused) e where "db_Query drv t k q args w =
      (Inl e, give_back k (send k t (ReqQuery q args) (acquire k (send k t ReqConnect w))))"
  | (answered) rows where "db_Query drv t k q args w =
      (Inr rows, send k t (ReqQuery q args) (acquire k (send k t ReqConnect w)))"
      and "rows_owner rows = Some k"
proof (cases rule: db_Conn_cases [of drv t k w])
  case (3 d)
  let ?w = "acquire k (send k t ReqConnect w)"
  show thesis
    by (cases "drv_query drv (trace ?w) k q args")
      (use 3 refused answered in \<open>auto simp: db_Query_def\<close>)
qed (use failed unconnected in \<open>auto simp: db_Query_def\<close>)

lemma after_db_Query:
  fixes r :: "'a router_scheme" and drv t k q args
  defines "r' \<equiv> after_rows (db_Query drv t k q args r)"
  shows "dbs r' = dbs r" and "routed t r r'"
    and "\<exists>es. trace r' = trace r @ es \<and> prefix es (meta_events k t q args)"
proof -
  have gb: "dbs (give_back k (send k t (ReqQuery q args) (acquire k (send k t ReqConnect r)))) = dbs r"
    using dbs_cong_world(2) [of "send k t (ReqQuery q args) (acquire k (send k t ReqConnect r))"
        "acquire k r" k]
    by (simp add: db_laws)
  have rt: "routed t r (give_back k (send k t (ReqQuery q args) (acquire k (send k t ReqConnect r))))"
    by (intro routed_world routed_refl)
  have tr: "trace (give_back k (send k t (ReqQuery q args) (acquire k (send k t ReqConnect r)))) =
      trace r @ meta_events k t q args"
    by (simp add: meta_events_def db_laws state_frame)
  have "dbs r' = dbs r \<and> routed t r r' \<and> (\<exists>es. trace r' = trace r @ es \<and> prefix es (meta_events k t q args))"
    by (cases rule: db_Query_cases [where drv = drv and t = t and k = k and q = q and args = args and w = r])
      (use gb rt tr in \<open>auto simp: r'_def after_rows_def rows_Close_def state_frame db_laws routed_send
         meta_events_def\<close>)
  then show "dbs r' = dbs r" and "routed t r r'"
    and "\<exists>es. trace r' = trace r @ es \<and> prefix es (meta_events k t q args)" by auto
qed

lemma with_rows_eq:
  "with_rows drv dbName query args consume h =
     (case GetDB dbName h of
        (Inl e, h1) \<Rightarrow> (Inl e, h1)
      | (Inr db, h1) \<Rightarrow>
          let rw = db_Query drv (getQueryTimeout h1) db query args h1
          in ((case fst rw of Inl e \<Rightarrow> Inl e | Inr rows \<Rightarrow> consume rows), after_rows rw))"
  by (auto simp: with_rows_def after_rows_def Let_def split: prod.splits sum.splits)

lemma with_rows_laws:
  fixes h :: "'a handler_scheme" and drv dbName query args consume
  defines "h' \<equiv> snd (with_rows drv dbName query args consume h)"
  shows "dbs h' = dbs h" and "routed (getQueryTimeout h) h h'"
    and "\<exists>k es. trace h' = trace h @ es \<and> (es \<noteq> [] \<longrightarrow> routes_to dbName k h) \<and>
      prefix es (meta_events k (getQueryTimeout h) query args)"
proof -
  have "dbs h' = dbs h \<and> routed (getQueryTimeout h) h h' \<and>
    (\<exists>k es. trace h' = trace h @ es \<and> (es \<noteq> [] \<longrightarrow> routes_to dbName k h) \<and>
      prefix es (meta_events k (getQueryTimeout h) query args))"
  proof (cases "GetDB dbName h")
    case (Pair res h1)
    have rd: "routed (getQueryTimeout h) h h1" by (rule routed_after_GetDB [OF Pair])
    have t1: "getQueryTimeout h1 = getQueryTimeout h"
      by (rule same_handler_limits [OF routed_same_handler [OF rd]])
    note fr = GetDB_dbs [OF Pair] GetDB_trace [OF Pair]
    show ?thesis
    proof (cases res)
      case (Inl e)
      with Pair fr rd show ?thesis by (auto simp: h'_def with_rows_eq)
    next
      case (Inr k)
      note a = after_db_Query [where drv = drv and t = "getQueryTimeout h" and k = k and q = query and args = args and r = h1]
      have "h' = after_rows (db_Query drv (getQueryTimeout h) k query args h1)"
        using Pair Inr t1 by (simp add: h'_def with_rows_eq Let_def)
      moreover have "routes_to dbName k h" using Pair Inr by (simp add: routes_to_def)
      ultimately show ?thesis using a fr routed_trans [OF rd a(2)] by auto
    qed
  qed
  then show "dbs h' = dbs h" and "routed (getQueryTimeout h) h h'"
    and "\<exists>k es. trace h' = trace h @ es \<and> (es \<noteq> [] \<longrightarrow> routes_to dbName k h) \<and>
      prefix es (meta_events k (getQueryTimeout h) query args)" by auto
qed

section \<open>Searching\<close>

lemma search_pattern_matches:
  "like_match (search_pattern p) s \<longleftrightarrow> sublist (to_lower p) s"
  unfolding search_pattern_def to_lower_escape by (rule like_match_contains)

lemma match_rows_bound:
  "int (length ms) \<le> n \<Longrightarrow> int (length (fst (match_rows n d items ms))) \<le> n"
  by (induction n d items ms rule: match_rows.induct) (auto split: sum.splits)

lemma match_rows_db:
  "\<exists>new. fst (match_rows n d items ms) = ms @ new \<and> (\<forall>m \<in> set new. tm_Database m = d)"
  by (induction n d items ms rule: match_rows.induct) (auto split: sum.splits)

definition search_event :: "int \<Rightarrow> string \<Rightarrow> string list \<Rightarrow> event \<Rightarrow> bool" where
  "search_event t pattern names e \<longleftrightarrow>
     ev_timeout e = t \<and>
     (ev_req e = ReqConnect \<or>
      (\<exists>d n. d \<in> set names \<and> ev_req e = ReqQuery search_query [ArgString d, ArgString pattern, ArgInt n]))"

lemma search_event_mono: "search_event t p ns e \<Longrightarrow> set ns \<subseteq> set ns' \<Longrightarrow> search_event t p ns' e"
  by (auto simp: search_event_def)

text \<open>One round of the loop.\<close>

definition search_round ::
  "driver \<Rightarrow> int \<Rightarrow> string \<Rightarrow> int \<Rightarrow> string \<Rightarrow> TableMatch list \<Rightarrow> 'a handler_scheme \<Rightarrow>
     TableMatch list \<times> bool \<times> 'a handler_scheme" where
  "search_round drv t pattern n d ms h =
     (case GetDB d h of
        (Inl e, h1) \<Rightarrow> (ms, False, h1)
      | (Inr db, h1) \<Rightarrow>
          if n - int (length ms) \<le> 0 then (ms, True, h1)
          else let rw = db_Query drv t db search_query
                     [ArgString d, ArgString pattern, ArgInt (n - int (length ms) + 1)] h1;
                   mt = (case fst rw of Inl e \<Rightarrow> (ms, False) | Inr rows \<Rightarrow> match_rows n d (rd_items rows) ms)
               in (fst mt, snd mt, after_rows rw))"

lemma search_loop_step:
  "search_loop drv t pattern n (d # ds) ms h =
     (case search_round drv t pattern n d ms h of
        (ms', True, h') \<Rightarrow> (ms', True, h')
      | (ms', False, h') \<Rightarrow> search_loop drv t pattern n ds ms' h')"
  by (auto simp: search_round_def after_rows_def Let_def split: prod.splits sum.splits bool.splits)

declare search_loop.simps(2) [simp del]

lemma search_round_laws:
  assumes "search_round drv t pattern n d ms h = (ms', b, h')" and "int (length ms) \<le> n"
  shows "int (length ms') \<le> n" and "\<exists>new. ms' = ms @ new \<and> (\<forall>m \<in> set new. tm_Database m = d)"
    and "dbs h' = dbs h" and "routed t h h'"
    and "\<exists>es. trace h' = trace h @ es \<and> (\<forall>e \<in> set es. search_event t pattern [d] e)"
proof -
  obtain res h1 where g: "GetDB d h = (res, h1)" by fastforce
  note fr = GetDB_dbs [OF g] GetDB_trace [OF g] and rd = routed_after_GetDB [OF g, of t]
  have "int (length ms') \<le> n \<and> (\<exists>new. ms' = ms @ new \<and> (\<forall>m \<in> set new. tm_Database m = d)) \<and>
    dbs h' = dbs h \<and> routed t h h' \<and>
    (\<exists>es. trace h' = trace h @ es \<and> (\<forall>e \<in> set es. search_event t pattern [d] e))"
  proof (cases "(\<exists>e. res = Inl e) \<or> n - int (length ms) \<le> 0")
    case True
    then have "ms' = ms \<and> h' = h1"
      using assms(1) g by (cases res) (auto simp: search_round_def)
    with assms(2) fr rd show ?thesis by auto
  next
    case False
    then obtain k where k: "res = Inr k" by (cases res) auto
    let ?args = "[ArgString d, ArgString pattern, ArgInt (n - int (length ms) + 1)]"
    let ?rw = "db_Query drv t k search_query ?args h1"
    let ?mt = "case fst ?rw of Inl e \<Rightarrow> (ms, False) | Inr rows \<Rightarrow> match_rows n d (rd_items rows) ms"
    have ms': "ms' = fst ?mt" and h': "h' = after_rows ?rw"
      using False g k assms(1) by (auto simp: search_round_def Let_def)
    note a = after_db_Query [where drv = drv and t = t and k = k and q = search_query and args = ?args and r = h1, folded h']
    obtain es where es: "trace h' = trace h @ es" "prefix es (meta_events k t search_query ?args)"
      using a(3) fr by auto
    have "search_event t pattern [d] e" if "e \<in> set es" for e
      using set_mono_prefix [OF es(2)] that by (auto simp: meta_events_def search_event_def)
    then have "\<forall>e \<in> set es. search_event t pattern [d] e" by blast
    moreover have "int (length ms') \<le> n"
      using assms(2) match_rows_bound [of ms n d] by (auto simp: ms' split: sum.split)
    moreover have "\<exists>new. ms' = ms @ new \<and> (\<forall>m \<in> set new. tm_Database m = d)"
      using match_rows_db [of n d _ ms] by (auto simp: ms' split: sum.split)
    ultimately show ?thesis using a(1) fr(1) routed_trans [OF rd a(2)] es(1) by auto
  qed
  then show "int (length ms') \<le> n" and "\<exists>new. ms' = ms @ new \<and> (\<forall>m \<in> set new. tm_Database m = d)"
    and "dbs h' = dbs h" and "routed t h h'"
    and "\<exists>es. trace h' = trace h @ es \<and> (\<forall>e \<in> set es. search_event t pattern [d] e)" by auto
qed

lemma search_loop_laws:
  assumes "search_loop drv t pattern n ds ms h = (ms', b, h')" and "int (length ms) \<le> n"
  shows "int (length ms') \<le> n \<and> (\<exists>new. ms' = ms @ new \<and> (\<forall>m \<in> set new. tm_Database m \<in> set ds)) \<and>
     dbs h' = dbs h \<and> routed t h h' \<and>
     (\<exists>es. trace h' = trace h @ es \<and> (\<forall>e \<in> set es. search_event t pattern ds e))"
  using assms
proof (induction ds arbitrary: ms h)
  case (Cons d ds)
  obtain ms1 b1 h1 where r: "search_round drv t pattern n d ms h = (ms1, b1, h1)" by (metis prod_cases3)
  note l = search_round_laws [OF r Cons.prems(2)]
  obtain es new where es: "trace h1 = trace h @ es" "\<forall>e \<in> set es. search_event t pattern [d] e"
    and new: "ms1 = ms @ new" "\<forall>m \<in> set new. tm_Database m = d" using l(2,5) by auto
  have mono: "\<forall>e \<in> set es. search_event t pattern (d # ds) e"
    using es(2) by (auto intro: search_event_mono)
  show ?case
  proof (cases b1)
    case True
    with Cons.prems(1) r l new es(1) mono show ?thesis by (auto simp: search_loop_step)
  next
    case False
    then have "search_loop drv t pattern n ds ms1 h1 = (ms', b, h')"
      using Cons.prems(1) r by (simp add: search_loop_step)
    from Cons.IH [OF this l(1)] obtain es' new' where ih: "int (length ms') \<le> n"
      "ms' = ms1 @ new'" "\<forall>m \<in> set new'. tm_Database m \<in> set ds" "dbs h' = dbs h1" "routed t h1 h'"
      "trace h' = trace h1 @ es'" "\<forall>e \<in> set es'. search_event t pattern ds e" by blast
    have "\<forall>e \<in> set es'. search_event t pattern (d # ds) e"
      using ih(7) by (auto intro: search_event_mono)
    with ih new l(3) routed_trans [OF l(4) ih(5)] es(1) mono show ?thesis by auto
  qed
qed auto

end
