(* ===== verification/Pool_New.thy ===== *)
theory Pool_New
  imports Pool_Update
begin

text \<open>
  \<open>NewPool\<close> and \<open>Close\<close>: the pool that is built satisfies the invariant and has one open
  handle per configured cluster; when a connection cannot be opened, or when the pool is closed, no
  handle of it stays open.
\<close>

section \<open>Closing\<close>

lemma close_all_frame:
  "clusters (snd (close_all drv names e s)) = clusters s" "mdbs (snd (close_all drv names e s)) = mdbs s"
  "next_mdb (snd (close_all drv names e s)) = next_mdb s" "next_db (snd (close_all drv names e s)) = next_db s"
  "configs (snd (close_all drv names e s)) = configs s"
  "pool.more (snd (close_all drv names e s)) = pool.more s"
  by (induction names arbitrary: s e)
    (simp_all add: db_Close_def state_frame upd_db_def split: option.split)

lemma close_all_Cons:
  "snd (close_all drv (n # names) e s) =
     (let s1 = (case clusters s n of None \<Rightarrow> s
          | Some p \<Rightarrow> (case mdbs s p of None \<Rightarrow> s
              | Some m \<Rightarrow> upd_db (mdb_db m) (\<lambda>d. d\<lparr>db_closed := True\<rparr>) s))
      in snd (close_all drv names (fst (close_all drv [n] e s)) s1))"
  by (simp add: db_Close_def Let_def split: option.split)

lemma close_all_is_open:
  "is_open h (snd (close_all drv names e s)) \<longleftrightarrow>
     is_open h s \<and> (\<forall>n \<in> set names. \<forall>p m. clusters s n = Some p \<and> mdbs s p = Some m \<longrightarrow> mdb_db m \<noteq> h)"
proof (induction names arbitrary: s e)
  case (Cons n names)
  have upd: "is_open h (upd_db k (\<lambda>d. d\<lparr>db_closed := True\<rparr>) s) \<longleftrightarrow> h \<noteq> k \<and> is_open h s" for k
    by (auto simp: is_open_def upd_db_lookup split: option.splits)
  show ?case
    unfolding close_all_Cons Let_def Cons.IH
    by (cases "clusters s n"; cases "mdbs s (the (clusters s n))") (auto simp: upd state_frame)
qed simp

text \<open>Every open handle belongs to a cluster of the map.\<close>

definition handles_owned :: "'a pool_scheme \<Rightarrow> bool" where
  "handles_owned s \<longleftrightarrow>
     (\<forall>h. is_open h s \<longrightarrow> (\<exists>n p m. clusters s n = Some p \<and> mdbs s p = Some m \<and> mdb_db m = h))"

lemma Pool_Close_closes:
  assumes "handles_owned s" and "set (dom_order) = dom (clusters s)"
  shows "\<not> is_open h (snd (Pool_Close drv dom_order s))"
proof
  assume "is_open h (snd (Pool_Close drv dom_order s))"
  then have op: "is_open h (snd (close_all drv dom_order None s))"
    by (simp add: Pool_Close_def is_open_def case_prod_beta)
  then obtain n p m where "clusters s n = Some p" "mdbs s p = Some m" "mdb_db m = h"
    using assms(1) by (auto simp: close_all_is_open handles_owned_def)
  with op assms(2) show False by (auto simp: close_all_is_open)
qed

lemma Pool_Close_clusters: "clusters (snd (Pool_Close drv names s)) = (\<lambda>_. None)"
  by (simp add: Pool_Close_def case_prod_beta)

lemma Pool_Close_more [state_frame]: "pool.more (snd (Pool_Close drv names s)) = pool.more s"
  by (simp add: Pool_Close_def case_prod_beta close_all_frame)

section \<open>Building\<close>

definition empty_pool :: pool where
  "empty_pool =
     \<lparr>dbs = (\<lambda>_. None), next_db = 0, trace = [], mdbs = (\<lambda>_. None), next_mdb = 0,
      clusters = (\<lambda>_. None), configs = (\<lambda>_. None)\<rparr>"

lemma pool_inv_empty: "pool_inv empty_pool"
  by (simp add: pool_inv_def empty_pool_def)

lemma handles_owned_empty: "handles_owned empty_pool"
  by (simp add: handles_owned_def empty_pool_def is_open_def)

lemma handles_owned_open_cluster:
  assumes inv: "pool_inv s" and own: "handles_owned s" and new: "clusters s name = None"
  shows "handles_owned (open_cluster name cfg s)"
  unfolding handles_owned_def
proof (intro allI impI)
  fix h
  assume op: "is_open h (open_cluster name cfg s)"
  let ?s = "open_cluster name cfg s"
  show "\<exists>n p m. clusters ?s n = Some p \<and> mdbs ?s p = Some m \<and> mdb_db m = h"
  proof (cases "h = next_db s")
    case True
    then have "clusters ?s name = Some (next_mdb s)"
      and "mdbs ?s (next_mdb s) = Some \<lparr>mdb_db = h, refCount = 0, closing = 0\<rparr>"
      by (simp_all add: open_cluster_def)
    then show ?thesis by fastforce
  next
    case False
    then have "is_open h s" using op by (simp add: is_open_def open_cluster_def)
    then obtain n p m where n: "clusters s n = Some p" "mdbs s p = Some m" "mdb_db m = h"
      using own by (auto simp: handles_owned_def)
    then have "n \<noteq> name" and "p \<noteq> next_mdb s"
      using new pool_invD(5) [OF inv, of p] by auto
    then have "clusters ?s n = Some p" and "mdbs ?s p = Some m" using n by (simp_all add: open_cluster_def)
    with n(3) show ?thesis by blast
  qed
qed

lemma connect_all_step:
  "connect_all drv order cfgs opened (name # names) s =
     (case cfgs name of
        None \<Rightarrow> connect_all drv order cfgs opened names s
      | Some cfg \<Rightarrow>
          (case drv_open drv (GetDSN cfg) of
             Some e \<Rightarrow>
               (Some (''connect to cluster '' @ name @ '': open connection: '' @ e),
                snd (Pool_Close drv (order opened) s))
           | None \<Rightarrow> connect_all drv order cfgs (opened @ [name]) names (open_cluster name cfg s)))"
proof (cases "cfgs name")
  case (Some cfg)
  show ?thesis
  proof (cases "drv_open drv (GetDSN cfg)")
    case None
    with Some connect_install [OF None, of s name] show ?thesis by auto
  qed (simp add: Some connect_error)
qed simp

declare connect_all.simps(2) [simp del]

lemma connect_all_laws:
  assumes "pool_inv s" and "handles_owned s" and "dom (clusters s) = set opened"
    and "distinct (opened @ names)" and "\<And>ns. set (order ns) = set ns"
    and "connect_all drv order cfgs opened names s = (res, s')"
  shows "(res = None \<longrightarrow> pool_inv s' \<and> handles_owned s' \<and> configs s' = configs s \<and>
       dom (clusters s') = set opened \<union> (set names \<inter> dom cfgs)) \<and>
     (res \<noteq> None \<longrightarrow> (\<forall>h. \<not> is_open h s') \<and> clusters s' = (\<lambda>_. None))"
  using assms
proof (induction names arbitrary: s opened)
  case (Cons name names)
  show ?case
  proof (cases "cfgs name")
    case None
    then show ?thesis using Cons.IH [of s opened] Cons.prems by (auto simp: connect_all_step)
  next
    case (Some cfg)
    show ?thesis
    proof (cases "drv_open drv (GetDSN cfg)")
      case (Some e)
      then have "s' = snd (Pool_Close drv (order opened) s)" "res \<noteq> None"
        using \<open>cfgs name = Some cfg\<close> Cons.prems(6) by (auto simp: connect_all_step)
      then show ?thesis
        using Pool_Close_closes [OF Cons.prems(2), of "order opened"] Cons.prems(3,5)
        by (auto simp: Pool_Close_clusters)
    next
      case None
      let ?s = "open_cluster name cfg s"
      have new: "clusters s name = None" using Cons.prems(3,4) by (auto simp: dom_def)
      have dm: "dom (clusters ?s) = set (opened @ [name])"
        using Cons.prems(3) by (auto simp: open_cluster_def)
      have cf: "configs ?s = configs s" by (simp add: open_cluster_def)
      have "connect_all drv order cfgs (opened @ [name]) names ?s = (res, s')"
        using None Some Cons.prems(6) by (simp add: connect_all_step)
      from Cons.IH [OF pool_inv_open_cluster [OF Cons.prems(1)]
          handles_owned_open_cluster [OF Cons.prems(1,2) new] dm _ Cons.prems(5) this]
      show ?thesis using Cons.prems(4) Some cf by auto
    qed
  qed
qed simp

lemma NewPool_laws:
  assumes "ranges_over names cfgs" and "\<And>ns. set (order ns) = set ns"
    and "NewPool drv order names cfgs empty_pool = (res, s')"
  shows "res = None \<Longrightarrow> pool_inv s' \<and> handles_owned s' \<and> configs s' = cfgs \<and> dom (clusters s') = dom cfgs"
    and "res \<noteq> None \<Longrightarrow> (\<forall>h. \<not> is_open h s')"
proof -
  let ?s = "empty_pool\<lparr>clusters := (\<lambda>_. None), configs := cfgs\<rparr>"
  have "pool_inv ?s" "handles_owned ?s"
    using pool_inv_empty by (simp_all add: pool_inv_def handles_owned_def empty_pool_def is_open_def)
  moreover have "dom (clusters ?s) = set []" by simp
  moreover have "distinct ([] @ names)" using ranges_overD(1) [OF assms(1)] by simp
  moreover have "connect_all drv order cfgs [] names ?s = (res, s')"
    using assms(3) by (simp add: NewPool_def)
  ultimately have "(res = None \<longrightarrow> pool_inv s' \<and> handles_owned s' \<and> configs s' = configs ?s \<and>
       dom (clusters s') = set [] \<union> (set names \<inter> dom cfgs)) \<and>
     (res \<noteq> None \<longrightarrow> (\<forall>h. \<not> is_open h s') \<and> clusters s' = (\<lambda>_. None))"
    using assms(2) by (intro connect_all_laws) auto
  then show "res = None \<Longrightarrow> pool_inv s' \<and> handles_owned s' \<and> configs s' = cfgs \<and> dom (clusters s') = dom cfgs"
    and "res \<noteq> None \<Longrightarrow> (\<forall>h. \<not> is_open h s')"
    using assms(1) by (auto simp: ranges_over_def)
qed

end
