(* ===== verification/Metrics.thy ===== *)
theory Metrics
  imports Go_Strings Complex_Main
begin

text \<open>
  \<open>internal/metrics/metrics.go\<close>: the metric vectors, their registration and the recording
  operations.

  The Prometheus client is third-party, so the state of a \<open>Metrics\<close> is the sequence of calls
  made on its vectors. Two things the client documents are predicates here: a call is
  \<open>well_formed\<close> when its vector exists with that kind and as many labels as values are given
  (\<open>WithLabelValues\<close> panics otherwise), and a registration is possible when no two names are
  equal (\<open>MustRegister\<close> panics otherwise). \<open>counted\<close> reads a counter off the calls.
  Durations in seconds are exact rationals.
\<close>

section \<open>The vectors\<close>

datatype metric =
    RequestsTotal | RequestDuration | RequestsActive
  | QueriesTotal | QueryDuration | QueriesActive | QueryRows
  | SQLInjectionAttempts | BlockedQueries | SecurityViolations
  | RateLimitExceeded
  | AuthAttempts | AuthFailures
  | DBConnectionsActive | DBConnectionsIdle | DBQueriesTotal | DBQueryErrors
  | MCPCallsTotal | MCPCallDuration | MCPErrors

datatype metric_kind = CounterVec | HistogramVec "rat list" | Gauge | GaugeVec

record metric_desc =
  md_kind :: metric_kind
  md_name :: string
  md_help :: string
  md_labels :: "string list"

definition desc :: "metric_kind \<Rightarrow> string \<Rightarrow> string \<Rightarrow> string list \<Rightarrow> metric_desc" where
  "desc k n h ls = \<lparr>md_kind = k, md_name = n, md_help = h, md_labels = ls\<rparr>"

definition request_buckets :: "rat list" where
  "request_buckets = [1/1000, 5/1000, 1/100, 25/1000, 5/100, 1/10, 25/100, 5/10, 1, 25/10, 5, 10]"

definition query_buckets :: "rat list" where
  "query_buckets = [1/1000, 5/1000, 1/100, 25/1000, 5/100, 1/10, 25/100, 5/10, 1, 25/10, 5]"

definition row_buckets :: "rat list" where
  "row_buckets = [0, 1, 5, 10, 50, 100, 500, 1000, 5000, 10000]"

text \<open>The descriptions of the last four vectors, by name.\<close>

definition db_query_errors_desc :: metric_desc where
  "db_query_errors_desc =
     desc CounterVec ''db_query_errors_total'' ''Total database query errors'' [''cluster'', ''error_type'']"

definition mcp_calls_desc :: metric_desc where
  "mcp_calls_desc = desc CounterVec ''mcp_calls_total'' ''Total number of MCP tool calls'' [''tool'']"

definition mcp_call_duration_desc :: metric_desc where
  "mcp_call_duration_desc =
     desc (HistogramVec query_buckets) ''mcp_call_duration_seconds'' ''MCP tool call duration in seconds'' [''tool'']"

definition mcp_errors_desc :: metric_desc where
  "mcp_errors_desc = desc CounterVec ''mcp_errors_total'' ''Total MCP tool call errors'' [''tool'', ''error_type'']"

declare db_query_errors_desc_def [simp] mcp_calls_desc_def [simp] mcp_call_duration_desc_def [simp]
  mcp_errors_desc_def [simp]

fun metric_of :: "metric \<Rightarrow> metric_desc" where
  "metric_of RequestsTotal =
     desc CounterVec ''http_requests_total'' ''Total number of HTTP requests'' [''method'', ''path'', ''status'']"
| "metric_of RequestDuration =
     desc (HistogramVec request_buckets) ''http_request_duration_seconds''
       ''HTTP request duration in seconds'' [''method'', ''path'']"
| "metric_of RequestsActive = desc Gauge ''http_requests_active'' ''Number of active HTTP requests'' []"
| "metric_of QueriesTotal =
     desc CounterVec ''db_queries_total'' ''Total number of database queries'' [''database'', ''operation'']"
| "metric_of QueryDuration =
     desc (HistogramVec query_buckets) ''db_query_duration_seconds''
       ''Database query duration in seconds'' [''database'', ''operation'']"
| "metric_of QueriesActive = desc Gauge ''db_queries_active'' ''Number of active database queries'' []"
| "metric_of QueryRows =
     desc (HistogramVec row_buckets) ''db_query_rows'' ''Number of rows returned by queries'' [''database'']"
| "metric_of SQLInjectionAttempts =
     desc CounterVec ''security_sql_injection_attempts_total''
       ''Total number of SQL injection attempts detected'' [''database'']"
| "metric_of BlockedQueries =
     desc CounterVec ''security_blocked_queries_total'' ''Total number of blocked queries''
       [''database'', ''reason'']"
| "metric_of SecurityViolations =
     desc CounterVec ''security_violations_total'' ''Total number of security violations'' [''type'']"
| "metric_of RateLimitExceeded =
     desc CounterVec ''rate_limit_exceeded_total'' ''Total number of rate limit exceeded events'' [''ip'']"
| "metric_of AuthAttempts =
     desc CounterVec ''auth_attempts_total'' ''Total number of authentication attempts'' [''method'']"
| "metric_of AuthFailures =
     desc CounterVec ''auth_failures_total'' ''Total number of authentication failures''
       [''method'', ''reason'']"
| "metric_of DBConnectionsActive =
     desc GaugeVec ''db_connections_active'' ''Number of active database connections'' [''cluster'']"
| "metric_of DBConnectionsIdle =
     desc GaugeVec ''db_connections_idle'' ''Number of idle database connections'' [''cluster'']"
| "metric_of DBQueriesTotal =
     desc CounterVec ''db_connection_queries_total'' ''Total queries per database connection'' [''cluster'']"
| "metric_of DBQueryErrors = db_query_errors_desc"
| "metric_of MCPCallsTotal = mcp_calls_desc"
| "metric_of MCPCallDuration = mcp_call_duration_desc"
| "metric_of MCPErrors = mcp_errors_desc"

definition registered :: "metric list" where
  "registered =
     [RequestsTotal, RequestDuration, RequestsActive, QueriesTotal, QueryDuration, QueriesActive,
      QueryRows, SQLInjectionAttempts, BlockedQueries, SecurityViolations, RateLimitExceeded,
      AuthAttempts, AuthFailures, DBConnectionsActive, DBConnectionsIdle, DBQueriesTotal,
      DBQueryErrors, MCPCallsTotal, MCPCallDuration, MCPErrors]"

section \<open>The instance\<close>

datatype metric_call =
    Inc metric "string list"
  | Dec metric
  | Observe metric "string list" rat
  | SetGauge metric "string list" rat

record Metrics =
  m_namespace :: string
  m_calls :: "metric_call list"

text \<open>The package variable \<open>instance\<close> is passed along.\<close>

definition Metrics_Init :: "string \<Rightarrow> Metrics option \<Rightarrow> Metrics" where
  "Metrics_Init namespace inst =
     (case inst of Some m \<Rightarrow> m | None \<Rightarrow> \<lparr>m_namespace = namespace, m_calls = []\<rparr>)"

definition Metrics_Get :: "Metrics option \<Rightarrow> Metrics" where
  "Metrics_Get inst = (case inst of None \<Rightarrow> Metrics_Init ''safemysql'' inst | Some m \<Rightarrow> m)"

definition call :: "metric_call \<Rightarrow> Metrics \<Rightarrow> Metrics" where
  "call c m = m\<lparr>m_calls := m_calls m @ [c]\<rparr>"

definition seconds :: "int \<Rightarrow> rat" where
  "seconds d = of_int d / 1000000000"

section \<open>Recording\<close>

definition RecordRequest :: "string \<Rightarrow> string \<Rightarrow> int \<Rightarrow> int \<Rightarrow> Metrics \<Rightarrow> Metrics" where
  "RecordRequest req_method path status duration m =
     call (Observe RequestDuration [req_method, path] (seconds duration))
       (call (Inc RequestsTotal [req_method, path, show_int status]) m)"

definition RecordQuery :: "string \<Rightarrow> string \<Rightarrow> int \<Rightarrow> int \<Rightarrow> Metrics \<Rightarrow> Metrics" where
  "RecordQuery database operation duration rows m =
     call (Observe QueryRows [database] (of_int rows))
       (call (Observe QueryDuration [database, operation] (seconds duration))
         (call (Inc QueriesTotal [database, operation]) m))"

definition RecordSecurityViolation :: "string \<Rightarrow> Metrics \<Rightarrow> Metrics" where
  "RecordSecurityViolation violationType = call (Inc SecurityViolations [violationType])"

definition RecordBlockedQuery :: "string \<Rightarrow> string \<Rightarrow> Metrics \<Rightarrow> Metrics" where
  "RecordBlockedQuery database reason = call (Inc BlockedQueries [database, reason])"

definition RecordRateLimitExceeded :: "string \<Rightarrow> Metrics \<Rightarrow> Metrics" where
  "RecordRateLimitExceeded ip = call (Inc RateLimitExceeded [ip])"

definition RecordAuthAttempt :: "string \<Rightarrow> bool \<Rightarrow> Metrics \<Rightarrow> Metrics" where
  "RecordAuthAttempt auth_method success m =
     (let m1 = call (Inc AuthAttempts [auth_method]) m
      in if \<not> success then call (Inc AuthFailures [auth_method, ''invalid'']) m1 else m1)"

definition RecordMCPCall :: "string \<Rightarrow> int \<Rightarrow> go_error option \<Rightarrow> Metrics \<Rightarrow> Metrics" where
  "RecordMCPCall tool duration err m =
     (let m1 = call (Observe MCPCallDuration [tool] (seconds duration)) (call (Inc MCPCallsTotal [tool]) m)
      in if err \<noteq> None then call (Inc MCPErrors [tool, ''execution'']) m1 else m1)"

definition UpdateDBConnections :: "string \<Rightarrow> int \<Rightarrow> int \<Rightarrow> Metrics \<Rightarrow> Metrics" where
  "UpdateDBConnections cluster active idle m =
     call (SetGauge DBConnectionsIdle [cluster] (of_int idle))
       (call (SetGauge DBConnectionsActive [cluster] (of_int active)) m)"

section \<open>Well-formed calls\<close>

fun well_formed :: "metric_call \<Rightarrow> bool" where
  "well_formed (Inc x ls) =
     (md_kind (metric_of x) \<in> {CounterVec, Gauge} \<and> length ls = length (md_labels (metric_of x)))"
| "well_formed (Dec x) = (md_kind (metric_of x) = Gauge)"
| "well_formed (Observe x ls v) =
     ((case md_kind (metric_of x) of HistogramVec _ \<Rightarrow> True | _ \<Rightarrow> False) \<and>
      length ls = length (md_labels (metric_of x)))"
| "well_formed (SetGauge x ls v) =
     (md_kind (metric_of x) = GaugeVec \<and> length ls = length (md_labels (metric_of x)))"

definition counted :: "metric \<Rightarrow> (string list \<Rightarrow> bool) \<Rightarrow> Metrics \<Rightarrow> nat" where
  "counted x P m = length (filter (\<lambda>c. case c of Inc y ls \<Rightarrow> y = x \<and> P ls | _ \<Rightarrow> False) (m_calls m))"

definition decremented :: "metric \<Rightarrow> Metrics \<Rightarrow> nat" where
  "decremented x m = length (filter (\<lambda>c. c = Dec x) (m_calls m))"

definition gauge_value :: "metric \<Rightarrow> Metrics \<Rightarrow> int" where
  "gauge_value x m = int (counted x (\<lambda>_. True) m) - int (decremented x m)"

lemma m_calls_call [simp]: "m_calls (call c m) = m_calls m @ [c]"
  by (simp add: call_def)

lemma counted_call [simp]:
  "counted x P (call c m) = counted x P m + (case c of Inc y ls \<Rightarrow> if y = x \<and> P ls then 1 else 0 | _ \<Rightarrow> 0)"
  by (auto simp: counted_def split: metric_call.split)

lemma gauge_value_call:
  "gauge_value x (call c m) = gauge_value x m +
     (case c of Inc y _ \<Rightarrow> if y = x then 1 else 0 | Dec y \<Rightarrow> if y = x then -1 else 0 | _ \<Rightarrow> 0)"
  by (auto simp: gauge_value_def decremented_def split: metric_call.split)

definition calls_ok :: "Metrics \<Rightarrow> bool" where
  "calls_ok m \<longleftrightarrow> list_all well_formed (m_calls m)"

lemma calls_ok_call [simp]: "calls_ok (call c m) \<longleftrightarrow> calls_ok m \<and> well_formed c"
  by (simp add: calls_ok_def)

lemmas record_defs =
  RecordRequest_def RecordQuery_def RecordSecurityViolation_def RecordBlockedQuery_def
  RecordRateLimitExceeded_def RecordAuthAttempt_def RecordMCPCall_def UpdateDBConnections_def

lemma calls_ok_record:
  assumes "calls_ok m"
  shows "calls_ok (RecordRequest a b n d m)" and "calls_ok (RecordQuery a b d n m)"
    and "calls_ok (RecordSecurityViolation a m)" and "calls_ok (RecordBlockedQuery a b m)"
    and "calls_ok (RecordRateLimitExceeded a m)" and "calls_ok (RecordAuthAttempt a ok m)"
    and "calls_ok (RecordMCPCall a d err m)" and "calls_ok (UpdateDBConnections a n k m)"
  using assms by (simp_all add: record_defs desc_def Let_def)

lemma registered_all: "set registered = UNIV"
proof -
  have "x \<in> set registered" for x by (cases x) (simp_all add: registered_def)
  then show ?thesis by blast
qed

lemma registered_names_distinct: "distinct (map (md_name \<circ> metric_of) registered)"
  by (simp add: registered_def desc_def)

end
