(* ===== verification/Go_Net.thy ===== *)
theory Go_Net
  imports Go_Strings
begin

text \<open>
  What the rate limiter uses of the \<open>net\<close> package: whether \<open>net.ParseIP\<close> accepts a
  text, and the host part of \<open>net.SplitHostPort\<close>.

  \<open>ParseIP\<close> accepts dotted decimal IPv4 without leading zeros and IPv6 with one ellipsis and an
  optional trailing IPv4, and no zone.
\<close>

section \<open>IP addresses\<close>

definition octet :: "string \<Rightarrow> bool" where
  "octet s \<longleftrightarrow>
     s \<noteq> [] \<and> list_all is_digit s \<and> dec_value s \<le> 255 \<and> (length s = 1 \<or> hd s \<noteq> CHR ''0'')"

definition valid_ipv4 :: "string \<Rightarrow> bool" where
  "valid_ipv4 s \<longleftrightarrow> length (split_on (CHR ''.'') s) = 4 \<and> list_all octet (split_on (CHR ''.'') s)"

definition is_hex :: "char \<Rightarrow> bool" where
  "is_hex c \<longleftrightarrow> is_digit c \<or> (97 \<le> (of_char c :: nat) \<and> (of_char c :: nat) \<le> 102) \<or>
     (65 \<le> (of_char c :: nat) \<and> (of_char c :: nat) \<le> 70)"

text \<open>
  The loop over the 16-bit groups: \<open>i\<close> bytes are filled, \<open>ell\<close> says that an ellipsis was
  read. At the end the text must be used up, and an ellipsis must stand for at least one group.
\<close>

definition ipv6_end :: "nat \<Rightarrow> bool \<Rightarrow> string \<Rightarrow> bool" where
  "ipv6_end i ell s \<longleftrightarrow> s = [] \<and> (if i < 16 then ell else \<not> ell)"

function ipv6_groups :: "nat \<Rightarrow> bool \<Rightarrow> string \<Rightarrow> bool" where
  "ipv6_groups i ell s =
     (if i \<ge> 16 then ipv6_end i ell s
      else
        let digits = takeWhile is_hex s; rest = dropWhile is_hex s in
        if digits = [] \<or> length digits > 4 then False
        else case rest of
          [] \<Rightarrow> ipv6_end (i + 2) ell []
        | c # t \<Rightarrow>
            if c = CHR ''.'' then
              (ell \<or> i = 12) \<and> i + 4 \<le> 16 \<and> valid_ipv4 s \<and> ipv6_end (i + 4) ell []
            else if c \<noteq> CHR '':'' then False
            else case t of
              [] \<Rightarrow> False
            | d # u \<Rightarrow>
                if d = CHR '':'' then
                  \<not> ell \<and> (if u = [] then ipv6_end (i + 2) True [] else ipv6_groups (i + 2) True u)
                else ipv6_groups (i + 2) ell t)"
  by pat_completeness auto
termination
  by (relation "measure (\<lambda>(i, ell, s). 16 - i)") auto

definition valid_ipv6 :: "string \<Rightarrow> bool" where
  "valid_ipv6 s \<longleftrightarrow>
     CHR ''%'' \<notin> set s \<and>
     (if take 2 s = ''::'' then (if drop 2 s = [] then True else ipv6_groups 0 True (drop 2 s))
      else ipv6_groups 0 False s)"

text \<open>The first dot, colon or percent sign decides which of the two is tried.\<close>

definition isValidIP :: "string \<Rightarrow> bool" where
  "isValidIP s \<longleftrightarrow>
     (case find (\<lambda>c. c \<in> {CHR ''.'', CHR '':'', CHR ''%''}) s of
        None \<Rightarrow> False
      | Some c \<Rightarrow> if c = CHR ''.'' then valid_ipv4 s else if c = CHR '':'' then valid_ipv6 s else False)"

section \<open>Host and port\<close>

text \<open>The index of the last colon, and of the first of a byte.\<close>

definition last_index :: "char \<Rightarrow> string \<Rightarrow> nat option" where
  "last_index c s =
     (if c \<in> set s then Some (length s - 1 - length (takeWhile (\<lambda>d. d \<noteq> c) (rev s))) else None)"

definition first_index :: "char \<Rightarrow> string \<Rightarrow> nat option" where
  "first_index c s = (if c \<in> set s then Some (length (takeWhile (\<lambda>d. d \<noteq> c) s)) else None)"

text \<open>\<open>None\<close> is an error.\<close>

definition SplitHostPort_host :: "string \<Rightarrow> string option" where
  "SplitHostPort_host hp =
     (case last_index (CHR '':'') hp of
        None \<Rightarrow> None
      | Some i \<Rightarrow>
          if hd hp = CHR ''['' then
            (case first_index (CHR '']'') hp of
               None \<Rightarrow> None
             | Some e \<Rightarrow>
                 if e + 1 = length hp \<or> e + 1 \<noteq> i then None
                 else if CHR ''['' \<in> set (drop 1 hp) \<or> CHR '']'' \<in> set (drop (e + 1) hp) then None
                 else Some (take (e - 1) (drop 1 hp)))
          else if CHR '':'' \<in> set (take i hp) \<or> CHR ''['' \<in> set hp \<or> CHR '']'' \<in> set hp then None
          else Some (take i hp))"

lemma takeWhile_all_until: "c \<notin> set p \<Longrightarrow> takeWhile (\<lambda>d. d \<noteq> c) (p @ c # s) = p"
  by (induction p) auto

lemma last_index_last: "CHR '':'' \<notin> set p \<Longrightarrow> last_index (CHR '':'') (h @ CHR '':'' # p) = Some (length h)"
  using takeWhile_all_until [of "CHR '':''" "rev p" "rev h"] by (simp add: last_index_def)

lemma SplitHostPort_plain:
  assumes "CHR '':'' \<notin> set h" and "CHR '':'' \<notin> set p"
    and "set (h @ p) \<inter> {CHR ''['', CHR '']''} = {}"
  shows "SplitHostPort_host (h @ '':'' @ p) = Some h"
proof -
  have "last_index (CHR '':'') (h @ '':'' @ p) = Some (length h)"
    using last_index_last [OF assms(2), of h] by simp
  moreover have "hd (h @ '':'' @ p) \<noteq> CHR ''[''" using assms(3) by (cases h) auto
  ultimately show ?thesis using assms by (auto simp: SplitHostPort_host_def)
qed

lemma SplitHostPort_bracket:
  assumes "CHR ''['' \<notin> set h" and "CHR '']'' \<notin> set h" and "set p \<inter> {CHR ''['', CHR '']'', CHR '':''} = {}"
  shows "SplitHostPort_host (''['' @ h @ '']:'' @ p) = Some h"
proof -
  have "last_index (CHR '':'') (''['' @ h @ '']:'' @ p) = Some (length h + 2)"
    using last_index_last [of p "''['' @ h @ '']''"] assms(3) by simp
  moreover have "first_index (CHR '']'') (''['' @ h @ '']:'' @ p) = Some (length h + 1)"
    using takeWhile_all_until [of "CHR '']''" "''['' @ h" "'':'' @ p"] assms(2) by (simp add: first_index_def)
  ultimately show ?thesis using assms by (auto simp: SplitHostPort_host_def)
qed


lemma digit_char_not_zero: "0 < n \<Longrightarrow> n < 10 \<Longrightarrow> digit_char n \<noteq> CHR ''0''"
  by (simp add: digit_char_def char_eq_of_char del: of_char_eq_iff)

lemma show_nat_hd: "0 < n \<Longrightarrow> hd (show_nat n) \<noteq> CHR ''0''"
proof (induction n rule: show_nat.induct)
  case (1 n)
  show ?case
  proof (cases "n < 10")
    case True
    with 1(2) show ?thesis by (subst show_nat.simps) (simp add: digit_char_not_zero)
  next
    case False
    then have "hd (show_nat n) = hd (show_nat (n div 10))" by (subst show_nat.simps) simp
    with False 1(1) show ?thesis by simp
  qed
qed

lemma octet_show_nat:
  assumes "n \<le> 255"
  shows "octet (show_nat n)"
proof (cases "n = 0")
  case True
  then show ?thesis by (subst show_nat.simps) (simp add: octet_def digit_char_def is_digit_def dec_value_def digit_value_def)
next
  case False
  with assms show ?thesis by (simp add: octet_def show_nat_digits show_nat_hd)
qed

lemma dot_notin_digits: "list_all is_digit s \<Longrightarrow> c \<in> {CHR ''.'', CHR '':'', CHR ''%'', CHR '',''} \<Longrightarrow> c \<notin> set s"
  by (auto simp: list_all_iff is_digit_def)

definition dotted :: "nat \<Rightarrow> nat \<Rightarrow> nat \<Rightarrow> nat \<Rightarrow> string" where
  "dotted a b c d = show_nat a @ ''.'' @ show_nat b @ ''.'' @ show_nat c @ ''.'' @ show_nat d"

lemma find_append: "list_all (\<lambda>x. \<not> P x) xs \<Longrightarrow> find P (xs @ ys) = find P ys"
  by (induction xs) auto

lemma isValidIP_dotted:
  assumes "a \<le> 255" "b \<le> 255" "c \<le> 255" "d \<le> 255"
  shows "isValidIP (dotted a b c d)"
proof -
  have nd: "CHR ''.'' \<notin> set (show_nat n)" for n
    using dot_notin_digits [OF show_nat_digits] by blast
  have "split_on (CHR ''.'') (dotted a b c d) = [show_nat a, show_nat b, show_nat c, show_nat d]"
    by (simp add: dotted_def split_on_append split_on_no_sep nd)
  then have v: "valid_ipv4 (dotted a b c d)"
    using assms by (simp add: valid_ipv4_def octet_show_nat)
  have "list_all (\<lambda>x. \<not> (x \<in> {CHR ''.'', CHR '':'', CHR ''%''})) (show_nat a)"
    using show_nat_digits [of a] by (auto simp: list_all_iff is_digit_def)
  then have "find (\<lambda>x. x \<in> {CHR ''.'', CHR '':'', CHR ''%''}) (dotted a b c d) = Some (CHR ''.'')"
    by (simp add: dotted_def find_append)
  with v show ?thesis by (simp add: isValidIP_def)
qed

end
