(* ===== verification/Rate_Limit.thy ===== *)
theory Rate_Limit
  imports Go_Net
begin

text \<open>
  \<open>internal/server/ratelimit.go\<close>: one rate limiter per client address, and the address of a
  request.

  The token bucket of \<open>golang.org/x/time/rate\<close> is third-party: \<open>rate_lib\<close> holds its
  constructor and \<open>Allow\<close>, which takes the time and updates the bucket. Entries of the map are
  pointers to buckets owned by the map, so they are stored in it. Header names are looked up with
  \<open>Header.Get\<close>: the function \<open>req_header\<close> gives the first value, or the empty text.
\<close>

record 'lim rate_lib =
  rate_NewLimiter :: "int \<Rightarrow> int \<Rightarrow> 'lim"
  rate_Allow :: "gotime \<Rightarrow> 'lim \<Rightarrow> bool \<times> 'lim"

record RateLimiterConfig =
  RequestsPerSecond :: int
  Burst :: int
  CleanupInterval :: int

definition DefaultRateLimiterConfig :: RateLimiterConfig where
  "DefaultRateLimiterConfig = \<lparr>RequestsPerSecond = 10, Burst = 20, CleanupInterval = minute\<rparr>"

record 'lim ipEntry =
  limiter :: 'lim
  lastSeen :: gotime

record 'lim IPRateLimiter =
  ips :: "string \<rightharpoonup> 'lim ipEntry"
  rl_config :: RateLimiterConfig
  rl_cancelled :: bool

definition NewIPRateLimiter :: "RateLimiterConfig \<Rightarrow> 'lim IPRateLimiter" where
  "NewIPRateLimiter config = \<lparr>ips = (\<lambda>_. None), rl_config = config, rl_cancelled = False\<rparr>"

definition Limiter_Close :: "'lim IPRateLimiter \<Rightarrow> 'lim IPRateLimiter" where
  "Limiter_Close l = l\<lparr>rl_cancelled := True\<rparr>"

definition GetLimiter ::
  "'lim rate_lib \<Rightarrow> gotime \<Rightarrow> string \<Rightarrow> 'lim IPRateLimiter \<Rightarrow> 'lim \<times> 'lim IPRateLimiter" where
  "GetLimiter lib now ip l =
     (case ips l ip of
        None \<Rightarrow>
          (let lim = rate_NewLimiter lib (RequestsPerSecond (rl_config l)) (Burst (rl_config l))
           in (lim, l\<lparr>ips := (ips l)(ip \<mapsto> \<lparr>limiter = lim, lastSeen = now\<rparr>)\<rparr>))
      | Some entry \<Rightarrow> (limiter entry, l\<lparr>ips := (ips l)(ip \<mapsto> entry\<lparr>lastSeen := now\<rparr>)\<rparr>))"

text \<open>\<open>GetLimiter(ip).Allow()\<close>: the bucket the pointer leads to is the one in the map.\<close>

definition AllowIP ::
  "'lim rate_lib \<Rightarrow> gotime \<Rightarrow> string \<Rightarrow> 'lim IPRateLimiter \<Rightarrow> bool \<times> 'lim IPRateLimiter" where
  "AllowIP lib now ip l =
     (case GetLimiter lib now ip l of
        (lim, l1) \<Rightarrow>
          (case rate_Allow lib now lim of
             (ok, lim') \<Rightarrow> (ok, l1\<lparr>ips := (ips l1)(ip \<mapsto> \<lparr>limiter = lim', lastSeen = now\<rparr>)\<rparr>)))"

fun cleanup_loop :: "gotime \<Rightarrow> string list \<Rightarrow> (string \<rightharpoonup> 'lim ipEntry) \<Rightarrow> (string \<rightharpoonup> 'lim ipEntry)" where
  "cleanup_loop threshold [] m = m"
| "cleanup_loop threshold (ip # rest) m =
     (case m ip of
        None \<Rightarrow> cleanup_loop threshold rest m
      | Some entry \<Rightarrow>
          if lastSeen entry < threshold then cleanup_loop threshold rest (m(ip := None))
          else cleanup_loop threshold rest m)"

definition cleanup :: "gotime \<Rightarrow> string list \<Rightarrow> 'lim IPRateLimiter \<Rightarrow> 'lim IPRateLimiter" where
  "cleanup now order l = l\<lparr>ips := cleanup_loop (time_add now (- 5 * minute)) order (ips l)\<rparr>"

text \<open>The background goroutine: a tick cleans up until the context is cancelled.\<close>

definition cleanup_tick :: "gotime \<Rightarrow> string list \<Rightarrow> 'lim IPRateLimiter \<Rightarrow> 'lim IPRateLimiter" where
  "cleanup_tick now order l = (if rl_cancelled l then l else cleanup now order l)"

section \<open>The address of a request\<close>

record http_request =
  req_method :: string
  req_path :: string
  req_header :: "string \<Rightarrow> string"
  req_remote :: string
  req_body :: string

definition getRealIP :: "http_request \<Rightarrow> string" where
  "getRealIP r =
     (let xff = req_header r ''X-Forwarded-For'';
          first = trim_space (hd (split_on (CHR '','') xff));
          xri = trim_space (req_header r ''X-Real-IP'')
      in if xff \<noteq> '''' \<and> isValidIP first then first
         else if req_header r ''X-Real-IP'' \<noteq> '''' \<and> isValidIP xri then xri
         else case SplitHostPort_host (req_remote r) of
                None \<Rightarrow> req_remote r
              | Some host \<Rightarrow> host)"

section \<open>Lemmas\<close>

text \<open>The bucket an address has, or would be given.\<close>

definition bucket :: "'lim rate_lib \<Rightarrow> string \<Rightarrow> 'lim IPRateLimiter \<Rightarrow> 'lim" where
  "bucket lib ip l =
     (case ips l ip of
        None \<Rightarrow> rate_NewLimiter lib (RequestsPerSecond (rl_config l)) (Burst (rl_config l))
      | Some e \<Rightarrow> limiter e)"

lemma AllowIP_eq:
  "AllowIP lib now ip l =
     (fst (rate_Allow lib now (bucket lib ip l)),
      l\<lparr>ips := (ips l)(ip \<mapsto> \<lparr>limiter = snd (rate_Allow lib now (bucket lib ip l)), lastSeen = now\<rparr>)\<rparr>)"
  by (cases "ips l ip") (simp_all add: AllowIP_def GetLimiter_def bucket_def Let_def case_prod_beta)

lemma fst_AllowIP: "fst (AllowIP lib now ip l) = fst (rate_Allow lib now (bucket lib ip l))"
  by (simp add: AllowIP_eq)

lemma bucket_AllowIP:
  "bucket lib ip' (snd (AllowIP lib now ip l)) =
     (if ip' = ip then snd (rate_Allow lib now (bucket lib ip l)) else bucket lib ip' l)"
  by (simp add: AllowIP_eq bucket_def split: option.split)

lemma cleanup_loop_eq:
  "distinct order \<Longrightarrow> cleanup_loop th order m ip =
     (case m ip of
        Some e \<Rightarrow> if ip \<in> set order \<and> lastSeen e < th then None else Some e
      | None \<Rightarrow> None)"
  by (induction th order m rule: cleanup_loop.induct) (auto split: option.splits)

lemma cleanup_keeps:
  assumes "ranges_over order (ips l)"
  shows "ips (cleanup now order l) ip =
     (case ips l ip of
        Some e \<Rightarrow> if lastSeen e < time_add now (- 5 * minute) then None else Some e
      | None \<Rightarrow> None)"
  using ranges_overD(1) [OF assms] ranges_overD(2) [OF assms, of ip]
  by (auto simp: cleanup_def cleanup_loop_eq split: option.splits)

text \<open>The service a client gets from a sequence of requests: times and addresses.\<close>

fun allow_all :: "'lim rate_lib \<Rightarrow> (gotime \<times> string) list \<Rightarrow> 'lim IPRateLimiter \<Rightarrow> bool list \<times> 'lim IPRateLimiter" where
  "allow_all lib [] l = ([], l)"
| "allow_all lib ((now, ip) # reqs) l =
     (case AllowIP lib now ip l of
        (ok, l1) \<Rightarrow> (case allow_all lib reqs l1 of (oks, l2) \<Rightarrow> (ok # oks, l2)))"

fun allow_bucket :: "'lim rate_lib \<Rightarrow> gotime list \<Rightarrow> 'lim \<Rightarrow> bool list" where
  "allow_bucket lib [] b = []"
| "allow_bucket lib (now # nows) b =
     (case rate_Allow lib now b of (ok, b') \<Rightarrow> ok # allow_bucket lib nows b')"

definition of_ip :: "string \<Rightarrow> (gotime \<times> string) list \<Rightarrow> gotime list" where
  "of_ip ip reqs = map fst (filter (\<lambda>r. snd r = ip) reqs)"

lemma allow_all_length: "length (fst (allow_all lib reqs l)) = length reqs"
proof (induction reqs arbitrary: l)
  case (Cons r reqs)
  obtain now ip where "r = (now, ip)" by (cases r)
  with Cons [of "snd (AllowIP lib now ip l)"] show ?case by (simp add: case_prod_beta)
qed simp

lemma allow_all_isolated:
  "map snd (filter (\<lambda>(r, ok). snd r = ip) (zip reqs (fst (allow_all lib reqs l)))) =
     allow_bucket lib (of_ip ip reqs) (bucket lib ip l)"
proof (induction reqs arbitrary: l)
  case (Cons r reqs)
  obtain now ip' where r: "r = (now, ip')" by (cases r)
  show ?case
    using Cons [of "snd (AllowIP lib now ip' l)"]
    by (auto simp: r of_ip_def bucket_AllowIP fst_AllowIP case_prod_beta)
qed (simp add: of_ip_def)

lemma trim_space_id:
  assumes "s \<noteq> []" and "\<forall>p \<in> set space_runes. \<not> prefix p s" and "\<forall>p \<in> set space_runes. \<not> suffix p s"
  shows "trim_space s = s"
proof -
  have no: "find (\<lambda>p. prefix p t) ps = None" if "\<forall>p \<in> set ps. \<not> prefix p t" for ps and t :: string
    using that by (auto simp: find_None_iff)
  have stop: "strip_prefixes n ps t = t" if "\<forall>p \<in> set ps. \<not> prefix p t" for n ps and t :: string
    using no [OF that] by (cases n) simp_all
  have "trim_left_space s = s" using assms(2) by (simp add: trim_left_space_def stop)
  moreover have "strip_prefixes (length s) (map rev space_runes) (rev s) = rev s"
    by (rule stop) (use assms(3) in \<open>auto simp: suffix_to_prefix\<close>)
  ultimately show ?thesis by (simp add: trim_space_def trim_right_space_def)
qed

end
