(* ===== verification/Server.thy ===== *)
theory Server
  imports Tools_Meta Pool_New Metrics Rate_Limit
begin

text \<open>
  \<open>internal/server/http.go\<close> with the middleware of \<open>ratelimit.go\<close>: construction, the
  middleware chain, configuration updates and shutdown.

  The server state extends the handler: the source's \<open>Server\<close> and \<open>Handler\<close> share the
  router's pool, the audit logger and the reloadable configuration by pointer, here by field. An HTTP
  handler maps a request, its context and the state to the writes on the response and the new state.
  The MCP SDK's handler and Prometheus' exposition are third-party: arguments of \<open>serve\<close>. A
  request that panics is outside this theory (\<open>Tools\<close> says when a tool does).
\<close>

datatype http_write = WriteHeader int | WriteBody string

type_synonym 's http_handler = "http_request \<Rightarrow> ctx \<Rightarrow> 's \<Rightarrow> http_write list \<times> 's"

text \<open>The status the client sees: that of the first write.\<close>

definition response_status :: "http_write list \<Rightarrow> int" where
  "response_status ws = (case ws of WriteHeader n # _ \<Rightarrow> n | _ \<Rightarrow> 200)"

text \<open>\<open>responseWriter\<close> remembers the last \<open>WriteHeader\<close>.\<close>

fun captured :: "int \<Rightarrow> http_write list \<Rightarrow> int" where
  "captured status [] = status"
| "captured status (WriteHeader n # ws) = captured n ws"
| "captured status (WriteBody _ # ws) = captured status ws"

definition http_Error :: "string \<Rightarrow> int \<Rightarrow> http_write list" where
  "http_Error msg code = [WriteHeader code, WriteBody (msg @ [CHR 0x0A])]"

record 'lim server = handler +
  srv_validator :: Validator
  srv_limiter :: "'lim IPRateLimiter"
  srv_metrics :: Metrics
  srv_registered :: bool
  srv_started :: bool

record 'lim srv_env =
  se_jwt :: jwt_lib
  se_rate :: "'lim rate_lib"
  se_start :: gotime
  se_limit :: gotime
  se_auth :: gotime
  se_end :: gotime

section \<open>Construction\<close>

fun auth_error_text :: "auth_error \<Rightarrow> string" where
  "auth_error_text ErrMissingToken = ''missing authentication token''"
| "auth_error_text ErrInvalidToken = ''invalid authentication token''"
| "auth_error_text ErrTokenExpired = ''token has expired''"
| "auth_error_text (ErrSecretTooShort n) =
     ''JWT secret too short: must be at least '' @ show_nat MinJWTSecretLength @ '' characters, got '' @ show_nat n"
| "auth_error_text ErrSecretNotConfigured = ''JWT secret not configured''"

text \<open>An error comes with the pool as the failed construction leaves it.\<close>

definition NewServer ::
  "driver \<Rightarrow> (string \<Rightarrow> string) \<Rightarrow> (string \<Rightarrow> go_error option) \<Rightarrow> string list \<Rightarrow> (string list \<Rightarrow> string list) \<Rightarrow>
     Metrics option \<Rightarrow> ReloadableConfig \<Rightarrow> go_error \<times> pool + 'lim server" where
  "NewServer drv getenv mkdir names order inst cfg =
     (let config = rc_Get cfg in
      case NewValidatorFromEnv getenv (JWTSecret (cfg_Server config)) of
        Inl e \<Rightarrow> Inl (''create JWT validator: '' @ auth_error_text e, empty_pool)
      | Inr validator \<Rightarrow>
          (case NewPool drv order names (Clusters config) empty_pool of
             (Some e, p) \<Rightarrow> Inl (''create connection pool: '' @ e, p)
           | (None, p) \<Rightarrow>
               let router = NewRouter p (Databases config);
                   securityRules = GetSecurity cfg;
                   checker = NewChecker securityRules;
                   rewriter = NewRewriter securityRules
               in case NewLogger mkdir (Audit config) of
                    Inl e \<Rightarrow> Inl (''create audit logger: '' @ e, snd (Pool_Close drv (order names) p))
                  | Inr auditLogger \<Rightarrow>
                      Inr (handler.extend (NewHandler router checker rewriter auditLogger cfg)
                        \<lparr>srv_validator = validator,
                         srv_limiter = NewIPRateLimiter DefaultRateLimiterConfig,
                         srv_metrics = Metrics_Init ''safemysql'' inst,
                         srv_registered = False, srv_started = False\<rparr>)))"

section \<open>Middleware\<close>

definition on_metrics :: "(Metrics \<Rightarrow> Metrics) \<Rightarrow> ('lim, 'a) server_scheme \<Rightarrow> ('lim, 'a) server_scheme" where
  "on_metrics f s = s\<lparr>srv_metrics := f (srv_metrics s)\<rparr>"

definition handleHealth :: "'s http_handler" where
  "handleHealth r c s = ([WriteHeader 200, WriteBody ''OK''], s)"

definition metricsMiddleware ::
  "'lim srv_env \<Rightarrow> string \<Rightarrow> ('lim, 'a) server_scheme http_handler \<Rightarrow> ('lim, 'a) server_scheme http_handler" where
  "metricsMiddleware env path next_handler r c s =
     (case next_handler r c (on_metrics (call (Inc RequestsActive [])) s) of
        (ws, s1) \<Rightarrow>
          (ws,
           on_metrics (call (Dec RequestsActive))
             (on_metrics (call (Observe RequestDuration [req_method r, path]
                 (seconds (nanos (se_end env) - nanos (se_start env)))))
               (on_metrics (call (Inc RequestsTotal [req_method r, path, show_int (captured 200 ws)])) s1))))"

definition authMiddleware ::
  "'lim srv_env \<Rightarrow> ('lim, 'a) server_scheme http_handler \<Rightarrow> ('lim, 'a) server_scheme http_handler" where
  "authMiddleware env next_handler r c s =
     (let token = ExtractToken (req_header r ''Authorization'') in
      if token = '''' then
        (http_Error ''missing authorization token'' 401, on_metrics (RecordAuthAttempt ''jwt'' False) s)
      else case Validate (se_jwt env) (se_auth env) (srv_validator s) token of
        Inl e \<Rightarrow>
          (http_Error (''invalid token: '' @ auth_error_text e) 401, on_metrics (RecordAuthAttempt ''jwt'' False) s)
      | Inr claims \<Rightarrow>
          next_handler r (ContextWithUser c (UserID claims) (UserEmail claims))
            (on_metrics (RecordAuthAttempt ''jwt'' True) s))"

definition rateLimitMiddleware ::
  "'lim srv_env \<Rightarrow> ('lim, 'a) server_scheme http_handler \<Rightarrow> ('lim, 'a) server_scheme http_handler" where
  "rateLimitMiddleware env next_handler r c s =
     (let ip = getRealIP r in
      case AllowIP (se_rate env) (se_limit env) ip (srv_limiter s) of
        (ok, l) \<Rightarrow>
          let s1 = s\<lparr>srv_limiter := l\<rparr> in
          if \<not> ok then (http_Error ''rate limit exceeded'' 429, on_metrics (RecordRateLimitExceeded ip) s1)
          else next_handler r c s1)"

text \<open>The routes; \<open>req_path\<close> is the cleaned path of the request.\<close>

definition serve ::
  "'lim srv_env \<Rightarrow> ('lim, 'a) server_scheme http_handler \<Rightarrow> (Metrics \<Rightarrow> http_request \<Rightarrow> http_write list) \<Rightarrow>
     ('lim, 'a) server_scheme http_handler" where
  "serve env mcp prom r c s =
     (if req_path r = ''/mcp'' then
        metricsMiddleware env ''/mcp'' (rateLimitMiddleware env (authMiddleware env mcp)) r c s
      else if req_path r = ''/health'' then
        metricsMiddleware env ''/health'' (rateLimitMiddleware env handleHealth) r c s
      else if req_path r = ''/metrics'' then (prom (srv_metrics s) r, s)
      else (http_Error ''404 page not found'' 404, s))"

definition Server_Handler :: "('lim, 'a) server_scheme \<Rightarrow> ('lim, 'a) server_scheme" where
  "Server_Handler s = s\<lparr>srv_registered := True\<rparr>"

definition server_addr :: "('lim, 'a) server_scheme \<Rightarrow> string" where
  "server_addr s =
     (let cfg = rc_Get (h_config s)
      in srv_Host (cfg_Server cfg) @ '':'' @ show_int (srv_Port (cfg_Server cfg)))"

definition Server_Start ::
  "(string \<Rightarrow> go_error option) \<Rightarrow> ('lim, 'a) server_scheme \<Rightarrow> go_error option \<times> ('lim, 'a) server_scheme" where
  "Server_Start listen s =
     (let s1 = (Server_Handler s)\<lparr>srv_started := True\<rparr> in (listen (server_addr s), s1))"

section \<open>Updates and shutdown\<close>

definition Server_UpdateConfig ::
  "driver \<Rightarrow> (nat \<Rightarrow> pool_call list) \<Rightarrow> string list \<Rightarrow> string list \<Rightarrow>
     ((string \<times> nat) list \<Rightarrow> (string \<times> nat) list) \<Rightarrow> (string \<Rightarrow> go_error option) \<Rightarrow>
     Config \<Rightarrow> SecurityConfig option \<Rightarrow> ('lim, 'a) server_scheme \<Rightarrow> ('lim, 'a) server_scheme" where
  "Server_UpdateConfig drv penv order names perm mkdir cfg security s =
     (let s1 = s\<lparr>h_config := rc_Update cfg security (h_config s)\<rparr>;
          s2 = (case security of
                  None \<Rightarrow> s1
                | Some sec \<Rightarrow> UpdateSecurityRules (Some (Security sec)) s1);
          s3 = Pool_UpdateConfig drv penv order names perm (Clusters cfg) s2
      in s3\<lparr>h_audit := snd (Log_UpdateConfig mkdir (Audit cfg) (h_audit s3))\<rparr>)"

definition spaced :: "string list \<Rightarrow> string" where
  "spaced es = (case es of [] \<Rightarrow> '''' | e # es' \<Rightarrow> e @ concat (map (\<lambda>x. '' '' @ x) es'))"

definition err_list :: "go_error option \<Rightarrow> go_error list" where
  "err_list e = (case e of None \<Rightarrow> [] | Some x \<Rightarrow> [x])"

definition Server_Shutdown ::
  "driver \<Rightarrow> go_error option \<Rightarrow> string list \<Rightarrow> (nat \<Rightarrow> go_error option) \<Rightarrow> ('lim, 'a) server_scheme \<Rightarrow>
     go_error option \<times> ('lim, 'a) server_scheme" where
  "Server_Shutdown drv http_err order close_err s =
     (let errs1 = (if srv_started s then err_list http_err else []);
          s1 = s\<lparr>srv_limiter := Limiter_Close (srv_limiter s)\<rparr>;
          (pool_err, s2) = Pool_Close drv order s1;
          (audit_err, l) = Log_Close close_err (h_audit s2);
          s3 = s2\<lparr>h_audit := l\<rparr>;
          errs = errs1 @ err_list pool_err @ err_list audit_err
      in if errs \<noteq> [] then (Some (''shutdown errors: ['' @ spaced errs @ '']''), s3) else (None, s3))"

section \<open>The contract of a middleware\<close>

text \<open>
  A middleware answers a request itself, or hands it on once, with a context and a state of its
  choosing, and finishes with the answer unchanged.
\<close>

locale middleware =
  fixes mw :: "'s http_handler \<Rightarrow> 's http_handler"
    and own :: "http_request \<Rightarrow> ctx \<Rightarrow> 's \<Rightarrow> (http_write list \<times> 's) option"
    and enter :: "http_request \<Rightarrow> ctx \<Rightarrow> 's \<Rightarrow> ctx \<times> 's"
    and leave :: "http_request \<Rightarrow> http_write list \<Rightarrow> 's \<Rightarrow> 's"
  assumes mw_own: "own r c s = Some res \<Longrightarrow> mw next_handler r c s = res"
    and mw_next: "own r c s = None \<Longrightarrow>
      mw next_handler r c s =
        (let (c1, s1) = enter r c s; (ws, s2) = next_handler r c1 s1 in (ws, leave r ws s2))"
begin

lemma answer_unchanged:
  "own r c s = None \<Longrightarrow>
     fst (mw next_handler r c s) = fst (next_handler r (fst (enter r c s)) (snd (enter r c s)))"
  by (simp add: mw_next Let_def split: prod.splits)

lemma preserves:
  assumes "\<And>res. own r c s = Some res \<Longrightarrow> I (snd res)"
    and "I (snd (enter r c s))"
    and "\<And>c1 s1. I s1 \<Longrightarrow> I (snd (next_handler r c1 s1))"
    and "\<And>ws s1. I s1 \<Longrightarrow> I (leave r ws s1)"
  shows "I (snd (mw next_handler r c s))"
proof (cases "own r c s")
  case None
  then show ?thesis using assms by (simp add: mw_next Let_def case_prod_beta)
qed (use assms(1) mw_own in auto)

lemma not_reached:
  "own r c s = Some res \<Longrightarrow> mw next_handler r c s = mw other_handler r c s"
  by (simp add: mw_own)

end

definition rate_own :: "'lim srv_env \<Rightarrow> http_request \<Rightarrow> ctx \<Rightarrow> ('lim, 'a) server_scheme \<Rightarrow>
    (http_write list \<times> ('lim, 'a) server_scheme) option" where
  "rate_own env r c s =
     (case AllowIP (se_rate env) (se_limit env) (getRealIP r) (srv_limiter s) of
        (ok, l) \<Rightarrow>
          if ok then None
          else Some (http_Error ''rate limit exceeded'' 429,
            on_metrics (RecordRateLimitExceeded (getRealIP r)) (s\<lparr>srv_limiter := l\<rparr>)))"

definition rate_enter :: "'lim srv_env \<Rightarrow> http_request \<Rightarrow> ctx \<Rightarrow> ('lim, 'a) server_scheme \<Rightarrow>
    ctx \<times> ('lim, 'a) server_scheme" where
  "rate_enter env r c s =
     (c, s\<lparr>srv_limiter := snd (AllowIP (se_rate env) (se_limit env) (getRealIP r) (srv_limiter s))\<rparr>)"

definition auth_own :: "'lim srv_env \<Rightarrow> http_request \<Rightarrow> ctx \<Rightarrow> ('lim, 'a) server_scheme \<Rightarrow>
    (http_write list \<times> ('lim, 'a) server_scheme) option" where
  "auth_own env r c s =
     (let token = ExtractToken (req_header r ''Authorization'');
          s1 = on_metrics (RecordAuthAttempt ''jwt'' False) s in
      if token = '''' then Some (http_Error ''missing authorization token'' 401, s1)
      else case Validate (se_jwt env) (se_auth env) (srv_validator s) token of
        Inl e \<Rightarrow> Some (http_Error (''invalid token: '' @ auth_error_text e) 401, s1)
      | Inr _ \<Rightarrow> None)"

definition claims_of :: "'lim srv_env \<Rightarrow> http_request \<Rightarrow> ('lim, 'a) server_scheme \<Rightarrow> Claims option" where
  "claims_of env r s =
     (case Validate (se_jwt env) (se_auth env) (srv_validator s)
         (ExtractToken (req_header r ''Authorization'')) of
        Inl _ \<Rightarrow> None | Inr claims \<Rightarrow> Some claims)"

definition auth_enter :: "'lim srv_env \<Rightarrow> http_request \<Rightarrow> ctx \<Rightarrow> ('lim, 'a) server_scheme \<Rightarrow>
    ctx \<times> ('lim, 'a) server_scheme" where
  "auth_enter env r c s =
     (case claims_of env r s of
        None \<Rightarrow> (c, s)
      | Some claims \<Rightarrow>
          (ContextWithUser c (UserID claims) (UserEmail claims), on_metrics (RecordAuthAttempt ''jwt'' True) s))"

definition metrics_leave :: "'lim srv_env \<Rightarrow> string \<Rightarrow> http_request \<Rightarrow> http_write list \<Rightarrow>
    ('lim, 'a) server_scheme \<Rightarrow> ('lim, 'a) server_scheme" where
  "metrics_leave env path r ws s =
     on_metrics (call (Dec RequestsActive))
       (on_metrics (call (Observe RequestDuration [req_method r, path]
           (seconds (nanos (se_end env) - nanos (se_start env)))))
         (on_metrics (call (Inc RequestsTotal [req_method r, path, show_int (captured 200 ws)])) s))"

lemma Validate_empty: "Validate lib now v '''' = Inl ErrMissingToken"
  by (simp add: Validate_def)

interpretation rate_mw: middleware "rateLimitMiddleware env" "rate_own env" "rate_enter env" "\<lambda>r ws s. s"
  for env :: "'lim srv_env"
  by unfold_locales
    (auto simp: rateLimitMiddleware_def rate_own_def rate_enter_def Let_def split: prod.splits if_splits)

interpretation auth_mw: middleware "authMiddleware env" "auth_own env" "auth_enter env" "\<lambda>r ws s. s"
  for env :: "'lim srv_env"
  by unfold_locales
    (auto simp: authMiddleware_def auth_own_def auth_enter_def claims_of_def Let_def Validate_empty
      split: prod.splits if_splits sum.splits)

interpretation metrics_mw: middleware "metricsMiddleware env path" "\<lambda>r c s. None"
    "\<lambda>r c s. (c, on_metrics (call (Inc RequestsActive [])) s)" "metrics_leave env path"
  for env :: "'lim srv_env" and path
  by unfold_locales (auto simp: metricsMiddleware_def metrics_leave_def Let_def split: prod.splits)

end
