(* ===== verification/Service.thy ===== *)
theory Service
  imports Server
begin

text \<open>
  The service as a whole: what a request to \<open>/mcp\<close> has to pass, what construction, updates and
  shutdown do to the state, the tool calls as one operation, and the step relation of the running
  server with its invariants.
\<close>

section \<open>The gate in front of the tools\<close>

datatype gate = Limited | Unauthenticated | Admitted Claims

definition gate_of :: "'lim srv_env \<Rightarrow> http_request \<Rightarrow> ('lim, 'a) server_scheme \<Rightarrow> gate" where
  "gate_of env r s =
     (if \<not> fst (AllowIP (se_rate env) (se_limit env) (getRealIP r) (srv_limiter s)) then Limited
      else if ExtractToken (req_header r ''Authorization'') = '''' then Unauthenticated
      else case claims_of env r s of None \<Rightarrow> Unauthenticated | Some c \<Rightarrow> Admitted c)"

lemma response_status_Error [simp]: "response_status (http_Error msg code) = code"
  by (simp add: response_status_def http_Error_def)

lemma captured_Error [simp]: "captured st (http_Error msg code) = code"
  by (simp add: http_Error_def)


text \<open>The part of the state below the server: everything the tools work on.\<close>

definition same_tools :: "('lim, 'a) server_scheme \<Rightarrow> ('lim, 'a) server_scheme \<Rightarrow> bool" where
  "same_tools s s' \<longleftrightarrow> handler.truncate s' = handler.truncate s"

lemma same_tools_simps [simp]:
  "same_tools s s" "same_tools s (on_metrics f t) = same_tools s t"
  "same_tools s (t\<lparr>srv_limiter := l\<rparr>) = same_tools s t"
  by (simp_all add: same_tools_def on_metrics_def handler.truncate_def)

lemma same_tools_leave [simp]: "same_tools t (metrics_leave env p r ws u) = same_tools t u"
  by (simp add: metrics_leave_def)

lemma claims_of_frame [simp]:
  "claims_of env r (on_metrics f s) = claims_of env r s" "claims_of env r (s\<lparr>srv_limiter := l\<rparr>) = claims_of env r s"
  by (simp_all add: claims_of_def on_metrics_def)

lemma serve_mcp:
  assumes path: "req_path r = ''/mcp''"
  shows "case gate_of env r s of
      Limited \<Rightarrow> response_status (fst (serve env mcp prom r c s)) = 429 \<and>
        same_tools s (snd (serve env mcp prom r c s))
    | Unauthenticated \<Rightarrow> response_status (fst (serve env mcp prom r c s)) = 401 \<and>
        same_tools s (snd (serve env mcp prom r c s))
    | Admitted claims \<Rightarrow> \<exists>s1. same_tools s s1 \<and>
        fst (serve env mcp prom r c s) = fst (mcp r (ContextWithUser c (UserID claims) (UserEmail claims)) s1) \<and>
        same_tools (snd (mcp r (ContextWithUser c (UserID claims) (UserEmail claims)) s1))
          (snd (serve env mcp prom r c s))"
proof -
  define s0 where "s0 = on_metrics (call (Inc RequestsActive [])) s"
  define chain where "chain = rateLimitMiddleware env (authMiddleware env mcp) r c s0"
  have serve: "serve env mcp prom r c s = (fst chain, metrics_leave env ''/mcp'' r (fst chain) (snd chain))"
    using path by (simp add: serve_def metrics_mw.mw_next chain_def s0_def Let_def case_prod_beta)
  obtain ok l where a: "AllowIP (se_rate env) (se_limit env) (getRealIP r) (srv_limiter s) = (ok, l)"
    by fastforce
  then have a0: "AllowIP (se_rate env) (se_limit env) (getRealIP r) (srv_limiter s0) = (ok, l)"
    by (simp add: s0_def on_metrics_def)
  define s1 where "s1 = s0\<lparr>srv_limiter := l\<rparr>"
  have s1: "same_tools s s1" "claims_of env r s1 = claims_of env r s" by (simp_all add: s1_def s0_def)
  show ?thesis
  proof (cases "ok")
    case False
    then have "chain = (http_Error ''rate limit exceeded'' 429, on_metrics (RecordRateLimitExceeded (getRealIP r)) s1)"
      using a0 by (simp add: chain_def rateLimitMiddleware_def s1_def)
    then show ?thesis using False a s1 by (simp add: gate_of_def serve)
  next
    case True
    then have ch: "chain = authMiddleware env mcp r c s1"
      using a0 by (simp add: chain_def rateLimitMiddleware_def s1_def)
    show ?thesis
    proof (cases "auth_own env r c s1")
      case (Some res)
      then have "chain = res" using ch auth_mw.mw_own by metis
      then have "response_status (fst chain) = 401 \<and> same_tools s (snd chain)"
        and "ExtractToken (req_header r ''Authorization'') = '''' \<or> claims_of env r s1 = None"
        using Some s1(1) by (auto simp: auth_own_def claims_of_def Let_def split: if_splits sum.splits)
      then show ?thesis using True a s1(2) by (auto simp: gate_of_def serve)
    next
      case None
      then obtain claims where cl: "claims_of env r s1 = Some claims"
        and tok: "ExtractToken (req_header r ''Authorization'') \<noteq> ''''"
        by (auto simp: auth_own_def claims_of_def Let_def split: if_splits sum.splits)
      let ?c = "ContextWithUser c (UserID claims) (UserEmail claims)"
      let ?s2 = "on_metrics (RecordAuthAttempt ''jwt'' True) s1"
      have "chain = mcp r ?c ?s2"
        using auth_mw.mw_next [OF None, of mcp] cl by (simp add: ch auth_enter_def Let_def)
      moreover have "same_tools s ?s2" using s1(1) by simp
      ultimately show ?thesis
        using True a cl tok s1(2) by (auto simp: gate_of_def serve intro!: exI [of _ ?s2])
    qed
  qed
qed

section \<open>One tool call\<close>

text \<open>
  What any tool call does to the state below the server: a routed request, under the configured
  timeout, and some lines in the audit log.
\<close>

definition tool_effect :: "'a handler_scheme \<Rightarrow> 'a handler_scheme \<Rightarrow> bool" where
  "tool_effect h h' \<longleftrightarrow>
     (\<exists>h1 cs. routed (getQueryTimeout h) h h1 \<and> h' = h1\<lparr>h_audit := write_calls cs (h_audit h1)\<rparr>)"

lemma tool_effect_routed: "routed (getQueryTimeout h) h h' \<Longrightarrow> tool_effect h h'"
  by (auto simp: tool_effect_def write_calls_def intro!: exI [of _ h'] exI [of _ "[]"])

lemma tool_effect_note:
  "routed (getQueryTimeout h) h h1 \<Longrightarrow> tool_effect h (note_entry clk e h1)"
  by (auto simp: tool_effect_def)

lemma tool_effect_frame:
  assumes "tool_effect h h'"
  shows "handler_inv h \<Longrightarrow> handler_inv h'"
    and "rt_databases h' = rt_databases h" and "h_checker h' = h_checker h"
    and "h_rewriter h' = h_rewriter h" and "h_config h' = h_config h"
    and "handler.more h' = handler.more h" and "clusters h' = clusters h"
proof -
  obtain h1 cs where h1: "routed (getQueryTimeout h) h h1" "h' = h1\<lparr>h_audit := write_calls cs (h_audit h1)\<rparr>"
    using assms by (auto simp: tool_effect_def)
  show "handler_inv h'" if "handler_inv h"
    using handler_inv_routed [OF that h1(1)] by (simp add: h1(2) handler_inv_def audit_inv_write_calls)
  show "rt_databases h' = rt_databases h" "h_checker h' = h_checker h" "h_rewriter h' = h_rewriter h"
    "h_config h' = h_config h" "handler.more h' = handler.more h" "clusters h' = clusters h"
    using routed_same_handler [OF h1(1)] h1
    by (simp_all add: same_handler_def routed_def same_shape_def)
qed

lemma tool_effect_executeQuery:
  assumes inv: "audit_inv (h_audit h)" and ex: "executeQuery drv tidb clk c db s h = Ret (r, h')"
  shows "tool_effect h h'"
proof (cases rule: executeQuery_cases [OF inv, of tidb s drv clk c db,
      consumes 0, case_names no_statement unparsed blocked reads writes])
  case (reads p q ws)
  have "routed (getQueryTimeout h) h h1"
    if "Router_Query drv (getQueryTimeout h) db q [] h = (res, h1)" for res h1
    using routed_Query [of "getQueryTimeout h" h drv db q "[]"] that by simp
  with reads ex show ?thesis
    by (cases rule: run_read_cases [OF inv, of drv db q clk c s p ws, consumes 0, case_names refused lost answered])
      (auto intro: tool_effect_note tool_effect_routed)
next
  case (writes p q ws)
  have "routed (getQueryTimeout h) h h1"
    if "Router_Exec drv (getQueryTimeout h) db q h = (res, h1)" for res h1
    using routed_Exec [of "getQueryTimeout h" h drv db q] that by simp
  with writes ex show ?thesis
    by (cases rule: run_write_cases [OF inv, of drv db q clk c s p ws, consumes 0, case_names refused wrote])
      (auto intro!: tool_effect_note)
qed (use ex in \<open>auto intro!: tool_effect_note\<close>)

lemma executeExplain_cases:
  obtains (no_statement) "tidb s = Inr []" and "executeExplain drv tidb db s h = Panic nil_deref"
  | (rejected) e where "executeExplain drv tidb db s h = Ret (Inl e, h)" and "tidb s \<noteq> Inr []"
      and "\<And>p. Parse tidb s = Inr (Some p) \<Longrightarrow>
        SqlType p \<notin> {SQLTypeSelect, SQLTypeInsert, SQLTypeUpdate, SQLTypeDelete}"
  | (routed) p r where "Parse tidb s = Inr (Some p)"
      and "SqlType p \<in> {SQLTypeSelect, SQLTypeInsert, SQLTypeUpdate, SQLTypeDelete}"
      and "executeExplain drv tidb db s h =
        Ret (r, snd (Router_Query drv (getQueryTimeout h) db (''EXPLAIN '' @ s) [] h))"
proof (cases "Parse tidb s")
  case (Inl e)
  then have "tidb s = Inl e" by (simp add: Parse_error_iff)
  then show thesis by (intro rejected) (simp_all add: executeExplain_def Inl)
next
  case (Inr parsed)
  show thesis
  proof (cases parsed)
    case None
    then have "tidb s = Inr []" using Inr by (simp add: Parse_nil_iff)
    then show thesis by (rule no_statement) (simp add: executeExplain_def Inr None)
  next
    case (Some p)
    then have ne: "tidb s \<noteq> Inr []" using Inr Parse_nil_iff [of tidb s] by auto
    show thesis
    proof (cases "SqlType p \<in> {SQLTypeSelect, SQLTypeInsert, SQLTypeUpdate, SQLTypeDelete}")
      case False
      show thesis
        by (rule rejected [OF _ ne]) (use False in \<open>simp_all add: executeExplain_def Inr Some\<close>)
    next
      case True
      obtain res h1 where q: "Router_Query drv (getQueryTimeout h) db (''EXPLAIN '' @ s) [] h = (res, h1)"
        by fastforce
      have "rows_Close rows h1 = h1" if "res = Inr rows" for rows
        using Query_owner q that by (intro rows_Close_unowned) blast
      then have "\<exists>r. executeExplain drv tidb db s h = Ret (r, h1)"
        using True Inr Some q by (cases res) (auto simp: executeExplain_def simp del: insert_iff)
      then show thesis using routed [of p] Inr Some True q by auto
    qed
  qed
qed

lemma tool_effect_explain:
  "executeExplain drv tidb db s h = Ret (r, h') \<Longrightarrow> tool_effect h h'"
  by (cases rule: executeExplain_cases [where tidb = tidb and s = s and drv = drv and db = db and h = h])
    (auto intro!: tool_effect_routed routed_Query)

lemma tool_effect_search:
  "tool_effect h (snd (executeSearchTables drv order pattern h))"
proof -
  obtain ms b h' where l: "search_loop drv (getQueryTimeout h) (search_pattern pattern) (getMaxRows h)
      (ListDatabases order) [] h = (ms, b, h')" by (metis prod_cases3)
  have "routed (getQueryTimeout h) h h'"
    using search_loop_laws [OF l] getMaxRows_pos [of h] by simp
  then show ?thesis using l by (simp add: executeSearchTables_def tool_effect_routed del: ListDatabases_eq)
qed

lemma respond_out_RetD: "respond_out f r = Ret (resp, h') \<Longrightarrow> \<exists>v. r = Ret (v, h')"
  by (auto simp: respond_out_def split: outcome.splits)

lemma with_rows_effect: "with_rows drv dbName query args consume h = (v, h') \<Longrightarrow> tool_effect h h'"
  using with_rows_laws(2) [of h drv dbName query args consume] by (simp add: tool_effect_routed)

lemma tool_effect_call:
  assumes inv: "audit_inv (h_audit h)" and call: "call_tool drv tidb clk order c tc h = Ret (resp, h')"
  shows "tool_effect h h'"
proof -
  have refl: "tool_effect h h" by (rule tool_effect_routed) simp
  show ?thesis
  proof (cases tc)
    case (QueryCall db s)
    with call refl show ?thesis
      by (auto simp: handleQueryTool_def split: option.splits dest!: respond_out_RetD dest: tool_effect_executeQuery [OF inv])
  next
    case (ExplainCall db s)
    with call refl show ?thesis
      by (auto simp: handleExplainTool_def split: option.splits dest!: respond_out_RetD dest: tool_effect_explain)
  next
    case ListDatabasesCall
    with call refl show ?thesis by (simp add: handleListDatabasesTool_def)
  next
    case (ListTablesCall db)
    with call refl show ?thesis
      by (auto simp: handleListTablesTool_def executeListTables_def split: option.splits dest!: respond_out_RetD with_rows_effect)
  next
    case (DescribeTableCall db t)
    with call refl show ?thesis
      by (auto simp: handleDescribeTableTool_def executeDescribeTable_def split: option.splits dest!: respond_out_RetD with_rows_effect)
  next
    case (ShowCreateTableCall db t)
    with call refl show ?thesis
      by (auto simp: handleShowCreateTableTool_def executeShowCreateTable_def split: option.splits dest!: respond_out_RetD with_rows_effect)
  next
    case (SearchTablesCall pat)
    with call refl tool_effect_search [of h drv order pat] show ?thesis
      by (auto simp: handleSearchTablesTool_def split: option.splits dest!: respond_out_RetD with_rows_effect)
  qed
qed

lemma call_tool_panics:
  assumes inv: "audit_inv (h_audit h)" and p: "call_tool drv tidb clk order c tc h = Panic m"
  shows "\<exists>db s. (tc = QueryCall db s \<or> tc = ExplainCall db s) \<and> tidb s = Inr []"
proof (cases tc)
  case (QueryCall db s)
  with p have "executeQuery drv tidb clk c db s h = Panic m"
    by (auto simp: handleQueryTool_def respond_out_def split: option.splits outcome.splits)
  with executeQuery_panics_iff [OF inv, of drv tidb clk c db s] QueryCall show ?thesis by blast
next
  case (ExplainCall db s)
  with p have "executeExplain drv tidb db s h = Panic m"
    by (auto simp: handleExplainTool_def respond_out_def split: option.splits outcome.splits)
  then have "tidb s = Inr []"
    by (cases rule: executeExplain_cases [where tidb = tidb and s = s and drv = drv and db = db and h = h]) auto
  with ExplainCall show ?thesis by blast
qed (use p in \<open>auto simp: handleListDatabasesTool_def handleListTablesTool_def handleDescribeTableTool_def
       handleShowCreateTableTool_def handleSearchTablesTool_def respond_out_def split: option.splits prod.splits\<close>)

section \<open>Configuration updates\<close>

lemma pool_more_router: "pool.more r' = pool.more r \<Longrightarrow> rt_databases r' = rt_databases r \<and> router.more r' = router.more r"
  for r r' :: "'a router_scheme"
  by (cases r; cases r') simp

lemma pool_more_handler:
  fixes h h' :: "'a handler_scheme"
  assumes "pool.more h' = pool.more h"
  shows "h_checker h' = h_checker h \<and> h_rewriter h' = h_rewriter h \<and> h_audit h' = h_audit h \<and>
    h_config h' = h_config h \<and> handler.more h' = handler.more h"
  using assms by (cases h; cases h') simp

lemma pool_inv_handler_fields [simp]:
  "pool_inv (h\<lparr>h_config := c\<rparr>) = pool_inv h" "pool_inv (h\<lparr>h_checker := k\<rparr>) = pool_inv h"
  "pool_inv (h\<lparr>h_rewriter := w\<rparr>) = pool_inv h"
  by (simp_all add: pool_inv_def is_open_def)

lemma update_orders_fields [simp]:
  "update_orders order names perm new (h\<lparr>h_config := c\<rparr>) = update_orders order names perm new h"
  "update_orders order names perm new (h\<lparr>h_checker := k\<rparr>) = update_orders order names perm new h"
  "update_orders order names perm new (h\<lparr>h_rewriter := w\<rparr>) = update_orders order names perm new h"
  by (simp_all add: update_orders_def)

text \<open>The state in which the pool is updated.\<close>

definition rules_updated :: "Config \<Rightarrow> SecurityConfig option \<Rightarrow> 'a handler_scheme \<Rightarrow> 'a handler_scheme" where
  "rules_updated cfg security s =
     (let s1 = s\<lparr>h_config := rc_Update cfg security (h_config s)\<rparr>
      in case security of None \<Rightarrow> s1 | Some sec \<Rightarrow> UpdateSecurityRules (Some (Security sec)) s1)"

lemma rules_updated_frame:
  "clusters (rules_updated cfg sec s) = clusters s" "configs (rules_updated cfg sec s) = configs s"
  "rt_databases (rules_updated cfg sec s) = rt_databases s" "h_audit (rules_updated cfg sec s) = h_audit s"
  "pool_inv (rules_updated cfg sec s) = pool_inv s"
  "update_orders order names perm new (rules_updated cfg sec s) = update_orders order names perm new s"
  by (simp_all add: rules_updated_def UpdateSecurityRules_def Let_def split: option.split)

lemma rules_updated_fields:
  "h_config (rules_updated cfg security s) = \<lparr>rc_config = cfg, rc_security = security\<rparr>"
  "chk_rules (h_checker (rules_updated cfg security s)) =
     (case security of None \<Rightarrow> chk_rules (h_checker s) | Some sec \<Rightarrow> Some (Security sec))"
  "rw_rules (h_rewriter (rules_updated cfg security s)) =
     (case security of None \<Rightarrow> rw_rules (h_rewriter s) | Some sec \<Rightarrow> Some (Security sec))"
  "handler.more (rules_updated cfg security s) = handler.more s"
  by (simp_all add: rules_updated_def UpdateSecurityRules_def rc_Update_def Let_def
      checker_cell.rules_update rewriter_cell.rules_update split: option.split)

lemma Server_UpdateConfig_eq:
  "Server_UpdateConfig drv penv order names perm mkdir cfg security s =
     (let s3 = Pool_UpdateConfig drv penv order names perm (Clusters cfg) (rules_updated cfg security s)
      in s3\<lparr>h_audit := snd (Log_UpdateConfig mkdir (Audit cfg) (h_audit s))\<rparr>)"
proof -
  have "h_audit (Pool_UpdateConfig drv penv order names perm (Clusters cfg) (rules_updated cfg security s)) = h_audit s"
    using pool_more_handler [OF UpdateConfig_more] rules_updated_frame(4) by metis
  then show ?thesis
    by (simp add: Server_UpdateConfig_def rules_updated_def Let_def cong: option.case_cong)
qed

lemma Server_UpdateConfig_frame:
  fixes s :: "('lim, 'a) server_scheme" and drv penv order names perm mkdir cfg security
  defines "s' \<equiv> Server_UpdateConfig drv penv order names perm mkdir cfg security s"
  shows "rt_databases s' = rt_databases s"
    and "h_config s' = \<lparr>rc_config = cfg, rc_security = security\<rparr>"
    and "chk_rules (h_checker s') = (case security of None \<Rightarrow> chk_rules (h_checker s) | Some sec \<Rightarrow> Some (Security sec))"
    and "rw_rules (h_rewriter s') = (case security of None \<Rightarrow> rw_rules (h_rewriter s) | Some sec \<Rightarrow> Some (Security sec))"
    and "h_audit s' = snd (Log_UpdateConfig mkdir (Audit cfg) (h_audit s))"
    and "configs s' = Clusters cfg"
    and "handler.more s' = handler.more s"
proof -
  let ?s2 = "rules_updated cfg security s"
  let ?s3 = "Pool_UpdateConfig drv penv order names perm (Clusters cfg) ?s2"
  have eq: "s' = ?s3\<lparr>h_audit := snd (Log_UpdateConfig mkdir (Audit cfg) (h_audit s))\<rparr>"
    by (simp add: s'_def Server_UpdateConfig_eq Let_def)
  have r: "rt_databases ?s3 = rt_databases ?s2"
    using pool_more_router [OF UpdateConfig_more] by metis
  have h: "h_checker ?s3 = h_checker ?s2 \<and> h_rewriter ?s3 = h_rewriter ?s2 \<and> h_audit ?s3 = h_audit ?s2 \<and>
    h_config ?s3 = h_config ?s2 \<and> handler.more ?s3 = handler.more ?s2"
    by (rule pool_more_handler) (rule UpdateConfig_more)
  show "rt_databases s' = rt_databases s" by (simp add: eq r rules_updated_frame)
  show "h_config s' = \<lparr>rc_config = cfg, rc_security = security\<rparr>"
    by (simp add: eq h rules_updated_fields)
  show "chk_rules (h_checker s') = (case security of None \<Rightarrow> chk_rules (h_checker s) | Some sec \<Rightarrow> Some (Security sec))"
    by (simp add: eq h rules_updated_fields)
  show "rw_rules (h_rewriter s') = (case security of None \<Rightarrow> rw_rules (h_rewriter s) | Some sec \<Rightarrow> Some (Security sec))"
    by (simp add: eq h rules_updated_fields)
  show "h_audit s' = snd (Log_UpdateConfig mkdir (Audit cfg) (h_audit s))" by (simp add: eq)
  show "configs s' = Clusters cfg" by (simp add: eq UpdateConfig_configs)
  show "handler.more s' = handler.more s"
    by (simp add: eq h rules_updated_fields)
qed

lemma handler_inv_UpdateConfig:
  assumes "handler_inv s" and "update_orders order names perm (Clusters cfg) s"
  shows "handler_inv (Server_UpdateConfig drv penv order names perm mkdir cfg security s)"
  using assms
  by (simp add: handler_inv_def Server_UpdateConfig_eq Let_def audit_inv_UpdateConfig pool_inv_UpdateConfig
      rules_updated_frame)

section \<open>Construction and shutdown\<close>

lemma NewServer_ok:
  assumes ok: "NewServer drv getenv mkdir names order inst cfg = Inr s"
    and ro: "ranges_over names (Clusters (rc_config cfg))" and ord: "\<And>ns. set (order ns) = set ns"
  shows "handler_inv s" and "handles_owned s" and "dom (clusters s) = dom (Clusters (rc_config cfg))"
    and "rt_databases s = Databases (rc_config cfg)" and "h_config s = cfg"
    and "chk_rules (h_checker s) = GetSecurity cfg" and "rw_rules (h_rewriter s) = GetSecurity cfg"
    and "32 \<le> length (v_secret (srv_validator s))"
proof -
  obtain v p where v: "NewValidatorFromEnv getenv (JWTSecret (cfg_Server (rc_config cfg))) = Inr v"
    and p: "NewPool drv order names (Clusters (rc_config cfg)) empty_pool = (None, p)"
    using ok by (auto simp: NewServer_def rc_Get_def Let_def split: sum.splits prod.splits option.splits)
  then obtain l where l: "NewLogger mkdir (Audit (rc_config cfg)) = Inr l"
    and s: "s = handler.extend (NewHandler (NewRouter p (Databases (rc_config cfg))) (NewChecker (GetSecurity cfg))
        (NewRewriter (GetSecurity cfg)) l cfg)
      \<lparr>srv_validator = v, srv_limiter = NewIPRateLimiter DefaultRateLimiterConfig,
       srv_metrics = Metrics_Init ''safemysql'' inst, srv_registered = False, srv_started = False\<rparr>"
    using ok by (auto simp: NewServer_def rc_Get_def Let_def split: sum.splits)
  note pl = NewPool_laws(1) [OF ro ord p refl]
  note defs = s handler.defs NewHandler_def router.defs NewRouter_def pool.defs
  have "pool_inv s = pool_inv p" and "handles_owned s = handles_owned p"
    by (simp_all add: defs pool_inv_def handles_owned_def is_open_def)
  then show "handler_inv s" and "handles_owned s"
    using pl audit_inv_NewLogger [OF l] by (simp_all add: handler_inv_def defs)
  show "dom (clusters s) = dom (Clusters (rc_config cfg))" using pl by (simp add: defs)
  show "rt_databases s = Databases (rc_config cfg)" "h_config s = cfg" by (simp_all add: defs)
  show "chk_rules (h_checker s) = GetSecurity cfg" "rw_rules (h_rewriter s) = GetSecurity cfg"
    by (simp_all add: defs checker_cell.rules_new rewriter_cell.rules_new)
  show "32 \<le> length (v_secret (srv_validator s))"
    using NewValidatorFromEnv_ok(1) [OF v] by (simp add: defs)
qed

lemma NewServer_error:
  assumes err: "NewServer drv getenv mkdir names order inst cfg = Inl (e, p)"
    and ro: "ranges_over names (Clusters (rc_config cfg))" and ord: "\<And>ns. set (order ns) = set ns"
  shows "\<not> is_open h p"
proof (cases "NewValidatorFromEnv getenv (JWTSecret (cfg_Server (rc_config cfg)))")
  case (Inl x)
  then have "p = empty_pool" using err by (simp add: NewServer_def rc_Get_def Let_def)
  then show ?thesis by (simp add: empty_pool_def is_open_def)
next
  case (Inr v)
  obtain res q where q: "NewPool drv order names (Clusters (rc_config cfg)) empty_pool = (res, q)" by fastforce
  show ?thesis
  proof (cases res)
    case None
    then have "p = snd (Pool_Close drv (order names) q)"
      using err Inr q by (auto simp: NewServer_def rc_Get_def Let_def split: sum.splits)
    moreover have "handles_owned q" "dom (clusters q) = dom (Clusters (rc_config cfg))"
      using NewPool_laws(1) [OF ro ord q] None by auto
    ultimately show ?thesis
      using Pool_Close_closes [of q "order names" h drv] ord ro by (simp add: ranges_over_def)
  next
    case (Some x)
    then have "p = q" using err Inr q by (simp add: NewServer_def rc_Get_def Let_def)
    then show ?thesis using NewPool_laws(2) [OF ro ord q] Some by simp
  qed
qed

lemma Server_Shutdown_parts:
  assumes "Pool_Close drv order (s\<lparr>srv_limiter := Limiter_Close (srv_limiter s)\<rparr>) = (pe, s2)"
    and "Log_Close close_err (h_audit s2) = (ae, l)"
  shows "snd (Server_Shutdown drv http_err order close_err s) = s2\<lparr>h_audit := l\<rparr>"
    and "fst (Server_Shutdown drv http_err order close_err s) = None \<longleftrightarrow>
      (srv_started s \<longrightarrow> http_err = None) \<and> pe = None \<and> ae = None"
  by (simp_all add: Server_Shutdown_def assms Let_def err_list_def split: option.split)

lemma Server_Shutdown_closes:
  assumes "handles_owned s" and "set order = dom (clusters s)"
  shows "\<not> is_open h (snd (Server_Shutdown drv http_err order close_err s))"
proof -
  let ?s1 = "s\<lparr>srv_limiter := Limiter_Close (srv_limiter s)\<rparr>"
  obtain e s2 where p: "Pool_Close drv order ?s1 = (e, s2)" by fastforce
  obtain ae k where k: "Log_Close close_err (h_audit s2) = (ae, k)" by fastforce
  have "handles_owned ?s1" using assms(1) by (simp add: handles_owned_def is_open_def)
  then have "\<not> is_open h s2" using Pool_Close_closes [of ?s1 order h drv] assms(2) p by simp
  then show ?thesis using Server_Shutdown_parts(1) [OF p k] by (simp add: is_open_def)
qed

end
