(* ===== verification/Pool_Concurrency.thy ===== *)
theory Pool_Concurrency
  imports Pool_Update
begin

text \<open>
  \<open>Get\<close> against \<open>UpdateConfig\<close>, step by step.

  \<open>Get\<close> is three atomic steps: the lookup under the read lock, the load of \<open>closing\<close> and the
  increment of \<open>refCount\<close>. \<open>UpdateConfig\<close> is one locked step that marks and adds, then for each
  marked cluster a poll that sees the counter at zero (or the end of the 10 s context), the close and
  the deletion. \<open>race_step\<close> interleaves one caller of \<open>Get\<close> with one \<open>UpdateConfig\<close>.
\<close>

datatype getter =
    GStart string
  | GFound string nat
  | GPassed string nat
  | GDone nat
  | GFailed go_error

datatype updater =
    UStart
  | UWaiting "(string \<times> nat) list"

type_synonym 'a race = "'a pool_scheme \<times> getter \<times> updater"

definition no_refs :: "nat \<Rightarrow> 'a pool_scheme \<Rightarrow> bool" where
  "no_refs p s = (case mdbs s p of None \<Rightarrow> False | Some m \<Rightarrow> refCount m = 0)"

inductive race_step ::
  "driver \<Rightarrow> ClustersConfig \<Rightarrow> bool \<Rightarrow> 'a race \<Rightarrow> 'a race \<Rightarrow> bool"
  for drv new may_expire where
  found: "get_lookup c s = Inr p \<Longrightarrow>
    race_step drv new may_expire (s, GStart c, u) (s, GFound c p, u)"
| unknown: "get_lookup c s = Inl e \<Longrightarrow>
    race_step drv new may_expire (s, GStart c, u) (s, GFailed e, u)"
| passed: "\<not> get_closing p s \<Longrightarrow>
    race_step drv new may_expire (s, GFound c p, u) (s, GPassed c p, u)"
| is_closing: "get_closing p s \<Longrightarrow>
    race_step drv new may_expire (s, GFound c p, u)
      (s, GFailed (''cluster '' @ c @ '' is being closed''), u)"
| counted: "race_step drv new may_expire (s, GPassed c p, u) (incr_ref p s, GDone (handle_of p s), u)"
| locked: "update_orders order names (\<lambda>tc. tc) new s \<Longrightarrow>
    UpdateConfig_locked drv order names new s = (tc, s') \<Longrightarrow>
    race_step drv new may_expire (s, g, UStart) (s', g, UWaiting tc)"
| released: "no_refs p s \<or> may_expire \<Longrightarrow>
    race_step drv new may_expire (s, g, UWaiting ((n, p) # rest)) (close_one p n s, g, UWaiting rest)"

inductive_cases race_stepE: "race_step drv new may_expire r r'"

definition race_reach :: "driver \<Rightarrow> ClustersConfig \<Rightarrow> bool \<Rightarrow> 'a race \<Rightarrow> 'a race \<Rightarrow> bool" where
  "race_reach drv new may_expire = (race_step drv new may_expire)\<^sup>*\<^sup>*"

section \<open>What stays true\<close>

text \<open>
  The pool keeps its invariant under every interleaving, and the list the updater works through stays
  marked.
\<close>

definition race_inv :: "'a race \<Rightarrow> bool" where
  "race_inv r =
     (case r of (s, g, u) \<Rightarrow>
        pool_inv s \<and> (case u of UStart \<Rightarrow> True | UWaiting tc \<Rightarrow> marked_list tc s))"

lemma marked_list_incr: "marked_list tc s \<Longrightarrow> marked_list tc (incr_ref p s)"
  using same_shape_incr_ref [of s p] same_shape_get_closing [of s "incr_ref p s"]
  by (auto simp: marked_list_def same_shape_def)

lemma race_inv_step:
  assumes "race_inv r" and "race_step drv new may_expire r r'"
  shows "race_inv r'"
  using assms(2,1)
proof (cases rule: race_step.cases)
  case (counted s c p u)
  then show ?thesis
    using assms(1) pool_inv_same_shape [OF _ same_shape_incr_ref, of s p] marked_list_incr
    by (auto simp: race_inv_def split: updater.splits)
next
  case (locked order names s tc s' g)
  have inv: "pool_inv s" using assms(1) locked by (simp add: race_inv_def)
  have s': "tc = to_close new order s"
    "s' = (add_new drv new names (mark_ptrs (snd ` set (to_close new order s)) s))\<lparr>configs := new\<rparr>"
    using locked(4) by (auto simp: UpdateConfig_locked_def mark_closing_eq)
  have "pool_inv s'" by (simp add: s' state_frame pool_inv_add_new pool_inv_mark_ptrs inv)
  moreover have "marked_list tc s'"
    using locked_marked_list [OF inv locked(3)] by (simp add: s')
  ultimately show ?thesis using locked by (simp add: race_inv_def)
next
  case (released p s g n rest)
  then have ml: "marked_list ((n, p) # rest) s" and inv: "pool_inv s" using assms(1) by (simp_all add: race_inv_def)
  note ms = marked_list_step [OF ml same_shape_refl]
  show ?thesis
    using pool_inv_close_one [OF inv ms(1,2)] ms(3) released by (simp add: race_inv_def)
qed (auto simp: race_inv_def)

lemma race_inv_reach: "race_reach drv new may_expire r r' \<Longrightarrow> race_inv r \<Longrightarrow> race_inv r'"
  unfolding race_reach_def
  by (induction rule: rtranclp_induct) (auto intro: race_inv_step)

section \<open>The window between the check and the increment\<close>

lemma race_step_reach: "race_step drv new x r r' \<Longrightarrow> race_reach drv new x r' r'' \<Longrightarrow> race_reach drv new x r r''"
  unfolding race_reach_def by (rule converse_rtranclp_into_rtranclp)

lemma release_prefix:
  assumes "\<forall>(n, p) \<in> set tc1. no_refs p s"
  shows "race_reach drv new x (s, g, UWaiting (tc1 @ tc2))
     (fold (\<lambda>(n, p) s. close_one p n s) tc1 s, g, UWaiting tc2)"
  using assms
proof (induction tc1 arbitrary: s)
  case Nil
  then show ?case by (simp add: race_reach_def)
next
  case (Cons np tc1)
  obtain n p where np: "np = (n, p)" by (cases np)
  have "no_refs q (close_one p n s) = no_refs q s" for q by (simp add: no_refs_def state_frame)
  then have "\<forall>(n', q) \<in> set tc1. no_refs q (close_one p n s)" using Cons.prems by auto
  from Cons.IH [OF this]
  have "race_reach drv new x (close_one p n s, g, UWaiting (tc1 @ tc2))
      (fold (\<lambda>(n, p) s. close_one p n s) (np # tc1) s, g, UWaiting tc2)" by (simp add: np)
  moreover have "race_step drv new x (s, g, UWaiting ((n, p) # tc1 @ tc2)) (close_one p n s, g, UWaiting (tc1 @ tc2))"
    by (rule released) (use Cons.prems np in auto)
  ultimately show ?case using race_step_reach by (simp add: np) blast
qed

lemma fold_close_frame:
  "mdbs (fold (\<lambda>(n, p) s. close_one p n s) tc s) = mdbs s"
  by (induction tc arbitrary: s) (auto simp: state_frame)

lemma fold_close_is_open:
  "is_open h (fold (\<lambda>(n, p) s. close_one p n s) tc s) \<longleftrightarrow>
     is_open h s \<and> (\<forall>(n, p) \<in> set tc. handle_of p s \<noteq> h)"
proof (induction tc arbitrary: s)
  case (Cons np tc)
  obtain n p where np: "np = (n, p)" by (cases np)
  have "handle_of q (close_one p n s) = handle_of q s" for q by (simp add: handle_of_def state_frame)
  with Cons show ?case by (auto simp: np close_one_is_open)
qed simp

text \<open>
  An idle cluster whose endpoint changes: a caller that passed the check before the update marked the
  cluster is handed a handle that is closed by the time it has it, although the counter was at zero
  whenever the updater looked and its context never ended.
\<close>

lemma get_returns_closed:
  assumes inv: "pool_inv s" and c: "clusters s c = Some p" and nc: "\<not> get_closing p s"
    and idle: "\<And>n q. clusters s n = Some q \<Longrightarrow> no_refs q s"
    and changed: "must_close (configs s) new c"
    and ord: "update_orders order names (\<lambda>tc. tc) new s"
  shows "\<exists>s' u. race_reach drv new False (s, GStart c, UStart) (s', GDone (handle_of p s), u) \<and>
     \<not> is_open (handle_of p s) s'"
proof -
  let ?tc = "to_close new order s"
  define s1 where "s1 = (add_new drv new names (mark_ptrs (snd ` set ?tc) s))\<lparr>configs := new\<rparr>"
  let ?s2 = "fold (\<lambda>(n, p) s. close_one p n s) ?tc s1"
  have old: "mdbs s1 q = mdbs (mark_ptrs (snd ` set ?tc) s) q" if "mdbs s q = Some m" for q m
  proof -
    have "q < next_mdb s" using pool_invD(5) [OF inv, of q] that by (cases "q < next_mdb s") auto
    then show ?thesis by (simp add: s1_def state_frame add_new_old_mdbs)
  qed
  obtain m where m: "mdbs s p = Some m" using pool_invD(1) [OF inv c] by auto
  have hp: "handle_of p s1 = handle_of p s"
    using old [OF m] m by (simp add: handle_of_def mark_ptrs_lookup)
  have tc: "(c, p) \<in> set ?tc" using to_close_iff [OF update_ordersD(1) [OF ord]] c changed by blast
  have "no_refs q s1" if "(n, q) \<in> set ?tc" for n q
  proof -
    have q: "clusters s n = Some q" using to_close_iff [OF update_ordersD(1) [OF ord]] that by blast
    then obtain k where k: "mdbs s q = Some k" using pool_invD(1) [OF inv q] by auto
    then show ?thesis using idle [OF q] old [OF k] by (auto simp: no_refs_def mark_ptrs_lookup)
  qed
  then have "race_reach drv new False (s1, GPassed c p, UWaiting (?tc @ [])) (?s2, GPassed c p, UWaiting [])"
    by (intro release_prefix) auto
  moreover have "race_step drv new False (?s2, GPassed c p, UWaiting [])
      (incr_ref p ?s2, GDone (handle_of p ?s2), UWaiting [])" by (rule counted)
  moreover have "handle_of p ?s2 = handle_of p s"
    using hp fold_close_frame [of ?tc s1] by (simp add: handle_of_def)
  ultimately have tail: "race_reach drv new False (s1, GPassed c p, UWaiting ?tc)
      (incr_ref p ?s2, GDone (handle_of p s), UWaiting [])"
    unfolding race_reach_def by (simp add: rtranclp.rtrancl_into_rtrancl)
  have "race_reach drv new False (s, GStart c, UStart) (incr_ref p ?s2, GDone (handle_of p s), UWaiting [])"
  proof (intro race_step_reach [OF found] race_step_reach [OF passed] race_step_reach [OF locked])
    show "get_lookup c s = Inr p" using c by (simp add: get_lookup_def)
    show "\<not> get_closing p s" by (rule nc)
    show "update_orders order names (\<lambda>tc. tc) new s" by (rule ord)
    show "UpdateConfig_locked drv order names new s = (?tc, s1)"
      by (simp add: UpdateConfig_locked_def mark_closing_eq s1_def)
    show "race_reach drv new False (s1, GPassed c p, UWaiting ?tc)
      (incr_ref p ?s2, GDone (handle_of p s), UWaiting [])" by (rule tail)
  qed
  moreover have "\<not> is_open (handle_of p s) (incr_ref p ?s2)"
    using tc hp by (auto simp: incr_ref_def state_frame fold_close_is_open)
  ultimately show ?thesis by blast
qed

end
