(* ===== verification/Pool_Owned.thy ===== *)
theory Pool_Owned
  imports Pool_New Pool_Concurrency
begin

text \<open>
  No handle is lost: every operation of the pool keeps each open handle reachable from the map of
  clusters, so that closing the pool closes all of them. And the race of \<open>Pool_Concurrency\<close>
  always comes to an end.
\<close>

section \<open>Owned handles\<close>

lemma handles_ownedD:
  assumes "handles_owned s" and "is_open h s"
  obtains n p m where "clusters s n = Some p" and "mdbs s p = Some m" and "mdb_db m = h"
  using assms by (auto simp: handles_owned_def)

lemma handles_owned_same_shape:
  assumes "handles_owned s" and sh: "same_shape s s'"
  shows "handles_owned s'"
  unfolding handles_owned_def
proof (intro allI impI)
  fix h
  assume "is_open h s'"
  then have "is_open h s" using sh by (simp add: same_shape_def)
  with assms(1) obtain n p m where n: "clusters s n = Some p" "mdbs s p = Some m" "mdb_db m = h"
    by (rule handles_ownedD)
  then obtain m' where "mdbs s' p = Some m'" "mdb_db m' = h"
    using same_shape_core(2) [OF sh n(2)] by auto
  moreover have "clusters s' n = Some p" using sh n(1) by (simp add: same_shape_def)
  ultimately show "\<exists>n p m. clusters s' n = Some p \<and> mdbs s' p = Some m \<and> mdb_db m = h" by blast
qed

lemma handles_owned_mark_ptrs:
  assumes "handles_owned s"
  shows "handles_owned (mark_ptrs P s)"
  unfolding handles_owned_def
proof (intro allI impI)
  fix h
  assume "is_open h (mark_ptrs P s)"
  then have "is_open h s" by (simp add: is_open_def state_frame)
  with assms obtain n p m where "clusters s n = Some p" "mdbs s p = Some m" "mdb_db m = h"
    by (rule handles_ownedD)
  then show "\<exists>n p m. clusters (mark_ptrs P s) n = Some p \<and> mdbs (mark_ptrs P s) p = Some m \<and> mdb_db m = h"
    by (auto simp: state_frame mark_ptrs_lookup intro!: exI [of _ n] exI [of _ p])
qed

lemma handles_owned_add_new:
  "pool_inv s \<Longrightarrow> handles_owned s \<Longrightarrow> handles_owned (add_new drv new names s)"
  by (induction names arbitrary: s) (simp_all add: add_new_step pool_inv_open_cluster handles_owned_open_cluster)

lemma handles_owned_close_one:
  assumes own: "handles_owned s" and n: "clusters s n = Some p"
  shows "handles_owned (close_one p n s)"
  unfolding handles_owned_def
proof (intro allI impI)
  fix h
  assume "is_open h (close_one p n s)"
  then have h: "h \<noteq> handle_of p s" "is_open h s" by (simp_all add: close_one_is_open)
  from own h(2) obtain n' p' m where n': "clusters s n' = Some p'" "mdbs s p' = Some m" "mdb_db m = h"
    by (rule handles_ownedD)
  then have "p' \<noteq> p" using h(1) by (auto simp: handle_of_def)
  then have "n' \<noteq> n" using n n'(1) by auto
  with n' show "\<exists>n' p' m. clusters (close_one p n s) n' = Some p' \<and> mdbs (close_one p n s) p' = Some m \<and> mdb_db m = h"
    by (auto simp: state_frame)
qed

lemma handles_owned_close_marked:
  "pool_inv s \<Longrightarrow> marked_list tc s \<Longrightarrow> handles_owned s \<Longrightarrow> handles_owned (close_marked drv env b tc s)"
proof (induction tc arbitrary: b s)
  case (Cons np tc)
  obtain n p where np: "np = (n, p)" by (cases np)
  let ?s1 = "snd (snd (waitForRelease env b p s))"
  have sh: "same_shape s ?s1" by (rule same_shape_waitForRelease)
  note ms = marked_list_step [OF Cons.prems(2) [unfolded np] sh]
  have "pool_inv (close_one p n ?s1)"
    by (rule pool_inv_close_one [OF pool_inv_same_shape [OF Cons.prems(1) sh] ms(1,2)])
  moreover have "handles_owned (close_one p n ?s1)"
    by (rule handles_owned_close_one [OF handles_owned_same_shape [OF Cons.prems(3) sh] ms(1)])
  ultimately show ?case using Cons.IH ms(3) by (simp add: np close_marked_step Let_def)
qed simp

lemma handles_owned_configs [simp]: "handles_owned (s\<lparr>configs := c\<rparr>) = handles_owned s"
  by (simp add: handles_owned_def is_open_def)

lemma handles_owned_UpdateConfig:
  assumes inv: "pool_inv s" and own: "handles_owned s" and ord: "update_orders order names perm new s"
  shows "handles_owned (Pool_UpdateConfig drv env order names perm new s)"
  unfolding UpdateConfig_eq
  by (intro handles_owned_close_marked locked_marked_list inv ord)
    (simp_all add: state_frame pool_inv_add_new pool_inv_mark_ptrs inv own handles_owned_add_new handles_owned_mark_ptrs)

lemma finite_clusters_UpdateConfig:
  assumes "pool_inv s" and "update_orders order names perm new s"
  shows "finite (dom (clusters (Pool_UpdateConfig drv env order names perm new s)))"
proof -
  have fin: "finite (dom (clusters s))" "finite (dom new)"
    using update_ordersD(1,2) [OF assms(2)] by (metis List.finite_set ranges_over_def)+
  have "dom (clusters (Pool_UpdateConfig drv env order names perm new s)) \<subseteq> dom (clusters s) \<union> dom new"
  proof
    fix n
    assume "n \<in> dom (clusters (Pool_UpdateConfig drv env order names perm new s))"
    then show "n \<in> dom (clusters s) \<union> dom new"
      using UpdateConfig_clusters(2) [OF assms, of n drv env]
      by (cases "clusters s n") (auto simp: openable_def split: option.splits)
  qed
  with fin show ?thesis by (meson finite_Un finite_subset)
qed

section \<open>The race ends\<close>

fun getter_rank :: "getter \<Rightarrow> nat" where
  "getter_rank (GStart c) = 3"
| "getter_rank (GFound c p) = 2"
| "getter_rank (GPassed c p) = 1"
| "getter_rank (GDone h) = 0"
| "getter_rank (GFailed e) = 0"

fun updater_rank :: "updater \<Rightarrow> nat" where
  "updater_rank UStart = 0"
| "updater_rank (UWaiting tc) = length tc"

definition race_order :: "('a race \<times> 'a race) set" where
  "race_order = measures
     [\<lambda>(s, g, u). if u = UStart then 1 else 0, \<lambda>(s, g, u). updater_rank u, \<lambda>(s, g, u). getter_rank g]"

lemma wf_race_order: "wf race_order"
  by (simp add: race_order_def)

lemma race_step_order: "race_step drv new b r r' \<Longrightarrow> (r', r) \<in> race_order"
  by (induction rule: race_step.induct) (auto simp: race_order_def)

definition finished :: "'a race \<Rightarrow> bool" where
  "finished r = (case r of (s, g, u) \<Rightarrow> getter_rank g = 0 \<and> u = UWaiting [])"

definition race_finite :: "ClustersConfig \<Rightarrow> 'a race \<Rightarrow> bool" where
  "race_finite new r = (case r of (s, g, u) \<Rightarrow> u = UStart \<longrightarrow> finite (dom (clusters s)) \<and> finite (dom new))"

lemma race_finite_step: "race_finite new r \<Longrightarrow> race_step drv new b r r' \<Longrightarrow> race_finite new r'"
  by (erule race_step.cases) (auto simp: race_finite_def incr_ref_def state_frame)

lemma ranges_over_exists: "finite (dom m) \<Longrightarrow> \<exists>ks. ranges_over ks m"
  using finite_distinct_list [of "dom m"] by (auto simp: ranges_over_def)

lemma race_progress:
  assumes fin: "race_finite new r" and open_end: "\<not> finished r"
  shows "\<exists>r'. race_step drv new True r r'"
proof -
  obtain s g u where r: "r = (s, g, u)" by (cases r)
  show ?thesis
  proof (cases "getter_rank g = 0")
    case False
    then show ?thesis
    proof (cases g)
      case (GStart c)
      then show ?thesis
        by (cases "get_lookup c s") (unfold r, (blast intro: found unknown)+)
    next
      case (GFound c p)
      then show ?thesis by (cases "get_closing p s") (unfold r, (blast intro: passed is_closing)+)
    qed (auto simp: r intro: race_step.intros)
  next
    case True
    show ?thesis
    proof (cases u)
      case UStart
      then obtain order names where "ranges_over order (clusters s)" "ranges_over names new"
        using fin ranges_over_exists unfolding r race_finite_def prod.case by meson
      then have "update_orders order names (\<lambda>tc. tc) new s" by (simp add: update_orders_def)
      moreover obtain tc s' where "UpdateConfig_locked drv order names new s = (tc, s')" by fastforce
      ultimately show ?thesis using UStart by (auto simp: r intro: race_step.locked)
    next
      case (UWaiting tc)
      then obtain n p rest where "tc = (n, p) # rest"
        using open_end True by (cases tc) (auto simp: r finished_def)
      then show ?thesis using UWaiting by (auto simp: r intro: race_step.released)
    qed
  qed
qed

lemma race_reach_finite: "race_reach drv new b r r' \<Longrightarrow> race_finite new r \<Longrightarrow> race_finite new r'"
  unfolding race_reach_def by (induction rule: rtranclp_induct) (auto intro: race_finite_step)

lemma race_completes:
  assumes "race_finite new r"
  shows "\<exists>r'. race_reach drv new True r r' \<and> finished r'"
  using wf_race_order assms
proof (induction r rule: wf_induct_rule)
  case (less r)
  show ?case
  proof (cases "finished r")
    case True
    then show ?thesis unfolding race_reach_def by blast
  next
    case False
    then obtain r1 where s: "race_step drv new True r r1" using race_progress [OF less.prems] by blast
    from less.IH [OF race_step_order [OF s] race_finite_step [OF less.prems s]]
    show ?thesis using s by (auto simp: race_reach_def intro: converse_rtranclp_into_rtranclp)
  qed
qed

end
