(* ===== verification/Reachable.thy ===== *)
theory Reachable
  imports Service Pool_Owned
begin

text \<open>
  The running service as a state machine. A step is a complete tool call, a configuration update, a
  request that only touches the limiter or the metrics, a pool call of another goroutine, or the start of
  listening; a state is reachable when some sequence of steps leads to it from a successful \<open>New\<close>. Updates
  are whole here: the interleaving of the pool's own steps is in \<open>Pool_Concurrency\<close>, that of the
  steps of reloads in \<open>Reload_Concurrency\<close>, whose lone reloads keep the same invariant (\<open>Reload_Lone\<close>).
\<close>

inductive service_step ::
  "driver \<Rightarrow> (string \<Rightarrow> go_error + stmt_node list) \<Rightarrow> 'lim server \<Rightarrow> 'lim server \<Rightarrow> bool"
  for drv tidb where
  tool: "call_tool drv tidb clk order c tc s = Ret (resp, s') \<Longrightarrow> service_step drv tidb s s'"
| update: "update_orders order names perm (Clusters cfg) s \<Longrightarrow>
    service_step drv tidb s (Server_UpdateConfig drv penv order names perm mkdir cfg security s)"
| measured: "service_step drv tidb s (on_metrics f s)"
| limited: "service_step drv tidb s (s\<lparr>srv_limiter := l\<rparr>)"
| pooled: "service_step drv tidb s (pool_calls cs s)"
| listening: "service_step drv tidb s (snd (Server_Start listen s))"

inductive_cases service_stepE: "service_step drv tidb s s'"

inductive reachable ::
  "driver \<Rightarrow> (string \<Rightarrow> go_error + stmt_node list) \<Rightarrow> ReloadableConfig \<Rightarrow> 'lim server \<Rightarrow> bool"
  for drv tidb cfg where
  start: "NewServer drv getenv mkdir names order inst cfg = Inr s \<Longrightarrow>
    ranges_over names (Clusters (rc_config cfg)) \<Longrightarrow> (\<And>ns. set (order ns) = set ns) \<Longrightarrow>
    reachable drv tidb cfg s"
| step: "reachable drv tidb cfg s \<Longrightarrow> service_step drv tidb s s' \<Longrightarrow> reachable drv tidb cfg s'"

text \<open>
  The invariant: the handler's own, no open handle that the map of clusters has lost, the databases of the configuration the server was started with,
  the checker and the rewriter under the same rules, which are those of the current configuration
  whenever it has rules.
\<close>

definition service_inv :: "ReloadableConfig \<Rightarrow> 'lim server \<Rightarrow> bool" where
  "service_inv cfg0 s \<longleftrightarrow>
     handler_inv s \<and> handles_owned s \<and> rt_databases s = Databases (rc_config cfg0) \<and>
     rw_rules (h_rewriter s) = chk_rules (h_checker s) \<and>
     (\<forall>r. GetSecurity (h_config s) = Some r \<longrightarrow> chk_rules (h_checker s) = Some r) \<and>
     32 \<le> length (v_secret (srv_validator s))"

lemma handler_inv_server_fields [simp]:
  "handler_inv (on_metrics f s) = handler_inv s" "handler_inv (s\<lparr>srv_limiter := l\<rparr>) = handler_inv s"
  by (simp_all add: handler_inv_def pool_inv_def is_open_def on_metrics_def)

lemma Server_Start_frame [simp]:
  "clusters (snd (Server_Start listen s)) = clusters s" "handler_inv (snd (Server_Start listen s)) = handler_inv s"
  "handles_owned (snd (Server_Start listen s)) = handles_owned s"
  "rt_databases (snd (Server_Start listen s)) = rt_databases s" "h_checker (snd (Server_Start listen s)) = h_checker s"
  "h_rewriter (snd (Server_Start listen s)) = h_rewriter s" "h_config (snd (Server_Start listen s)) = h_config s"
  "srv_validator (snd (Server_Start listen s)) = srv_validator s"
  by (simp_all add: Server_Start_def Server_Handler_def Let_def handler_inv_def pool_inv_def handles_owned_def is_open_def)

lemma handles_owned_server_fields [simp]:
  "handles_owned (on_metrics f s) = handles_owned s" "handles_owned (s\<lparr>srv_limiter := l\<rparr>) = handles_owned s"
  by (simp_all add: handles_owned_def is_open_def on_metrics_def)

lemma handles_owned_handler_fields [simp]:
  "handles_owned (h\<lparr>h_config := c\<rparr>) = handles_owned h" "handles_owned (h\<lparr>h_checker := k\<rparr>) = handles_owned h"
  "handles_owned (h\<lparr>h_rewriter := w\<rparr>) = handles_owned h" "handles_owned (h\<lparr>h_audit := l\<rparr>) = handles_owned h"
  by (simp_all add: handles_owned_def is_open_def)

lemma handles_owned_tool_effect:
  assumes "tool_effect h h'" and "handles_owned h"
  shows "handles_owned h'"
  using assms by (auto simp: tool_effect_def routed_def intro: handles_owned_same_shape)

lemma handles_owned_Server_UpdateConfig:
  assumes "pool_inv s" and "handles_owned s" and "update_orders order names perm (Clusters cfg) s"
  shows "handles_owned (Server_UpdateConfig drv penv order names perm mkdir cfg security s)"
proof -
  have "handles_owned (rules_updated cfg security s)"
    using assms(2) by (simp add: rules_updated_def UpdateSecurityRules_def Let_def split: option.split)
  then show ?thesis
    using assms(1,3) by (simp add: Server_UpdateConfig_eq Let_def rules_updated_frame handles_owned_UpdateConfig)
qed

lemma more_validator: "handler.more s' = handler.more s \<Longrightarrow> srv_validator s' = srv_validator s"
  for s s' :: "'lim server"
  by (cases s; cases s') simp

lemma service_inv_step:
  assumes "service_inv cfg0 s" and "service_step drv tidb s s'"
  shows "service_inv cfg0 s'"
  using assms(2)
proof (cases rule: service_step.cases)
  case (tool clk order c tc resp)
  have "audit_inv (h_audit s)" using assms(1) by (simp add: service_inv_def handler_inv_def)
  note f = tool_effect_frame [OF tool_effect_call [OF this tool]]
  show ?thesis
    using assms(1) f more_validator [OF f(6)] handles_owned_tool_effect [OF tool_effect_call [OF \<open>audit_inv (h_audit s)\<close> tool]]
    by (simp add: service_inv_def)
next
  case (update order names perm cfg penv mkdir security)
  note f = Server_UpdateConfig_frame [where drv = drv and penv = penv and order = order and names = names
      and perm = perm and mkdir = mkdir and cfg = cfg and security = security and s = s]
  have "handler_inv s" and own: "pool_inv s" "handles_owned s"
    using assms(1) by (simp_all add: service_inv_def handler_inv_def)
  then have "handler_inv s'" and "handles_owned s'"
    using handler_inv_UpdateConfig update handles_owned_Server_UpdateConfig by simp_all
  then show ?thesis
    using assms(1) f more_validator [OF f(7)]
    by (auto simp: update(1) service_inv_def GetSecurity_def split: option.splits)
next
  case (measured f)
  then show ?thesis using assms(1) by (simp add: service_inv_def) (simp add: on_metrics_def)
next
  case (limited l)
  then show ?thesis using assms(1) by (simp add: service_inv_def)
next
  case (listening listen)
  then show ?thesis using assms(1) by (simp add: service_inv_def)
next
  case (pooled cs)
  have sh: "same_shape s s'" using same_shape_pool_calls [of s cs] pooled by simp
  then have m: "pool.more s' = pool.more s" by (simp add: same_shape_def)
  note fields = pool_more_router [OF m] pool_more_handler [OF m]
  show ?thesis
    using assms(1) fields pool_inv_same_shape [OF _ sh] handles_owned_same_shape [OF _ sh] more_validator [of s' s]
    by (simp add: service_inv_def handler_inv_def)
qed

lemma service_inv_reachable: "reachable drv tidb cfg s \<Longrightarrow> service_inv cfg s"
proof (induction rule: reachable.induct)
  case (start getenv mkdir names order inst s)
  note n = NewServer_ok [OF start(1,2)]
  show ?case using n [OF start(3)] by (simp add: service_inv_def)
next
  case (step s s')
  then show ?case by (blast intro: service_inv_step)
qed

lemma reachable_handler_inv: "reachable drv tidb cfg s \<Longrightarrow> handler_inv s"
  using service_inv_reachable [of drv tidb cfg s] by (simp add: service_inv_def)

end
