(* ===== verification/Demo.thy ===== *)
theory Demo
  imports Reachable Props_Security
begin

text \<open>
  One concrete deployment for the witnesses: a cluster \<open>main\<close> with one connection, a database
  \<open>shop\<close> on it, the rules \<open>plain_rules\<close>, a MySQL that answers every query with two rows
  and every statement with one affected row, a parser that knows two statements, and a token bucket
  that counts down.
\<close>

definition demo_driver :: driver where
  "demo_driver =
     \<lparr>drv_open = (\<lambda>dsn. None), drv_connect = (\<lambda>tr h. None),
      drv_exec = (\<lambda>tr h q. Inr \<lparr>RowsAffected = Inr 1, LastInsertId = Inr 0\<rparr>),
      drv_query = (\<lambda>tr h q args. Inr \<lparr>rd_columns = Inr [''id''], rd_items = [Inr [CInt 1], Inr [CInt 2]],
        rd_err = None\<rparr>),
      drv_close = (\<lambda>tr h. None)\<rparr>"

definition demo_tidb :: "string \<Rightarrow> go_error + stmt_node list" where
  "demo_tidb s =
     (if s = ''SELECT 1'' then Inr [SelectStmt None None None]
      else if s = ''DROP TABLE t'' then Inr [DropTableStmt [''t'']]
      else if s = '';'' then Inr []
      else Inl ''syntax error'')"

definition demo_cluster :: ClusterConfig where
  "demo_cluster =
     \<lparr>cl_Host = ''db'', cl_Port = 3306, Username = ''u'', Password = ''p'',
      MaxOpenConns = 1, MaxIdleConns = 1, ConnMaxLifetime = minute\<rparr>"

definition demo_moved :: ClusterConfig where
  "demo_moved = demo_cluster\<lparr>Password := ''p2''\<rparr>"

definition demo_db :: sqldb where
  "demo_db =
     \<lparr>db_dsn = GetDSN demo_cluster, db_maxOpen = 1, db_maxIdle = 1, db_maxLifetime = minute,
      db_inUse = 0, db_closed = False\<rparr>"

definition demo_pool :: pool where
  "demo_pool =
     \<lparr>dbs = [0 \<mapsto> demo_db], next_db = 1, trace = [],
      mdbs = [0 \<mapsto> \<lparr>mdb_db = 0, refCount = 0, closing = 0\<rparr>], next_mdb = 1,
      clusters = [''main'' \<mapsto> 0], configs = [''main'' \<mapsto> demo_cluster]\<rparr>"

definition demo_databases :: DatabasesConfig where
  "demo_databases = [''shop'' \<mapsto> \<lparr>Cluster = ''main''\<rparr>]"

definition demo_router :: router where
  "demo_router = NewRouter demo_pool demo_databases"

definition demo_audit_config :: AuditConfig where
  "demo_audit_config =
     \<lparr>Enabled = True, LogFile = ''audit.log'', MaxSQLLength = 5, MaxSizeMB = 1, MaxBackups = 1,
      MaxAgeDays = 1, Compress = False\<rparr>"

definition demo_audit :: audit_log where
  "demo_audit =
     \<lparr>writer = Some 0, maxSQLLen = 5, enabled = True, lj_heap = [0 \<mapsto> new_writer demo_audit_config],
      next_lj = 1, lj_trace = []\<rparr>"

definition demo_config :: Config where
  "demo_config =
     \<lparr>cfg_Server = \<lparr>srv_Host = ''h'', srv_Port = 8080, JWTSecret = replicate 32 (CHR ''k'')\<rparr>,
      Clusters = [''main'' \<mapsto> demo_cluster], Databases = demo_databases,
      cfg_Security = \<lparr>ConfigFile = ''sec.yaml''\<rparr>, Audit = demo_audit_config\<rparr>"

definition demo_rc :: ReloadableConfig where
  "demo_rc = \<lparr>rc_config = demo_config, rc_security = Some \<lparr>Security = plain_rules\<rparr>\<rparr>"

definition demo_handler :: handler where
  "demo_handler =
     NewHandler demo_router (NewChecker (Some plain_rules)) (NewRewriter (Some plain_rules)) demo_audit demo_rc"

definition demo_clock :: clock where
  "demo_clock = \<lparr>clk_start = Time 1, clk_done = Time 3000000, clk_log = Time 4000000\<rparr>"

definition demo_server :: "nat server" where
  "demo_server = handler.extend demo_handler
     \<lparr>srv_validator = NewValidator (replicate 32 (CHR ''k'')),
      srv_limiter = NewIPRateLimiter DefaultRateLimiterConfig,
      srv_metrics = Metrics_Init ''safemysql'' None, srv_registered = False, srv_started = False\<rparr>"

definition demo_rate :: "nat rate_lib" where
  "demo_rate = \<lparr>rate_NewLimiter = (\<lambda>r b. nat b), rate_Allow = (\<lambda>t n. (0 < n, n - 1))\<rparr>"

definition empty_request :: http_request where
  "empty_request = \<lparr>req_method = ''GET'', req_path = ''/mcp'', req_header = (\<lambda>_. ''''), req_remote = ''10.0.0.1:99'', req_body = ''''\<rparr>"

section \<open>The deployment satisfies the invariants\<close>

lemma demo_pool_inv: "pool_inv demo_pool"
  by (auto simp: pool_inv_def demo_pool_def is_open_def demo_db_def)

lemma demo_router_fields:
  "dbs demo_router = [0 \<mapsto> demo_db]" "clusters demo_router = [''main'' \<mapsto> 0]"
  "mdbs demo_router = [0 \<mapsto> \<lparr>mdb_db = 0, refCount = 0, closing = 0\<rparr>]"
  "next_db demo_router = 1" "next_mdb demo_router = 1" "rt_databases demo_router = demo_databases"
  "trace demo_router = []" "configs demo_router = [''main'' \<mapsto> demo_cluster]"
  by (simp_all add: demo_router_def NewRouter_def demo_pool_def pool.defs)

lemma demo_router_inv: "pool_inv demo_router"
  by (auto simp: pool_inv_def demo_router_fields is_open_def demo_db_def)

lemma demo_handler_fields:
  "dbs demo_handler = [0 \<mapsto> demo_db]" "clusters demo_handler = [''main'' \<mapsto> 0]"
  "mdbs demo_handler = [0 \<mapsto> \<lparr>mdb_db = 0, refCount = 0, closing = 0\<rparr>]"
  "next_db demo_handler = 1" "next_mdb demo_handler = 1" "rt_databases demo_handler = demo_databases"
  "trace demo_handler = []" "h_audit demo_handler = demo_audit" "h_config demo_handler = demo_rc"
  "h_checker demo_handler = NewChecker (Some plain_rules)"
  by (simp_all add: demo_handler_def NewHandler_def demo_router_def NewRouter_def demo_pool_def router.defs pool.defs)

lemma demo_audit_inv: "audit_inv demo_audit"
  by (simp add: audit_inv_def demo_audit_def)

lemma demo_handler_inv: "handler_inv demo_handler"
  by (auto simp: handler_inv_def pool_inv_def demo_handler_fields is_open_def demo_db_def demo_audit_inv)

lemma demo_update_orders: "update_orders [''main''] [''main''] (\<lambda>tc. tc) [''main'' \<mapsto> c] demo_pool"
  by (simp add: update_orders_def ranges_over_def demo_pool_def)

lemma demo_routes: "routes_to ''shop'' 0 demo_router"
  by (simp add: routes_to_def GetDB_def Get_def get_lookup_def get_closing_def handle_of_def
      demo_router_fields demo_databases_def)

end
