(* ===== verification/Props_Pool.thy ===== *)
theory Props_Pool
  imports Demo Pool_Owned
begin

text \<open>
  Properties of the database layer: the pool and its reconfiguration, the interleaving of \<open>Get\<close>
  with an update, and the connections a routed request takes.
\<close>

section \<open>The handles after an update\<close>

lemma UpdateConfig_handles:
  assumes inv: "pool_inv s" and ord: "update_orders order names perm new s"
    and n: "clusters s n = Some p"
  shows "handle_of p (Pool_UpdateConfig drv env order names perm new s) = handle_of p s"
    and "is_open (handle_of p s) (Pool_UpdateConfig drv env order names perm new s) \<longleftrightarrow>
      is_open (handle_of p s) s \<and> \<not> must_close (configs s) new n"
proof -
  let ?tc = "to_close new order s"
  define s1 where "s1 = (add_new drv new names (mark_ptrs (snd ` set ?tc) s))\<lparr>configs := new\<rparr>"
  let ?s' = "Pool_UpdateConfig drv env order names perm new s"
  note I = pool_invD [OF inv] and ro = update_ordersD(1) [OF ord]
  have s': "?s' = close_marked drv env update_polls (perm ?tc) s1" by (simp add: UpdateConfig_eq s1_def)
  have h1: "handle_of q s1 = handle_of q s" if kq: "clusters s k = Some q" for k q
  proof -
    obtain m where m: "mdbs s q = Some m" using I(1) [OF kq] by auto
    then have "q < next_mdb s" using I(5) [of q] by (cases "q < next_mdb s") auto
    then have "mdbs s1 q = mdbs (mark_ptrs (snd ` set ?tc) s) q"
      by (simp add: s1_def state_frame add_new_old_mdbs)
    then show ?thesis using handle_of_mark_ptrs [of q "snd ` set ?tc" s] by (simp add: handle_of_def)
  qed
  obtain m where m: "mdbs s p = Some m" using I(1) [OF n] by auto
  have "map_option mdb_core (mdbs ?s' p) = map_option mdb_core (mdbs s1 p)"
    unfolding s' by (rule close_marked_core)
  then have "handle_of p ?s' = handle_of p s1"
    by (cases "mdbs ?s' p"; cases "mdbs s1 p") (auto simp: handle_of_def mdb_core_def)
  with h1 [OF n] show "handle_of p ?s' = handle_of p s" by simp
  have hp: "handle_of p s = mdb_db m" by (simp add: handle_of_def m)
  have "mdb_db m < next_db s" using I(4) [OF m] I(6) [of "mdb_db m"] by (cases "mdb_db m < next_db s") auto
  then have old: "dbs s1 (mdb_db m) = dbs s (mdb_db m)"
    by (simp add: s1_def state_frame add_new_old_dbs)
  have mem: "mdb_db m \<in> (\<lambda>(k, q). handle_of q s1) ` set (perm ?tc) \<longleftrightarrow> must_close (configs s) new n"
  proof
    assume "mdb_db m \<in> (\<lambda>(k, q). handle_of q s1) ` set (perm ?tc)"
    then obtain k q where kq: "(k, q) \<in> set ?tc" "mdb_db m = handle_of q s1"
      using update_ordersD(4) [OF ord, of new] by auto
    then have k: "clusters s k = Some q" "must_close (configs s) new k"
      using to_close_iff [OF ro] by blast+
    obtain m' where m': "mdbs s q = Some m'" using I(1) [OF k(1)] by auto
    then have "mdb_db m = mdb_db m'" using kq(2) h1 [OF k(1)] by (simp add: handle_of_def)
    then have "p = q" using I(3) m m' by blast
    then have "n = k" using I(2) n k(1) by blast
    with k(2) show "must_close (configs s) new n" by simp
  next
    assume "must_close (configs s) new n"
    then have "(n, p) \<in> set (perm ?tc)"
      using to_close_iff [OF ro] n update_ordersD(4) [OF ord, of new] by blast
    then show "mdb_db m \<in> (\<lambda>(k, q). handle_of q s1) ` set (perm ?tc)"
      using h1 [OF n] hp by (force simp: image_iff)
  qed
  show "is_open (handle_of p s) ?s' \<longleftrightarrow> is_open (handle_of p s) s \<and> \<not> must_close (configs s) new n"
    using mem old by (auto simp: s' hp is_open_def close_marked_dbs split: option.splits)
qed

section \<open>The pool\<close>

text \<open>
C13. Every operation of the pool keeps its invariant (each cluster has an object of its own, each
object a handle of its own, and a cluster that is not being closed has an open handle); \<open>Get\<close> hands
out an open handle or fails without touching the pool.
\<close>

theorem pool_operations_keep_invariant:
  assumes "pool_inv s" and "update_orders order names perm new s"
  shows "pool_inv (snd (Get c s)) \<and> pool_inv (pool_release rel h s) \<and>
    pool_inv (Pool_UpdateConfig drv env order names perm new s) \<and>
    (case fst (Get c s) of Inr k \<Rightarrow> is_open k (snd (Get c s)) | Inl e \<Rightarrow> snd (Get c s) = s)"
proof -
  have "case fst (Get c s) of Inr k \<Rightarrow> is_open k (snd (Get c s)) | Inl e \<Rightarrow> snd (Get c s) = s"
    using pool.get_open [OF assms(1)] pool.get_error by (cases "Get c s") (auto split: sum.split)
  then show ?thesis
    using pool.get_inv [OF assms(1)] pool_inv_same_shape [OF assms(1) same_shape_release]
      pool_inv_UpdateConfig [OF assms] by blast
qed

theorem pool_operations_keep_invariant_witness:
  "pool_inv (Pool_UpdateConfig demo_driver (\<lambda>_. []) [''main''] [''main''] (\<lambda>tc. tc) [''main'' \<mapsto> demo_moved] demo_pool)"
  using pool_operations_keep_invariant [OF demo_pool_inv demo_update_orders [of demo_moved]] by blast

text \<open>
C14. What a reconfiguration does: a cluster that is removed or whose host, port, user or password
changed disappears from the pool and its handle is closed; every other cluster of the pool keeps its
object and its handle, open as before; and a cluster that was not in the pool is in it afterwards
exactly when it is configured and can be opened. In particular a cluster whose credentials changed is
unknown after the update.
\<close>

theorem update_config_effect:
  fixes s :: "'a pool_scheme"
  assumes inv: "pool_inv s" and ord: "update_orders order names perm new s"
  shows "(case clusters s n of
      Some p \<Rightarrow>
        clusters (Pool_UpdateConfig drv env order names perm new s) n =
          (if must_close (configs s) new n then None else Some p) \<and>
        handle_of p (Pool_UpdateConfig drv env order names perm new s) = handle_of p s \<and>
        is_open (handle_of p s) (Pool_UpdateConfig drv env order names perm new s) =
          (is_open (handle_of p s) s \<and> \<not> must_close (configs s) new n)
    | None \<Rightarrow>
        (clusters (Pool_UpdateConfig drv env order names perm new s) n \<noteq> None) = openable drv new n) \<and>
    configs (Pool_UpdateConfig drv env order names perm new s) = new"
  using UpdateConfig_clusters [OF inv ord, of n] UpdateConfig_handles [OF inv ord, of n]
  by (simp add: state_frame split: option.split)

theorem update_config_effect_witness:
  "clusters (Pool_UpdateConfig demo_driver (\<lambda>_. []) [''main''] [''main''] (\<lambda>tc. tc)
     [''main'' \<mapsto> demo_moved] demo_pool) ''main'' = None"
  using update_config_effect [OF demo_pool_inv demo_update_orders [of demo_moved],
    where n = "''main''" and drv = demo_driver and env = "\<lambda>_. []"]
  by (simp add: demo_pool_def must_close_def same_endpoint_def config_or_zero_def demo_moved_def demo_cluster_def)

text \<open>
C32. Waiting for a cluster: a poll that ends with success saw the counter at zero, one that ends without
it used up the shared budget with the counter not at zero; the budget never grows; and when nobody else
touches the pool the outcome is decided by the counter at the start.
\<close>

theorem wait_for_release:
  assumes "mdbs s p = Some m"
  shows "(case waitForRelease env b p s of (ok, b', s') \<Rightarrow>
      b' \<le> b \<and> ok = no_refs p s' \<and> (if ok then True else b' = 0)) \<and>
    waitForRelease (\<lambda>_. []) b p s = (refCount m = 0, if refCount m = 0 then b else 0, s)"
proof -
  have "case waitForRelease env b p s of (ok, b', s') \<Rightarrow>
      b' \<le> b \<and> ok = no_refs p s' \<and> (if ok then True else b' = 0)"
    using assms
  proof (induction env b p s arbitrary: m rule: waitForRelease.induct)
    case (2 env budget p s)
    show ?case
    proof (cases "refCount m = 0")
      case False
      obtain m' where m': "mdbs (pool_calls (env budget) s) p = Some m'"
        using same_shape_core(2) [OF same_shape_pool_calls 2(2)] by blast
      show ?thesis using 2(1) [OF 2(2) False m'] 2(2) False by (auto split: prod.splits)
    qed (use 2(2) in \<open>simp add: no_refs_def\<close>)
  qed (simp add: no_refs_def)
  moreover have "waitForRelease (\<lambda>_. []) b p s = (refCount m = 0, if refCount m = 0 then b else 0, s)"
    using assms by (induction b) (simp_all add: pool_calls_def)
  ultimately show ?thesis by blast
qed

theorem wait_for_release_witness:
  "waitForRelease (\<lambda>_. []) 200 0 demo_pool = (True, 200, demo_pool)"
  using wait_for_release [where s = demo_pool and p = 0 and m = "\<lparr>mdb_db = 0, refCount = 0, closing = 0\<rparr>"
      and b = 200]
  by (simp add: demo_pool_def)

lemma mdbs_world_frame [state_frame]:
  "mdbs (send h t q r) = mdbs r" "mdbs (acquire h r) = mdbs r" "mdbs (give_back h r) = mdbs r"
  by (simp_all add: send_def acquire_def give_back_def upd_db_def)

lemma on_conn_mdbs [state_frame]: "mdbs (on_conn t h d r) = mdbs r"
  by (simp add: on_conn_def state_frame)

lemma Query_mdbs: "mdbs (snd (Router_Query drv t database query args r)) = mdbs (snd (GetDB database r))"
  by (cases rule: Query_cases [where database = database and r = r and drv = drv and t = t and query = query and args = args])
    (auto simp: state_frame)

lemma Exec_mdbs: "mdbs (snd (Router_Exec drv t database query r)) = mdbs (snd (GetDB database r))"
  by (cases rule: Exec_cases [where database = database and r = r and drv = drv and t = t and query = query])
    (auto simp: state_frame)

text \<open>
A routed request keeps its reference: \<open>Query\<close> and \<open>Exec\<close> raise the reference count of
their cluster by one (with 32-bit wrap-around) and nothing in them lowers it again, whatever the outcome
of the request, so a cluster that was used makes a later update wait for its full time.
\<close>

lemma requests_keep_references:
  assumes "rt_databases r database = Some cfg" and "clusters r (Cluster cfg) = Some p"
    and "mdbs r p = Some m" and "closing m \<noteq> 1"
  shows "mdbs (snd (Router_Query drv t database query args r)) p =
      Some (m\<lparr>refCount := wrap32 (refCount m + 1)\<rparr>) \<and>
    mdbs (snd (Router_Exec drv t database query r)) p = Some (m\<lparr>refCount := wrap32 (refCount m + 1)\<rparr>)"
  using assms
  by (simp add: Query_mdbs Exec_mdbs GetDB_def Get_def get_lookup_def get_closing_def incr_ref_def upd_mdb_lookup)

lemma requests_keep_references_demo:
  "mdbs (snd (Router_Exec demo_driver 5 ''shop'' ''DELETE FROM t'' demo_router)) 0 =
     Some \<lparr>mdb_db = 0, refCount = 1, closing = 0\<rparr>"
  using requests_keep_references [of demo_router "''shop''" "\<lparr>Cluster = ''main''\<rparr>" 0
      "\<lparr>mdb_db = 0, refCount = 0, closing = 0\<rparr>" demo_driver 5 _ "[]"]
  by (simp add: demo_router_fields demo_databases_def wrap_int_def)

text \<open>
C15. The window in \<open>Get\<close>: from every pool that satisfies the invariant and is idle, and for every
cluster whose endpoint changes, there is an interleaving of one \<open>Get\<close> with one \<open>UpdateConfig\<close>,
in which the updater never gives up waiting, that hands out a handle which is already closed.
\<close>

theorem get_may_return_closed_handle:
  assumes "pool_inv s" and "clusters s c = Some p" and "\<not> get_closing p s"
    and "\<And>n q. clusters s n = Some q \<Longrightarrow> no_refs q s"
    and "must_close (configs s) new c" and "update_orders order names (\<lambda>tc. tc) new s"
  shows "\<exists>s' u. race_reach drv new False (s, GStart c, UStart) (s', GDone (handle_of p s), u) \<and>
    \<not> is_open (handle_of p s) s' \<and> pool_inv s'"
proof -
  obtain s' u where r: "race_reach drv new False (s, GStart c, UStart) (s', GDone (handle_of p s), u)"
    and c: "\<not> is_open (handle_of p s) s'"
    using get_returns_closed [OF assms(1-3) _ assms(5,6)] assms(4) by blast
  have "race_inv (s', GDone (handle_of p s), u)"
    by (rule race_inv_reach [OF r]) (simp add: race_inv_def assms(1))
  with r c show ?thesis by (auto simp: race_inv_def)
qed

theorem get_may_return_closed_handle_witness:
  "\<exists>s' u. race_reach demo_driver [''main'' \<mapsto> demo_moved] False (demo_pool, GStart ''main'', UStart) (s', GDone 0, u) \<and>
     \<not> is_open 0 s' \<and> pool_inv s'"
proof -
  have c: "clusters demo_pool ''main'' = Some 0" and nc: "\<not> get_closing 0 demo_pool"
    and h: "handle_of 0 demo_pool = 0"
    by (simp_all add: demo_pool_def get_closing_def handle_of_def)
  have idle: "no_refs q demo_pool" if "clusters demo_pool n = Some q" for n q
    using that by (simp add: demo_pool_def no_refs_def split: if_splits)
  have ch: "must_close (configs demo_pool) [''main'' \<mapsto> demo_moved] ''main''"
    by (simp add: demo_pool_def must_close_def same_endpoint_def config_or_zero_def demo_moved_def demo_cluster_def)
  show ?thesis
    using get_may_return_closed_handle [OF demo_pool_inv c nc idle ch demo_update_orders, where drv = demo_driver]
    by (simp add: h)
qed

text \<open>
The race always comes to an end: whatever the interleaving, a \<open>Get\<close> and an
\<open>UpdateConfig\<close> take finitely many steps, they are stuck only when both are finished, and from every
state they can reach there is a way to finish both.
\<close>

lemma race_always_completes:
  assumes "finite (dom (clusters s))" and "finite (dom new)"
  shows "wf {(r', r). race_step drv new b r r'} \<and>
    (\<forall>r. race_reach drv new True (s, GStart c, UStart) r \<longrightarrow>
       (finished r \<or> (\<exists>r'. race_step drv new True r r')) \<and>
       (\<exists>r'. race_reach drv new True r r' \<and> finished r'))"
proof (intro conjI allI impI)
  show "wf {(r', r). race_step drv new b r r'}"
    by (rule wf_subset [OF wf_race_order]) (use race_step_order in blast)
next
  fix r
  assume "race_reach drv new True (s, GStart c, UStart) r"
  then have fin: "race_finite new r"
    by (rule race_reach_finite) (simp add: race_finite_def assms)
  then show "finished r \<or> (\<exists>r'. race_step drv new True r r')" using race_progress by blast
  show "\<exists>r'. race_reach drv new True r r' \<and> finished r'" using race_completes [OF fin] by blast
qed

lemma race_always_completes_demo:
  "\<exists>r'. race_reach demo_driver [''main'' \<mapsto> demo_moved] True (demo_pool, GStart ''main'', UStart) r' \<and> finished r'"
proof -
  have "finite (dom (clusters demo_pool))" and "finite (dom [''main'' \<mapsto> demo_moved])"
    by (simp_all add: demo_pool_def)
  moreover have "race_reach demo_driver [''main'' \<mapsto> demo_moved] True (demo_pool, GStart ''main'', UStart)
      (demo_pool, GStart ''main'', UStart)"
    unfolding race_reach_def by (rule rtranclp.rtrancl_refl)
  ultimately show ?thesis
    by (rule race_always_completes [THEN conjunct2, rule_format, THEN conjunct2])
qed

text \<open>
Building a pool: on success it satisfies the invariant, has exactly the configured clusters and
every open handle belongs to one of them; on failure every handle that was opened is closed again.
\<close>

lemma new_pool_all_or_nothing:
  assumes "ranges_over names cfgs"
  shows "case NewPool drv (\<lambda>ns. ns) names cfgs empty_pool of
      (None, s) \<Rightarrow> pool_inv s \<and> handles_owned s \<and> dom (clusters s) = dom cfgs \<and> configs s = cfgs
    | (Some e, s) \<Rightarrow> (\<forall>h. \<not> is_open h s)"
proof -
  obtain res s where n: "NewPool drv (\<lambda>ns. ns) names cfgs empty_pool = (res, s)" by fastforce
  with NewPool_laws [OF assms _ n] show ?thesis by (cases res) auto
qed

lemma new_pool_all_or_nothing_demo:
  "case NewPool demo_driver (\<lambda>ns. ns) [''main''] [''main'' \<mapsto> demo_cluster] empty_pool of
      (None, s) \<Rightarrow> pool_inv s \<and> handles_owned s \<and> dom (clusters s) = {''main''} \<and> configs s = [''main'' \<mapsto> demo_cluster]
    | (Some e, s) \<Rightarrow> (\<forall>h. \<not> is_open h s)"
  using new_pool_all_or_nothing [of "[''main'']" "[''main'' \<mapsto> demo_cluster]" demo_driver]
  by (simp add: ranges_over_def split: prod.splits option.splits)

section \<open>Connections of routed requests\<close>

text \<open>
C11. Connection accounting: \<open>Exec\<close> leaves the handles exactly as they were on every path, a failing
\<open>Query\<close> does too, but a \<open>Query\<close> that succeeds leaves one more connection of its cluster in use,
and closing the rows it returned does not give it back.
\<close>

theorem query_keeps_a_connection:
  "dbs (snd (Router_Exec drv t database query r)) = dbs r \<and>
   (case Router_Query drv t database query args r of
      (Inl e, r') \<Rightarrow> dbs r' = dbs r
    | (Inr rows, r') \<Rightarrow> (\<exists>h. routes_to database h r \<and> dbs (rows_Close rows r') = dbs (acquire h r) \<and>
        in_use h (rows_Close rows r') = Suc (in_use h r)))"
proof (cases "Router_Query drv t database query args r")
  case (Pair res r')
  show ?thesis
  proof (cases res)
    case (Inl e)
    with Pair Query_dbs_error Exec_dbs [of drv t database query r] show ?thesis by simp blast
  next
    case (Inr rows)
    then obtain h where h: "fst (GetDB database r) = Inr h" "free_db h r" "dbs r' = dbs (acquire h r)"
      using Query_dbs_ok Pair by blast
    have c: "rows_Close rows r' = r'" using Pair Inr by (intro rows_Close_unowned) (auto intro: Query_owner)
    have "in_use h r' = in_use h (acquire h r)" using h(3) by (simp add: in_use_def)
    also have "\<dots> = Suc (in_use h r)" using h(2) by (auto simp: in_use_acquire free_db_def)
    finally show ?thesis
      using Pair Inr h c Exec_dbs [of drv t database query r] by (auto simp: routes_to_def)
  qed
qed

text \<open>
C12. The service wears out: of all the queries that are ever sent to one cluster, with their rows
closed after each, no more succeed than the cluster has connections, and as many connections as
succeeded are in use afterwards.
\<close>

theorem queries_exhaust_the_cluster:
  assumes "\<forall>req \<in> set reqs. routes_to (fst (snd req)) h r" and "dbs r h = Some d"
    and "0 < db_maxOpen d" and "db_inUse d = 0"
  shows "int (successes (fst (serve_queries drv reqs r))) \<le> db_maxOpen d \<and>
    in_use h (snd (serve_queries drv reqs r)) = successes (fst (serve_queries drv reqs r))"
proof -
  obtain d' where "dbs (snd (serve_queries drv reqs r)) h = Some d'"
    "db_inUse d' = successes (fst (serve_queries drv reqs r))" "int (db_inUse d') \<le> db_maxOpen d"
    using serve_queries_in_use [OF assms(1,2), of drv] assms(3,4) by auto
  then show ?thesis by (simp add: in_use_def)
qed

theorem queries_exhaust_the_cluster_witness:
  "int (successes (fst (serve_queries demo_driver (replicate 3 (5, ''shop'', ''SELECT 1'', [])) demo_router))) \<le> 1"
  using queries_exhaust_the_cluster [of "replicate 3 (5, ''shop'', ''SELECT 1'', [])" 0 demo_router demo_db demo_driver]
  by (simp add: demo_routes demo_router_fields demo_db_def)

text \<open>
What a routed query sends: at most a connection request, the selection of the database and the
query itself, in this order, to the handle the database is routed to and under the timeout of the
request; and the selection names exactly the database that was asked for when its name was validated.
\<close>

lemma routed_query_sends:
  assumes "ValidateDatabaseName database = None"
  shows "\<exists>k es. trace (snd (Router_Query drv t database query args r)) = trace r @ es \<and>
    prefix es [Event k t ReqConnect, Event k t (ReqExec (''USE '' @ QuoteIdentifier database)),
      Event k t (ReqQuery query args)] \<and>
    read_quoted (QuoteIdentifier database) = Some (database, [])"
proof -
  have "QuoteIdentifier database = ''`'' @ database @ ''`''"
    using assms by (simp add: QuoteIdentifier_def dbname.accepted_iff replace_char_absent identifier_no_backquote)
  moreover have "read_quoted (QuoteIdentifier database) = Some (database, [])"
    using quoted.dec_enc [of "[]" database] by (simp add: quote_stop_def)
  ultimately show ?thesis
    using Query_trace [of drv t database query args r] by (auto simp: query_events_def)
qed

lemma routed_query_sends_demo:
  "ValidateDatabaseName ''shop'' = None \<and>
   (\<exists>k es. trace (snd (Router_Query demo_driver 5 ''shop'' ''SELECT 1'' [] demo_router)) = trace demo_router @ es \<and>
      prefix es [Event k 5 ReqConnect, Event k 5 (ReqExec ''USE `shop`''), Event k 5 (ReqQuery ''SELECT 1'' [])])"
proof -
  have v: "ValidateDatabaseName ''shop'' = None"
    by (simp add: ValidateDatabaseName_def MaxIdentifierLength_def identifierRegex_def is_lower_def is_word_def)
  have "''USE '' @ QuoteIdentifier ''shop'' = ''USE `shop`''"
    by (simp add: QuoteIdentifier_def replace_char_def)
  with routed_query_sends [OF v, of demo_driver 5 "''SELECT 1''" "[]" demo_router] v show ?thesis by auto
qed

end
