(* ===== verification/Audit_Lines.thy ===== *)
theory Audit_Lines
  imports Audit_Log
begin

text \<open>
  Reading an audit line back: the encoded entry determines every field, so a caller cannot shape the
  text of one field to make it pass for another.
\<close>

section \<open>Prefix codes\<close>

lemma json_read_string: "list_all is_ascii a \<Longrightarrow> json_read (tl (json_string a @ x)) = Some (a, x)"
  by (simp add: json_string_def json_read_escape)

lemma json_string_cancel:
  assumes "list_all is_ascii a" and "list_all is_ascii b"
  shows "json_string a @ x = json_string b @ y \<longleftrightarrow> a = b \<and> x = y"
proof
  assume "json_string a @ x = json_string b @ y"
  then have "json_read (tl (json_string a @ x)) = json_read (tl (json_string b @ y))" by simp
  then show "a = b \<and> x = y" by (simp only: json_read_string [OF assms(1)] json_read_string [OF assms(2)]) simp
qed simp

lemma json_key_cancel:
  assumes "list_all is_ascii a" and "list_all is_ascii b"
  shows "json_key a @ x = json_key b @ y \<longleftrightarrow> a = b \<and> x = y"
  using json_string_cancel [OF assms, of "CHR '':'' # x" "CHR '':'' # y"] by (simp add: json_key_def)

lemma show_nat_inj: "show_nat a = show_nat b \<longleftrightarrow> a = b"
  by (metis dec_value_show_nat)

lemma show_nat_no_minus: "show_nat n \<noteq> CHR ''-'' # s"
  using show_nat_digits [of n] by (auto simp: is_digit_def)

lemma show_int_inj: "show_int a = show_int b \<longleftrightarrow> a = b"
proof -
  have "nat (- a) = nat (- b) \<longleftrightarrow> a = b" if "a < 0" "b < 0" using that by auto
  then show ?thesis
    using show_nat_no_minus show_nat_no_minus [symmetric] by (auto simp: show_int_def show_nat_inj)
qed

definition number_byte :: "char \<Rightarrow> bool" where
  "number_byte c \<longleftrightarrow> is_digit c \<or> c = CHR ''-''"

lemma show_int_bytes: "list_all number_byte (show_int i)"
  using show_nat_digits by (auto simp: show_int_def number_byte_def list_all_iff)

lemma show_int_cancel:
  assumes "\<not> number_byte c" and "\<not> number_byte d"
  shows "show_int a @ c # x = show_int b @ d # y \<longleftrightarrow> a = b \<and> c = d \<and> x = y"
proof
  assume e: "show_int a @ c # x = show_int b @ d # y"
  have "takeWhile number_byte (show_int i @ k # z) = show_int i" if "\<not> number_byte k" for i k z
    using show_int_bytes [of i] that by (simp add: list_all_iff)
  from this [OF assms(1)] this [OF assms(2)] have "show_int a = show_int b" using e by metis
  with e show "a = b \<and> c = d \<and> x = y" by (simp add: show_int_inj)
qed auto

section \<open>Timestamps\<close>

lemma show_int_ascii: "list_all is_ascii (show_int i)"
  using show_int_bytes [of i] by (auto simp: list_all_iff number_byte_def is_digit_def is_ascii_def)

lemma pad_ascii: "list_all is_ascii (pad w n)"
  using show_int_ascii [of n] by (auto simp: pad_def Let_def list_all_iff is_ascii_def)

lemma fraction_ascii: "list_all is_ascii (fraction ns)"
proof -
  have "list_all is_ascii (rev (dropWhile P (rev (pad 9 ns))))" for P
    using pad_ascii [of 9 ns] by (auto simp: list_all_iff dest: set_dropWhileD)
  then show ?thesis by (simp add: fraction_def is_ascii_def)
qed

lemma rfc3339_ascii: "rfc3339 t = Inr ts \<Longrightarrow> list_all is_ascii ts"
  by (auto simp: rfc3339_def Let_def pad_ascii fraction_ascii is_ascii_def split: prod.splits if_splits)

section \<open>Entries\<close>

definition ascii_entry :: "Entry \<Rightarrow> bool" where
  "ascii_entry e \<longleftrightarrow>
     list_all (list_all is_ascii)
       [e_UserID e, e_UserEmail e, e_Database e, e_SQL e, e_SQLType e, e_Status e, e_BlockReason e]"

lemma entry_json_determines:
  assumes "ascii_entry a" and "ascii_entry b" and "entry_json a = Inr d" and "entry_json b = Inr d"
  shows "rfc3339 (Timestamp a) = rfc3339 (Timestamp b)" and "a\<lparr>Timestamp := t\<rparr> = b\<lparr>Timestamp := t\<rparr>"
proof -
  obtain ta where ta: "rfc3339 (Timestamp a) = Inr ta" using assms(3) by (auto simp: entry_json_def split: sum.splits)
  obtain tb where tb: "rfc3339 (Timestamp b) = Inr tb" using assms(4) by (auto simp: entry_json_def split: sum.splits)
  have keys: "json_key ''rows_affected'' @ x \<noteq> json_key ''block_reason'' @ y"
    "json_key ''block_reason'' @ y \<noteq> json_key ''rows_affected'' @ x" for x y
    by (subst json_key_cancel; simp add: is_ascii_def)+
  have sep: "\<not> number_byte (CHR '','')" "\<not> number_byte (CHR ''}'')" by (simp_all add: number_byte_def is_digit_def)
  have eq: "entry_json a = entry_json b" using assms(3,4) by simp
  note A = assms(1,2)[unfolded ascii_entry_def list.pred_inject]
  have all: "ta = tb \<and> e_UserID a = e_UserID b \<and> e_UserEmail a = e_UserEmail b \<and> e_Database a = e_Database b \<and>
      e_SQL a = e_SQL b \<and> e_SQLType a = e_SQLType b \<and> e_Status a = e_Status b \<and>
      e_BlockReason a = e_BlockReason b \<and> e_RowsAffected a = e_RowsAffected b \<and>
      e_DurationMs a = e_DurationMs b \<and> e_SQLLength a = e_SQLLength b"
    using eq A
    by (cases "e_BlockReason a = ''''"; cases "e_BlockReason b = ''''")
      (simp_all add: entry_json_def ta tb json_string_cancel json_key_cancel show_int_cancel sep show_int_inj keys
        rfc3339_ascii [OF ta] rfc3339_ascii [OF tb])
  then show "rfc3339 (Timestamp a) = rfc3339 (Timestamp b)" by (simp add: ta tb)
  show "a\<lparr>Timestamp := t\<rparr> = b\<lparr>Timestamp := t\<rparr>"
    using all by (cases a; cases b) simp
qed

end
