(* ===== verification/Audit_Run.thy ===== *)
theory Audit_Run
  imports Audit_Log
begin

text \<open>
  Sequences of operations on one audit log: what happens to a writer that a reconfiguration has
  replaced.
\<close>

datatype audit_op =
    OpLog gotime Entry
  | OpUpdate "string \<Rightarrow> go_error option" AuditConfig
  | OpClose "nat \<Rightarrow> go_error option"

definition audit_step :: "audit_op \<Rightarrow> audit_log \<Rightarrow> audit_log" where
  "audit_step op l =
     (case op of
        OpLog now e \<Rightarrow> (case Log now e l of Ret l' \<Rightarrow> l' | Panic m \<Rightarrow> l)
      | OpUpdate mkdir cfg \<Rightarrow> snd (Log_UpdateConfig mkdir cfg l)
      | OpClose close_err \<Rightarrow> snd (Log_Close close_err l))"

definition audit_run :: "audit_op list \<Rightarrow> audit_log \<Rightarrow> audit_log" where
  "audit_run ops l = fold audit_step ops l"

fun on_writer :: "nat \<Rightarrow> lj_call \<Rightarrow> bool" where
  "on_writer w (LjWrite v data) = (v = w)"
| "on_writer w (LjClose v) = (v = w)"

text \<open>A writer the log has made and no longer holds.\<close>

definition abandoned :: "nat \<Rightarrow> audit_log \<Rightarrow> bool" where
  "abandoned w l \<longleftrightarrow> w < next_lj l \<and> writer l \<noteq> Some w"

text \<open>From \<open>l\<close> to \<open>l'\<close> the calls made are those of \<open>l\<close> and some on other writers.\<close>

definition untouched :: "nat \<Rightarrow> audit_log \<Rightarrow> audit_log \<Rightarrow> bool" where
  "untouched w l l' \<longleftrightarrow>
     lj_heap l' w = lj_heap l w \<and> (\<exists>cs. lj_trace l' = lj_trace l @ cs \<and> (\<forall>c \<in> set cs. \<not> on_writer w c))"

lemma untouched_refl: "untouched w l l"
  by (simp add: untouched_def)

lemma untouched_trans: "untouched w l l1 \<Longrightarrow> untouched w l1 l2 \<Longrightarrow> untouched w l l2"
  unfolding untouched_def by fastforce

lemma audit_step_abandoned:
  assumes "audit_inv l" and "abandoned w l"
  shows "audit_inv (audit_step op l)" and "abandoned w (audit_step op l)" and "untouched w l (audit_step op l)"
proof -
  have "audit_inv (audit_step op l) \<and> abandoned w (audit_step op l) \<and> untouched w l (audit_step op l)"
  proof (cases op)
    case (OpLog now e)
    show ?thesis
      by (cases rule: Log_cases [OF assms(1), of now e])
        (use assms in \<open>auto simp: OpLog audit_step_def abandoned_def untouched_def audit_inv_def\<close>)
  next
    case (OpUpdate mkdir cfg)
    then show ?thesis
      using assms audit_inv_UpdateConfig [OF assms(1)]
      by (auto simp: audit_step_def Log_UpdateConfig_def abandoned_def untouched_def split: option.splits)
  next
    case (OpClose close_err)
    then show ?thesis
      using assms audit_inv_Close [OF assms(1)]
      by (auto simp: audit_step_def Log_Close_def abandoned_def untouched_def split: option.splits)
  qed
  then show "audit_inv (audit_step op l)" and "abandoned w (audit_step op l)" and "untouched w l (audit_step op l)"
    by blast+
qed

lemma audit_run_abandoned:
  assumes "audit_inv l" and "abandoned w l"
  shows "abandoned w (audit_run ops l) \<and> untouched w l (audit_run ops l)"
  using assms
proof (induction ops arbitrary: l)
  case (Cons op ops)
  note st = audit_step_abandoned [OF Cons.prems, of op]
  from Cons.IH [OF st(1,2)] st(3) show ?case by (auto simp: audit_run_def intro: untouched_trans)
qed (simp add: audit_run_def untouched_refl)

lemma audit_inv_writer: "audit_inv l \<Longrightarrow> writer l = Some w \<Longrightarrow> w < next_lj l"
  by (meson audit_inv_def not_le)

end
