(* ===== verification/Tools_Errors.thy ===== *)
theory Tools_Errors
  imports Tools
begin

text \<open>
  \<open>Rows.Err\<close>, which reports that a result broke off early: only \<open>QueryRow\<close> and the search look
  at it, and the search drops what it learns. Two drivers that differ in nothing but this report give
  the same tool calls.
\<close>

definition without_err :: "'a rows_data_scheme \<Rightarrow> 'a rows_data_scheme" where
  "without_err r = r\<lparr>rd_err := None\<rparr>"

definition hide_row_errors :: "driver \<Rightarrow> driver" where
  "hide_row_errors drv =
     drv\<lparr>drv_query := (\<lambda>tr h q args. map_sum (\<lambda>e. e) without_err (drv_query drv tr h q args))\<rparr>"

lemma hide_row_errors_simps [simp]:
  "drv_open (hide_row_errors drv) = drv_open drv" "drv_connect (hide_row_errors drv) = drv_connect drv"
  "drv_exec (hide_row_errors drv) = drv_exec drv" "drv_close (hide_row_errors drv) = drv_close drv"
  "drv_query (hide_row_errors drv) tr h q args = map_sum (\<lambda>e. e) without_err (drv_query drv tr h q args)"
  by (simp_all add: hide_row_errors_def)

lemma without_err_simps [simp]:
  "rd_columns (without_err r) = rd_columns r" "rd_items (without_err r) = rd_items r"
  "rd_err (without_err r) = None"
  by (simp_all add: without_err_def)

lemma with_owner_without_err: "with_owner own (without_err r) = without_err (with_owner own r)"
  by (simp add: with_owner_def without_err_def rows_data.defs)

lemma rows_Close_without_err [simp]: "rows_Close (without_err rows) w = rows_Close rows w"
  by (cases rows) (simp add: rows_Close_def without_err_def)

text \<open>What a request answers, with the report removed.\<close>

definition blind :: "(go_error + sql_rows) \<times> 's \<Rightarrow> (go_error + sql_rows) \<times> 's" where
  "blind = map_prod (map_sum (\<lambda>e. e) without_err) (\<lambda>s. s)"

lemma blind_simps [simp]:
  "blind (Inl e, s) = (Inl e, s)" "blind (Inr rows, s) = (Inr (without_err rows), s)"
  by (simp_all add: blind_def)

lemma hidden_requests [simp]:
  "db_Conn (hide_row_errors drv) t h w = db_Conn drv t h w"
  "conn_Exec (hide_row_errors drv) t h q w = conn_Exec drv t h q w"
  "conn_Query (hide_row_errors drv) t h q args w = blind (conn_Query drv t h q args w)"
  by (simp_all add: db_Conn_def conn_Exec_def conn_Query_def with_owner_without_err split: sum.split option.split)

lemma hidden_db_Query [simp]:
  "db_Query (hide_row_errors drv) t h q args w = blind (db_Query drv t h q args w)"
  by (simp add: db_Query_def with_owner_without_err split: sum.split prod.split)

lemma hidden_router [simp]:
  "useDB (hide_row_errors drv) t conn database r = useDB drv t conn database r"
  "Router_Exec (hide_row_errors drv) t database q r = Router_Exec drv t database q r"
  by (simp_all add: useDB_def Router_Exec_def split: sum.split prod.split option.split)

lemma hidden_Router_Query [simp]:
  "Router_Query (hide_row_errors drv) t database q args r = blind (Router_Query drv t database q args r)"
  by (simp add: Router_Query_def split: sum.split prod.split option.split)

lemma hidden_query_tool [simp]:
  "executeQuery (hide_row_errors drv) tidb clk c db s h = executeQuery drv tidb clk c db s h"
proof -
  have "run_read (hide_row_errors drv) clk c db s p q ws h = run_read drv clk c db s p q ws h" for p q ws
    by (cases "Router_Query drv (getQueryTimeout h) db q [] h") (simp add: run_read_def split: sum.split outcome.split)
  moreover have "run_write (hide_row_errors drv) clk c db s p q ws h = run_write drv clk c db s p q ws h" for p q ws
    by (simp add: run_write_def)
  ultimately show ?thesis by (simp add: executeQuery_def Let_def split: sum.split option.split prod.split)
qed

lemma hidden_explain [simp]:
  "executeExplain (hide_row_errors drv) tidb db s h = executeExplain drv tidb db s h"
  by (cases "Router_Query drv (getQueryTimeout h) db (''EXPLAIN '' @ s) [] h")
    (simp add: executeExplain_def split: sum.split option.split)

lemma hidden_with_rows:
  assumes "\<And>rows. consume (without_err rows) = consume rows"
  shows "with_rows (hide_row_errors drv) db q args consume h = with_rows drv db q args consume h"
  by (simp add: with_rows_def assms blind_def split: sum.split prod.split)

lemma hidden_metadata [simp]:
  "executeListTables (hide_row_errors drv) db h = executeListTables drv db h"
  "executeDescribeTable (hide_row_errors drv) db t h = executeDescribeTable drv db t h"
  by (simp_all add: executeListTables_def executeDescribeTable_def hidden_with_rows)

lemma hidden_search_loop [simp]:
  "search_loop (hide_row_errors drv) t pat n ns ms h = search_loop drv t pat n ns ms h"
proof (induction ns arbitrary: ms h)
  case (Cons d ns)
  obtain res h1 where g: "GetDB d h = (res, h1)" by fastforce
  show ?case
  proof (cases res)
    case (Inr k)
    obtain rs h2 where q: "db_Query drv t k search_query [ArgString d, ArgString pat, ArgInt (n - int (length ms) + 1)] h1
        = (rs, h2)" by fastforce
    show ?thesis using Cons.IH by (cases rs) (simp_all add: g Inr q Let_def split: prod.split bool.split)
  qed (simp add: g Cons.IH)
qed simp

lemma hidden_search [simp]:
  "executeSearchTables (hide_row_errors drv) order pat h = executeSearchTables drv order pat h"
  by (simp add: executeSearchTables_def)

lemma hidden_call:
  "(case tc of ShowCreateTableCall db t \<Rightarrow> False | _ \<Rightarrow> True) \<Longrightarrow>
     call_tool (hide_row_errors drv) tidb clk order c tc h = call_tool drv tidb clk order c tc h"
  by (cases tc)
    (simp_all add: handleQueryTool_def handleListTablesTool_def handleDescribeTableTool_def handleExplainTool_def
      handleSearchTablesTool_def split: option.split)

end
