(* ===== verification/Props_Tools.thy ===== *)
theory Props_Tools
  imports Demo Audit_Lines Audit_Run Tools_Errors
begin

text \<open>
  Properties of the MCP tools: what is sent to MySQL on behalf of a caller, what the caller gets, and
  what the audit log says about it.
\<close>

section \<open>The query tool\<close>

text \<open>
C1. The gate of the query tool: a statement reaches MySQL only when the policy in force allows its
type. Then what is sent is at most a connection request, the selection of the database and the executed
text, in this order, under the configured timeout and on the handle the database is routed to, and all
of it when the call succeeds; in every other case nothing is sent.
\<close>

theorem query_gate:
  assumes "audit_inv (h_audit h)"
  shows "case executeQuery drv tidb clk c db s h of
      Panic m \<Rightarrow> tidb s = Inr []
    | Ret (r, h') \<Rightarrow>
        (case Parse tidb s of
           Inr (Some p) \<Rightarrow>
             if policy (chk_rules (h_checker h)) (SqlType p) then
               \<exists>k es. trace h' = trace h @ es \<and> (es = [] \<or> routes_to db k h) \<and>
                 prefix es (query_events k (getQueryTimeout h) db (request_of p (executed_text h p s))) \<and>
                 (case r of
                    Inr v \<Rightarrow> es = query_events k (getQueryTimeout h) db (request_of p (executed_text h p s))
                  | Inl e \<Rightarrow> True)
             else trace h' = trace h
         | _ \<Rightarrow> trace h' = trace h)"
proof (cases "executeQuery drv tidb clk c db s h")
  case (Panic m)
  then show ?thesis using executeQuery_panics_iff [OF assms, of drv tidb clk c db s] by simp
next
  case (Ret x)
  obtain r h' where x: "x = (r, h')" by (cases x)
  note sends = executeQuery_sends [OF assms Ret [unfolded x]]
  show ?thesis
  proof (cases "trace h' = trace h \<and> (\<exists>e. r = Inl e)")
    case True
    then show ?thesis by (auto simp: Ret x split: sum.split option.split intro!: exI [of _ "[]"])
  next
    case False
    with sends obtain p k es where "Parse tidb s = Inr (Some p)" "policy (chk_rules (h_checker h)) (SqlType p)"
      "trace h' = trace h @ es" "es = [] \<or> routes_to db k h"
      "prefix es (query_events k (getQueryTimeout h) db (request_of p (executed_text h p s)))"
      "\<forall>v. r = Inr v \<longrightarrow> es = query_events k (getQueryTimeout h) db (request_of p (executed_text h p s))"
      by blast
    then show ?thesis by (auto simp: Ret x split: sum.split intro!: exI [of _ k] exI [of _ es])
  qed
qed

lemma demo_drop_refused: "\<not> policy (Some plain_rules) SQLTypeDrop"
  by (simp add: policy_def plain_rules_def equal_fold_def lower_char_def is_upper_def char_eq_of_char)

lemma demo_drop_parsed:
  "\<exists>p. Parse demo_tidb ''DROP TABLE t'' = Inr (Some p) \<and> SqlType p = SQLTypeDrop"
  by (simp add: Parse_def demo_tidb_def parseStmt_Type)

theorem query_gate_witness:
  "case executeQuery demo_driver demo_tidb demo_clock Background ''shop'' ''DROP TABLE t'' demo_handler of
      Panic m \<Rightarrow> False | Ret (r, h') \<Rightarrow> trace h' = []"
proof -
  obtain p where p: "Parse demo_tidb ''DROP TABLE t'' = Inr (Some p)" "SqlType p = SQLTypeDrop"
    using demo_drop_parsed by blast
  have "audit_inv (h_audit demo_handler)" by (simp add: demo_handler_fields demo_audit_inv)
  from query_gate [OF this, where drv = demo_driver and tidb = demo_tidb and clk = demo_clock and c = Background
      and db = "''shop''" and s = "''DROP TABLE t''"]
  show ?thesis
    using p demo_drop_refused
    by (simp add: demo_handler_fields checker_cell.rules_new demo_tidb_def split: outcome.splits prod.splits)
qed

text \<open>
C3. The executed text: it is the caller's text, except that an UPDATE or DELETE without WHERE and
without LIMIT gets the automatic limit appended when rules with a positive one are configured. So a
SELECT is always sent as it was given, and the maximum for its LIMIT is not applied to it.
\<close>

theorem executed_text_is:
  assumes "Parse tidb s = Inr (Some p)" and "rw_rules (h_rewriter h) = chk_rules (h_checker h)"
  shows "executed_text h p s =
      (case chk_rules (h_checker h) of
         None \<Rightarrow> s
       | Some r \<Rightarrow> if unfiltered_write p \<and> \<not> HasLimit p \<and> 0 < AutoLimit r then addLimit s (AutoLimit r) else s) \<and>
    (if SqlType p = SQLTypeSelect then executed_text h p s = s else True)"
proof -
  have "Original p = s" using Parse_SomeE [OF assms(1)] by (metis parseStmt_Original)
  then show ?thesis
    using assms(2)
    by (auto simp: executed_text_def Rewrite_def unfiltered_write_def Let_def split: option.split)
qed

theorem executed_text_is_witness:
  "executed_text demo_handler (parseStmt (SelectStmt None None None) ''SELECT 1'') ''SELECT 1'' = ''SELECT 1''"
proof -
  have "Parse demo_tidb ''SELECT 1'' = Inr (Some (parseStmt (SelectStmt None None None) ''SELECT 1''))"
    by (simp add: Parse_def demo_tidb_def)
  moreover have "rw_rules (h_rewriter demo_handler) = chk_rules (h_checker demo_handler)"
    by (simp add: demo_handler_def NewHandler_def router.defs rewriter_cell.rules_new checker_cell.rules_new)
  ultimately show ?thesis by (auto dest: executed_text_is simp: parseStmt_Type)
qed

text \<open>
C10. When a tool call panics: exactly when a query or explain call passes the validation of its
arguments and its text holds no statement at all, such as a lone semicolon or a comment; no other tool
and no other text can make a handler panic.
\<close>

theorem call_panics_iff:
  assumes "audit_inv (h_audit h)"
  shows "(\<exists>m. call_tool drv tidb clk order c tc h = Panic m) \<longleftrightarrow>
    (\<exists>db s. (tc = QueryCall db s \<or> tc = ExplainCall db s) \<and>
       ValidateDatabaseName db = None \<and> ValidateSQL s = None \<and> tidb s = Inr [])"
proof (cases tc)
  case (QueryCall db s)
  have "(\<exists>m. handleQueryTool drv tidb clk c db s h = Panic m) \<longleftrightarrow>
      ValidateDatabaseName db = None \<and> ValidateSQL s = None \<and> (\<exists>m. executeQuery drv tidb clk c db s h = Panic m)"
    by (auto simp: handleQueryTool_def respond_out_def split: option.split outcome.split)
  with QueryCall executeQuery_panics_iff [OF assms] show ?thesis by simp
next
  case (ExplainCall db s)
  have "(\<exists>m. handleExplainTool drv tidb db s h = Panic m) \<longleftrightarrow>
      ValidateDatabaseName db = None \<and> ValidateSQL s = None \<and> (\<exists>m. executeExplain drv tidb db s h = Panic m)"
    by (auto simp: handleExplainTool_def respond_out_def split: option.split outcome.split)
  moreover have "(\<exists>m. executeExplain drv tidb db s h = Panic m) \<longleftrightarrow> tidb s = Inr []"
    by (cases rule: executeExplain_cases [where tidb = tidb and s = s and drv = drv and db = db and h = h])
      (auto simp: Parse_def)
  ultimately show ?thesis using ExplainCall by simp
qed (use call_tool_panics [OF assms] in blast)+

theorem call_panics_iff_witness:
  "\<exists>m. call_tool demo_driver demo_tidb demo_clock [''shop''] Background (QueryCall ''shop'' '';'') demo_handler = Panic m"
proof -
  have "audit_inv (h_audit demo_handler)" by (simp add: demo_handler_fields demo_audit_inv)
  then show ?thesis
    by (subst call_panics_iff)
      (simp_all add: demo_tidb_def ValidateDatabaseName_def MaxIdentifierLength_def identifierRegex_def is_lower_def
        is_word_def ValidateSQL_def Validation.MaxSQLLength_def)
qed

lemma fetch_all_Inr_iff:
  "fetch_all items acc = Inr rs \<longleftrightarrow> (\<exists>vs. items = map Inr vs \<and> rs = acc @ map (map to_text) vs)"
proof (induction items arbitrary: acc)
  case (Cons item items)
  show ?case
  proof (cases item)
    case (Inr v)
    have "(\<exists>vs. item # items = map Inr vs \<and> rs = acc @ map (map to_text) vs) \<longleftrightarrow>
        (\<exists>ws. items = map Inr ws \<and> rs = (acc @ [map to_text v]) @ map (map to_text) ws)"
      by (auto simp: Inr Cons_eq_map_conv)
    with Cons [of "acc @ [map to_text v]"] Inr show ?thesis by simp
  qed (auto simp: Cons_eq_map_conv)
qed auto

lemma fetch_rows_Inr:
  assumes "0 < n" and "fetch_rows n items [] = Inr rs"
  shows "\<exists>vs. take (nat n) items = map Inr vs \<and> rs = map (map to_text) vs \<and> int (length vs) \<le> n"
proof -
  obtain vs where vs: "take (nat n) items = map Inr vs" "rs = map (map to_text) vs"
    using assms(2) by (auto simp: fetch_rows_eq fetch_all_Inr_iff)
  have "length vs \<le> nat n" using arg_cong [OF vs(1), of length] by simp
  with vs assms(1) show ?thesis by auto
qed

text \<open>
C30. The answer of a read: the columns of the result and its first rows, as many as the configured
maximum and with byte strings as text. Only these rows have to be readable: rows beyond the maximum and
an error at the end of the result are not looked at.
\<close>

theorem read_answer:
  assumes "audit_inv (h_audit h)" and "Parse tidb s = Inr (Some p)" and "is_read (SqlType p)"
    and "executeQuery drv tidb clk c db s h = Ret (Inr res, h')"
  shows "\<exists>rows vs. fst (Router_Query drv (getQueryTimeout h) db (executed_text h p s) [] h) = Inr rows \<and>
    rd_columns rows = Inr (qr_Columns res) \<and> take (nat (getMaxRows h)) (rd_items rows) = map Inr vs \<and>
    qr_Rows res = map (map to_text) vs \<and> qr_RowsAffected res = int (length vs) \<and>
    int (length vs) \<le> getMaxRows h"
proof (cases rule: executeQuery_cases [OF assms(1), of tidb s drv clk c db,
      consumes 0, case_names no_statement unparsed blocked reads writes])
  case (reads p' q ws)
  then have p: "p' = p" using assms(2) by simp
  note q = rewrite_step_text [OF reads(2,4)]
  show ?thesis
    by (cases rule: run_read_cases [OF assms(1), of drv db q clk c s p' ws, consumes 0, case_names refused lost answered])
      (use reads assms(4) p q in \<open>auto dest!: fetch_rows_Inr [OF getMaxRows_pos]\<close>)
qed (use assms in \<open>auto simp: Parse_def\<close>)

lemma demo_query_rows:
  "fst (Router_Query demo_driver t ''shop'' q [] demo_handler) =
     Inr (with_owner None \<lparr>rd_columns = Inr [''id''], rd_items = [Inr [CInt 1], Inr [CInt 2]], rd_err = None\<rparr>)"
proof -
  have r: "routes_to ''shop'' 0 demo_handler"
    by (simp add: routes_to_def GetDB_def Get_def get_lookup_def get_closing_def handle_of_def
        demo_handler_fields demo_databases_def)
  then obtain h1 where g: "GetDB ''shop'' demo_handler = (Inr 0, h1)"
    by (cases "GetDB ''shop'' demo_handler") (simp add: routes_to_def)
  have "dbs h1 = [0 \<mapsto> demo_db]" using GetDB_dbs [OF g] by (simp add: demo_handler_fields)
  then have c: "\<exists>h2. db_Conn demo_driver t 0 h1 = (Inr 0, h2)"
    by (simp add: db_Conn_def exhausted_def demo_db_def demo_driver_def)
  show ?thesis
    using c by (auto simp: Router_Query_def g useDB_def conn_Exec_def conn_Query_def demo_driver_def with_owner_def)
qed

lemma demo_select:
  "Parse demo_tidb ''SELECT 1'' = Inr (Some (parseStmt (SelectStmt None None None) ''SELECT 1''))"
  by (simp add: Parse_def demo_tidb_def)

lemma demo_select_allowed: "policy (chk_rules (h_checker demo_handler)) SQLTypeSelect"
  by (simp add: policy_def demo_handler_fields checker_cell.rules_new plain_rules_def equal_fold_def IsDML_def)

lemma demo_max_rows: "getMaxRows demo_handler = 100"
  by (simp add: getMaxRows_def demo_handler_fields demo_rc_def GetSecurity_def plain_rules_def)

lemma demo_handler_audit_inv: "audit_inv (h_audit demo_handler)"
  by (simp add: demo_handler_fields demo_audit_inv)

lemma demo_select_runs:
  "\<exists>res h'. executeQuery demo_driver demo_tidb demo_clock Background ''shop'' ''SELECT 1'' demo_handler = Ret (Inr res, h')"
proof (cases rule: executeQuery_cases [OF demo_handler_audit_inv, of demo_tidb "''SELECT 1''" demo_driver demo_clock
      Background "''shop''", consumes 0, case_names no_statement unparsed blocked reads writes])
  case (reads p q ws)
  show ?thesis
    by (cases rule: run_read_cases [OF demo_handler_audit_inv, of demo_driver "''shop''" q demo_clock Background
          "''SELECT 1''" p ws, consumes 0, case_names refused lost answered])
      (use reads demo_max_rows demo_query_rows [of "getQueryTimeout demo_handler" q] in
        \<open>auto simp: with_owner_def rows_data.defs\<close>)
qed (use demo_select demo_select_allowed in \<open>auto simp: demo_tidb_def parseStmt_Type is_read_def\<close>)

theorem read_answer_witness:
  "\<exists>res h'. executeQuery demo_driver demo_tidb demo_clock Background ''shop'' ''SELECT 1'' demo_handler = Ret (Inr res, h') \<and>
     qr_Rows res = [[CInt 1], [CInt 2]]"
proof -
  obtain res h' where ex: "executeQuery demo_driver demo_tidb demo_clock Background ''shop'' ''SELECT 1'' demo_handler =
      Ret (Inr res, h')" using demo_select_runs by blast
  have rd: "is_read (SqlType (parseStmt (SelectStmt None None None) ''SELECT 1''))"
    by (simp add: is_read_def parseStmt_Type)
  from read_answer [OF demo_handler_audit_inv demo_select rd ex] ex show ?thesis
    by (auto simp: demo_query_rows with_owner_def rows_data.defs demo_max_rows to_text_def Cons_eq_map_conv)
qed

section \<open>The audit trail\<close>



text \<open>
C38. The audit log never fails its caller and writes at most one line per entry, on its current writer:
a line is written exactly when the log has a writer and the time can be encoded, and it is printable
text without a line break up to the one at its end.
\<close>

theorem log_writes_one_line:
  assumes "audit_inv l"
  shows "case Log now e l of
      Panic m \<Rightarrow> False
    | Ret l' \<Rightarrow> audit_inv l' \<and>
        (case entry_json (prepare_entry now (maxSQLLen l) e) of
           Inl x \<Rightarrow> l' = l
         | Inr data \<Rightarrow>
             list_all printable data \<and> \<not> printable (CHR 0x0A) \<and>
             (case writer l of
                None \<Rightarrow> l' = l
              | Some w \<Rightarrow> l' = l\<lparr>lj_trace := lj_trace l @ [LjWrite w (data @ [CHR 0x0A])]\<rparr>))"
proof -
  have en: "enabled l \<longleftrightarrow> writer l \<noteq> None" using assms by (simp add: audit_inv_def)
  obtain l' where "Log now e l = Ret l'" "audit_inv l'" using sink.log_returns [OF assms, of now e] by blast
  then show ?thesis
    using en entry_json_printable [of "prepare_entry now (maxSQLLen l) e"]
    by (auto simp: Log_def printable_newline split: if_splits sum.splits option.splits)
qed

theorem log_writes_one_line_witness:
  "case Log (Time 0) (query_entry demo_clock Background ''shop'' ''DROP'' ''DROP'' ''blocked'' [] 0) demo_audit of
      Panic m \<Rightarrow> False | Ret l' \<Rightarrow> audit_inv l'"
  using log_writes_one_line [OF demo_audit_inv, of "Time 0" "query_entry demo_clock Background ''shop'' ''DROP'' ''DROP'' ''blocked'' [] 0"]
  by (simp split: outcome.splits)

text \<open>
C40. For entries in ASCII, an audit line cannot be forged through its fields: two entries all of whose
strings are ASCII and that are encoded as the same line agree in every field but the time, and in the
text that is printed of the time. (Outside ASCII the encoder may replace bytes, and lines may coincide.) Any
entry is logged with its statement cut to the configured length and the length of the whole statement.
\<close>

theorem audit_line_determines_entry:
  assumes "ascii_entry a" and "ascii_entry b" and "entry_json a = Inr d" and "entry_json b = Inr d"
  shows "rfc3339 (Timestamp a) = rfc3339 (Timestamp b) \<and> a\<lparr>Timestamp := t\<rparr> = b\<lparr>Timestamp := t\<rparr> \<and>
    e_SQLLength (prepare_entry now m a) = int (length (e_SQL a)) \<and>
    e_SQL (prepare_entry now m a) =
      (if 0 < m \<and> m < int (length (e_SQL a)) then take (nat m) (e_SQL a) @ ''...(truncated)'' else e_SQL a)"
  using entry_json_determines [OF assms] by (simp add: prepare_entry_fields truncated_mark_def)

theorem audit_line_determines_entry_witness:
  "e_SQL (prepare_entry (Time 0) 5 (query_entry demo_clock Background ''shop'' ''DROP TABLE'' ''DROP'' ''blocked'' [] 0)) =
     ''DROP ...(truncated)''"
proof -
  let ?e = "(query_entry demo_clock Background ''shop'' ''DROP TABLE'' ''DROP'' ''blocked'' [] 0)\<lparr>Timestamp := Time 0\<rparr>"
  have a: "ascii_entry ?e" by (simp add: ascii_entry_def query_entry_def is_ascii_def GetUserID_def GetUserEmail_def)
  have y: "year_of 0 = (1, 0)" by (simp add: year_of_def)
  have "\<exists>ts. rfc3339 (Time 0) = Inr ts" by (simp add: rfc3339_def y month_lengths_def case_prod_beta)
  then obtain d where d: "entry_json ?e = Inr d" using entry_json_ok_iff [of ?e] by auto
  from audit_line_determines_entry [OF a a d d, of "Time 0" "Time 0" 5] show ?thesis
    by (simp add: query_entry_def prepare_entry_fields eval_nat_numeral)
qed

text \<open>
C39. A reconfiguration that leaves the audit log on replaces its writer and forgets the old one: it is
made once more for every reload, no later operation of the log, \<open>Close\<close> included, makes another
call on the old writer, and the file it holds is never closed. A reconfiguration that turns the log off
closes it.
\<close>

theorem replaced_writer_stays_open:
  assumes "audit_inv l" and "writer l = Some w" and "mkdir (LogFile cfg) = None"
  shows "let l1 = snd (Log_UpdateConfig mkdir cfg l); l' = audit_run ops l1 in
    if Enabled cfg then
      writer l1 \<noteq> None \<and> writer l' \<noteq> Some w \<and> lj_heap l' w = lj_heap l w \<and>
      (\<exists>cs. lj_trace l' = lj_trace l @ cs \<and> (\<forall>c \<in> set cs. \<not> on_writer w c))
    else writer l1 = None \<and> lj_trace l1 = lj_trace l @ [LjClose w]"
proof (cases "Enabled cfg")
  case False
  then show ?thesis using assms(2) by (simp add: Log_UpdateConfig_def)
next
  case True
  let ?l1 = "snd (Log_UpdateConfig mkdir cfg l)"
  have w: "w < next_lj l" by (rule audit_inv_writer [OF assms(1,2)])
  then have ab: "abandoned w ?l1" and un: "untouched w l ?l1"
    using True assms(3) by (simp_all add: abandoned_def untouched_def Log_UpdateConfig_def)
  have "abandoned w (audit_run ops ?l1)" and "untouched w l (audit_run ops ?l1)"
    using audit_run_abandoned [OF audit_inv_UpdateConfig [OF assms(1)] ab] untouched_trans [OF un] by blast+
  moreover have "writer ?l1 \<noteq> None" using True assms(3) by (simp add: Log_UpdateConfig_def)
  ultimately show ?thesis using True by (simp add: Let_def abandoned_def untouched_def)
qed

theorem replaced_writer_stays_open_witness:
  "\<exists>cs. lj_trace (audit_run [OpClose (\<lambda>_. None)] (snd (Log_UpdateConfig (\<lambda>_. None) demo_audit_config demo_audit))) =
      lj_trace demo_audit @ cs \<and> (\<forall>c \<in> set cs. \<not> on_writer 0 c)"
proof -
  have "writer demo_audit = Some 0" by (simp add: demo_audit_def)
  from replaced_writer_stays_open [OF demo_audit_inv this, of "\<lambda>_. None" demo_audit_config "[OpClose (\<lambda>_. None)]"]
  show ?thesis by (simp add: Let_def) (simp add: demo_audit_config_def)
qed

section \<open>Results that break off\<close>

text \<open>
C31. A result that breaks off is not noticed: whether MySQL reports at the end of the rows that they are
incomplete (a lost connection, a timeout while rows arrive) makes no difference to any tool but
\<open>show_create_table\<close>. The answer, the audit entry and the state are those of a complete result, so
the caller is given some of the rows as the whole.
\<close>

theorem row_errors_are_lost:
  assumes "\<And>db table. tc \<noteq> ShowCreateTableCall db table"
  shows "call_tool drv tidb clk order c tc h = call_tool (hide_row_errors drv) tidb clk order c tc h"
proof -
  have "case tc of ShowCreateTableCall db table \<Rightarrow> False | _ \<Rightarrow> True" using assms by (cases tc) auto
  then show ?thesis by (rule hidden_call [symmetric])
qed

definition broken_driver :: driver where
  "broken_driver = demo_driver\<lparr>drv_query := (\<lambda>tr h q args.
     Inr \<lparr>rd_columns = Inr [''id''], rd_items = [Inr [CInt 1], Inr [CInt 2]], rd_err = Some ''invalid connection''\<rparr>)\<rparr>"

theorem row_errors_are_lost_witness:
  "call_tool broken_driver demo_tidb demo_clock [] Background (QueryCall ''shop'' ''SELECT 1'') demo_handler =
   call_tool demo_driver demo_tidb demo_clock [] Background (QueryCall ''shop'' ''SELECT 1'') demo_handler"
proof -
  have "hide_row_errors broken_driver = demo_driver"
    by (simp add: hide_row_errors_def broken_driver_def demo_driver_def without_err_def)
  with row_errors_are_lost [of "QueryCall ''shop'' ''SELECT 1''" broken_driver] show ?thesis by simp
qed

end
