(* ===== verification/Props_Meta.thy ===== *)
theory Props_Meta
  imports Demo
begin

text \<open>
  Properties of the metadata tools and of tool calls as a whole.
\<close>

section \<open>Metadata\<close>

text \<open>
The metadata tools leave no connection behind and send fixed texts: on every path the handles are
as before, and at most a connection request and the one query of the tool were sent, with the names the
caller gave as arguments of the query and never as part of its text.
\<close>

lemma metadata_tools_send:
  "dbs (snd (executeListTables drv d h)) = dbs h \<and>
   (\<exists>k es. trace (snd (executeListTables drv d h)) = trace h @ es \<and>
      prefix es (meta_events k (getQueryTimeout h) list_tables_query [ArgString d, ArgInt 1001])) \<and>
   dbs (snd (executeDescribeTable drv d t h)) = dbs h \<and>
   (\<exists>k es. trace (snd (executeDescribeTable drv d t h)) = trace h @ es \<and>
      prefix es (meta_events k (getQueryTimeout h) describe_query [ArgString d, ArgString t]))"
proof -
  note lt = with_rows_laws [where drv = drv and dbName = d and h = h and query = list_tables_query
      and args = "[ArgString d, ArgInt 1001]"]
  note dt = with_rows_laws [where drv = drv and dbName = d and h = h and query = describe_query
      and args = "[ArgString d, ArgString t]"]
  show ?thesis
    using lt(1,3) dt(1,3) unfolding executeListTables_def executeDescribeTable_def
    by (simp add: defaultMaxTables_def) blast
qed

text \<open>
The table definition: what \<open>show_create_table\<close> sends is one statement on the handle of the
database, whose two quoted names MySQL reads back as exactly the database and the table of the call,
whatever bytes they are made of, and the connection comes back.
\<close>

lemma show_create_names_table:
  "dbs (snd (executeShowCreateTable drv d t h)) = dbs h \<and>
   (\<exists>k es q. trace (snd (executeShowCreateTable drv d t h)) = trace h @ es \<and>
      prefix es (meta_events k (getQueryTimeout h) (''SHOW CREATE TABLE '' @ q) []) \<and>
      (case read_quoted q of
         Some (a, rest) \<Rightarrow> a = d \<and> (\<exists>r. rest = ''.'' @ r \<and> read_quoted r = Some (t, []))
       | None \<Rightarrow> False))"
proof -
  let ?q = "QuoteIdentifier d @ ''.'' @ QuoteIdentifier t"
  note l = with_rows_laws [where drv = drv and dbName = d and h = h and query = "''SHOW CREATE TABLE '' @ ?q"
      and args = "[]"]
  have "read_quoted ?q = Some (d, ''.'' @ QuoteIdentifier t)"
    by (rule quoted.dec_enc) (simp add: quote_stop_def)
  moreover have "read_quoted (QuoteIdentifier t) = Some (t, [])"
    using quoted.dec_enc [of "[]" t] by (simp add: quote_stop_def)
  ultimately have q: "case read_quoted ?q of
         Some (a, rest) \<Rightarrow> a = d \<and> (\<exists>r. rest = ''.'' @ r \<and> read_quoted r = Some (t, []))
       | None \<Rightarrow> False" by simp
  obtain k es where "trace (snd (executeShowCreateTable drv d t h)) = trace h @ es"
      "prefix es (meta_events k (getQueryTimeout h) (''SHOW CREATE TABLE '' @ ?q) [])"
    using l(3) unfolding executeShowCreateTable_def by blast
  with q l(1) show ?thesis unfolding executeShowCreateTable_def by blast
qed

lemma table_rows_cut:
  assumes "length ts \<le> defaultMaxTables" and "table_rows items ts = Inr (res, b)"
  shows "prefix ts res \<and> length res \<le> defaultMaxTables \<and>
    (if b then length res = defaultMaxTables else length res = length ts + length items)"
  using assms
proof (induction items ts rule: table_rows.induct)
  case (2 item items ts)
  show ?case
  proof (cases "length ts \<ge> defaultMaxTables")
    case False
    then obtain cells vs where c: "item = Inr cells" "scan_row 2 cells = Inr vs"
      using 2(3) by (auto split: sum.splits)
    have "table_rows items (ts @ [\<lparr>ti_Name = vs ! 0, ti_Comment = vs ! 1\<rparr>]) = Inr (res, b)"
      using False 2(3) c by simp
    from 2(1) [OF False c _ this] False show ?thesis
      by (auto dest: append_prefixD split: if_splits)
  qed (use 2 in auto)
qed simp

text \<open>
The list of tables is complete or marked: a successful call returns at most 1000 tables; when it is
marked as truncated there are exactly 1000 of them, and otherwise there is one for every row MySQL sent.
\<close>

lemma list_tables_complete_or_marked:
  "case fst (executeListTables drv d h) of
     Inl e \<Rightarrow> True
   | Inr res \<Rightarrow> length (lt_Tables res) \<le> 1000 \<and>
       (if lt_Truncated res then length (lt_Tables res) = 1000
        else \<exists>k rows. routes_to d k h \<and> fst (db_Query drv (getQueryTimeout h) k list_tables_query
              [ArgString d, ArgInt 1001] (snd (GetDB d h))) = Inr rows \<and>
              length (lt_Tables res) = length (rd_items rows))"
proof (cases "fst (executeListTables drv d h)")
  case (Inr res)
  obtain k h1 where g: "GetDB d h = (Inr k, h1)"
    using Inr by (cases "GetDB d h"; cases "fst (GetDB d h)") (auto simp: executeListTables_def with_rows_eq)
  have t1: "getQueryTimeout h1 = getQueryTimeout h"
    by (rule same_handler_limits [OF routed_same_handler [OF routed_after_GetDB [OF g, of 0]]])
  obtain rows where q: "fst (db_Query drv (getQueryTimeout h) k list_tables_query [ArgString d, ArgInt 1001] h1) = Inr rows"
      and r: "table_rows (rd_items rows) [] = Inr (lt_Tables res, lt_Truncated res)"
    using Inr by (auto simp: executeListTables_def with_rows_eq g t1 Let_def defaultMaxTables_def split: sum.splits)
  have "routes_to d k h" using g by (simp add: routes_to_def)
  moreover have "length (lt_Tables res) \<le> 1000 \<and>
      (if lt_Truncated res then length (lt_Tables res) = 1000 else length (lt_Tables res) = length (rd_items rows))"
    using table_rows_cut [OF _ r] by (simp add: defaultMaxTables_def)
  ultimately show ?thesis
    using Inr q g by auto
qed simp

text \<open>
Searching for tables: the search always succeeds, returns at most as many matches as the configured
maximum of rows, all of them in databases of the configuration, leaves every connection free, and sends
nothing but connection requests and the search query, whose pattern matches a name exactly when the name
contains the lower-cased search text.
\<close>

lemma search_tables_bounded:
  "case executeSearchTables drv order p h of
     (Inl e, h') \<Rightarrow> False
   | (Inr res, h') \<Rightarrow>
       int (length (st_Matches res)) \<le> getMaxRows h \<and>
       list_all (\<lambda>m. tm_Database m \<in> set order) (st_Matches res) \<and> dbs h' = dbs h \<and>
       (\<exists>es. trace h' = trace h @ es \<and> list_all (search_event (getQueryTimeout h) (search_pattern p) order) es) \<and>
       like_match (search_pattern p) name = sublist (to_lower p) name"
proof -
  obtain ms b h' where l: "search_loop drv (getQueryTimeout h) (search_pattern p) (getMaxRows h) order [] h = (ms, b, h')"
    by (metis prod_cases3)
  show ?thesis
    using search_loop_laws [OF l] getMaxRows_pos [of h] l search_pattern_matches [of p name]
    by (simp add: executeSearchTables_def list_all_iff)
qed

section \<open>EXPLAIN\<close>

text \<open>
C29. The explain tool goes round the gate: it asks neither the rules nor the audit log. It sends its
text, with EXPLAIN in front, for every text that parses as a SELECT, INSERT, UPDATE or DELETE, also when
the policy refuses that type, and sends nothing for any other text; the audit log is never touched.
\<close>

theorem explain_ignores_policy:
  "case executeExplain drv tidb db s h of
     Panic m \<Rightarrow> tidb s = Inr []
   | Ret (r, h') \<Rightarrow> h_audit h' = h_audit h \<and>
       (case Parse tidb s of
          Inr (Some p) \<Rightarrow>
            if SqlType p \<in> {SQLTypeSelect, SQLTypeInsert, SQLTypeUpdate, SQLTypeDelete}
            then h' = snd (Router_Query drv (getQueryTimeout h) db (''EXPLAIN '' @ s) [] h) \<and>
              (\<exists>k es. trace h' = trace h @ es \<and>
                prefix es (query_events k (getQueryTimeout h) db (ReqQuery (''EXPLAIN '' @ s) [])))
            else h' = h
        | _ \<Rightarrow> h' = h)"
proof (cases rule: executeExplain_cases [where tidb = tidb and s = s and drv = drv and db = db and h = h,
      case_names no_statement rejected routed])
  case (rejected e)
  then show ?thesis by (simp split: sum.split option.split)
next
  case (routed p r)
  have "h_audit (snd (Router_Query drv (getQueryTimeout h) db (''EXPLAIN '' @ s) [] h)) = h_audit h"
    by (rule routed_audit [OF routed_Query])
  with routed Query_trace [of drv "getQueryTimeout h" db "''EXPLAIN '' @ s" "[]" h] show ?thesis
    by (simp del: insert_iff) blast
qed simp

section \<open>Any call\<close>

text \<open>
C28. What a tool call may change: whatever tool is called and whatever it answers, the invariant of the
handler is kept, and the databases and clusters, the rules of checker and rewriter and the configuration
stay as they are.
\<close>

theorem tool_call_frame:
  assumes "handler_inv h"
  shows "case call_tool drv tidb clk order c tc h of
      Panic m \<Rightarrow> m = nil_deref
    | Ret (resp, h') \<Rightarrow> handler_inv h' \<and> rt_databases h' = rt_databases h \<and> clusters h' = clusters h \<and>
        h_checker h' = h_checker h \<and> h_rewriter h' = h_rewriter h \<and> h_config h' = h_config h"
proof (cases "call_tool drv tidb clk order c tc h")
  case (Panic m)
  have inv: "audit_inv (h_audit h)" using assms by (simp add: handler_inv_def)
  obtain db s where q: "tc = QueryCall db s \<or> tc = ExplainCall db s" "tidb s = Inr []"
    using call_tool_panics [OF inv Panic] by blast
  have "executeQuery drv tidb clk c db s h = Panic nil_deref" "executeExplain drv tidb db s h = Panic nil_deref"
    using q(2) by (simp_all add: executeQuery_def executeExplain_def Parse_def)
  then have "m = nil_deref"
    using q(1) Panic
    by (auto simp: handleQueryTool_def handleExplainTool_def respond_out_def split: option.splits)
  with Panic show ?thesis by simp
next
  case (Ret x)
  obtain resp h' where x: "x = (resp, h')" by (cases x)
  have "audit_inv (h_audit h)" using assms by (simp add: handler_inv_def)
  from tool_effect_frame [OF tool_effect_call [OF this Ret [unfolded x]]] assms Ret x show ?thesis by simp
qed

theorem tool_call_frame_witness:
  "case call_tool demo_driver demo_tidb demo_clock [''shop''] Background (ListTablesCall ''shop'') demo_handler of
      Panic m \<Rightarrow> m = nil_deref | Ret (resp, h') \<Rightarrow> handler_inv h' \<and> h_config h' = demo_rc"
  using tool_call_frame [OF demo_handler_inv, of demo_driver demo_tidb demo_clock "[''shop'']" Background "ListTablesCall ''shop''"]
  by (auto simp: demo_handler_fields split: outcome.splits)

end
