(* ===== verification/Main_Program.thy ===== *)
theory Main_Program
  imports Reachable
begin

text \<open>
  \<open>cmd/server/main.go\<close> once its flags are read, which wires the watcher to the server;
  \<open>Command_Line\<close> has the flags. The operating system is an argument. The record
  \<open>main_env\<close> collects what the callback passes to \<open>UpdateConfig\<close>: the visiting orders as
  functions of the maps visited.
\<close>

record main_env =
  me_conf :: conf_env
  me_driver :: driver
  me_others :: "nat \<Rightarrow> pool_call list"
  me_pool_order :: "(string \<rightharpoonup> nat) \<Rightarrow> string list"
  me_close_order :: "string list \<Rightarrow> string list"
  me_perm :: "(string \<times> nat) list \<Rightarrow> (string \<times> nat) list"
  me_mkdir :: "string \<Rightarrow> go_error option"

definition on_change :: "main_env \<Rightarrow> 'lim server callback" where
  "on_change me newCfg security s =
     Server_UpdateConfig (me_driver me) (me_others me) (me_pool_order me (clusters s))
       (env_order (me_conf me) (Clusters newCfg)) (me_perm me) (me_mkdir me) newCfg security s"

text \<open>
  Start-up. \<open>f1\<close> and \<open>f2\<close> are the file system when the configuration and the security file
  are read, \<open>f3\<close> and \<open>f4\<close> when the watcher takes their modification times; a watcher that
  cannot be made is done without.
\<close>

definition main_start ::
  "main_env \<Rightarrow> snapshot \<times> snapshot \<times> snapshot \<times> snapshot \<Rightarrow> go_error option \<Rightarrow> string \<Rightarrow> int \<Rightarrow>
     Metrics option \<Rightarrow> go_error + 'lim server \<times> 'lim server watcher option" where
  "main_start me fs fsnotify_err path poll inst =
     (case fs of (f1, f2, f3, f4) \<Rightarrow>
        (case NewReloadableConfig (me_conf me) f1 f2 path of
           Inl e \<Rightarrow> Inl (''Failed to load config: '' @ e)
         | Inr rc \<Rightarrow>
             (case NewServer (me_driver me) (env_getenv (me_conf me)) (me_mkdir me)
                 (env_order (me_conf me) (Clusters (rc_Get rc))) (me_close_order me) inst rc of
                Inl (e, _) \<Rightarrow> Inl (''Failed to create server: '' @ e)
              | Inr srv \<Rightarrow>
                  (case NewWatcher (me_conf me) fsnotify_err f3 path
                      (if poll > 0 then [WithPollInterval poll] else []) of
                     Inl e \<Rightarrow> Inr (srv, None)
                   | Inr w \<Rightarrow>
                       let w1 = (if ConfigFile (cfg_Security (rc_Get rc)) \<noteq> ''''
                                 then snd (SetSecurityPath (me_conf me) f4 (ConfigFile (cfg_Security (rc_Get rc))) w)
                                 else w)
                       in Inr (srv, Some (OnChange (on_change me) w1))))))"

text \<open>
  The life of the process after start-up: events for the watcher, if there is one, and at some moment
  the goroutine that starts to listen, until the quit signal; then the shutdown. \<open>Stop\<close> of the
  watcher is deferred to the end of \<open>main\<close>, so it goes on handling events after the shutdown:
  those are \<open>late\<close>.
\<close>

datatype main_event =
    Watched "snapshot \<times> snapshot \<times> snapshot \<times> snapshot" watch_event
  | Listening "string \<Rightarrow> go_error option"

definition main_step ::
  "main_env \<Rightarrow> main_event \<Rightarrow> 'lim server \<times> 'lim server watcher option \<Rightarrow>
     'lim server \<times> 'lim server watcher option" where
  "main_step me ev sw =
     (case sw of (s, ow) \<Rightarrow>
        (case ev of
           Listening listen \<Rightarrow> (snd (Server_Start listen s), ow)
         | Watched fs e \<Rightarrow>
             (case ow of
                None \<Rightarrow> (s, None)
              | Some w \<Rightarrow> (case watch_step (me_conf me) fs e (w, s) of (w', s') \<Rightarrow> (s', Some w')))))"

definition main_loop ::
  "main_env \<Rightarrow> main_event list \<Rightarrow> 'lim server \<times> 'lim server watcher option \<Rightarrow>
     'lim server \<times> 'lim server watcher option" where
  "main_loop me events sw = fold (main_step me) events sw"

definition main_run ::
  "main_env \<Rightarrow> main_event list \<Rightarrow> main_event list \<Rightarrow> go_error option \<Rightarrow> string list \<Rightarrow>
     (nat \<Rightarrow> go_error option) \<Rightarrow> 'lim server \<times> 'lim server watcher option \<Rightarrow>
     go_error option \<times> 'lim server" where
  "main_run me events late http_err order close_err sw =
     (case main_loop me events sw of (s, ow) \<Rightarrow>
        (case Server_Shutdown (me_driver me) http_err order close_err s of (err, s1) \<Rightarrow>
           (err, fst (main_loop me late (s1, ow)))))"

section \<open>Lemmas\<close>

lemma main_start_callback:
  assumes "main_start me fs fe path poll inst = Inr (srv, Some w)"
  shows "callbacks w = [on_change me]"
proof -
  obtain f1 f2 f3 f4 where fs: "fs = (f1, f2, f3, f4)" by (cases fs)
  have nw: "NewWatcher (me_conf me) fe f3 path (if poll > 0 then [WithPollInterval poll] else []) = Inr v \<Longrightarrow>
      callbacks v = []" for v :: "'a server watcher"
    by (auto simp: NewWatcher_def WithPollInterval_def Let_def split: option.splits sum.splits if_splits)
  have ss: "callbacks (snd (SetSecurityPath (me_conf me) f p v)) = callbacks v" for f p and v :: "'a server watcher"
    by (simp add: SetSecurityPath_def split: sum.split)
  show ?thesis
    using assms nw ss
    by (auto simp: main_start_def fs OnChange_def Let_def split: sum.splits prod.splits if_splits)
qed

text \<open>A reload of the running server: the configuration that was read is the one in force.\<close>

lemma reload_applies:
  assumes "callbacks w = [on_change me]" and "load_both env f1 f2 w = Some (cfg, sec)"
  shows "h_config (snd (reload env f1 f2 f3 (w, s))) = \<lparr>rc_config = cfg, rc_security = sec\<rparr>"
    and "rt_databases (snd (reload env f1 f2 f3 (w, s))) = rt_databases s"
    and "configs (snd (reload env f1 f2 f3 (w, s))) = Clusters cfg"
proof -
  have "snd (reload env f1 f2 f3 (w, s)) = on_change me cfg sec s"
    using assms by (simp add: reload_Some)
  then show "h_config (snd (reload env f1 f2 f3 (w, s))) = \<lparr>rc_config = cfg, rc_security = sec\<rparr>"
    and "rt_databases (snd (reload env f1 f2 f3 (w, s))) = rt_databases s"
    and "configs (snd (reload env f1 f2 f3 (w, s))) = Clusters cfg"
    by (simp_all add: on_change_def Server_UpdateConfig_frame(1,2,6))
qed

text \<open>Watch events alone: the loop is the run of the watcher.\<close>

lemma main_loop_watched:
  "main_loop me (map (\<lambda>(fs, ev). Watched fs ev) events) (s, Some w) =
     (snd (watch_run (me_conf me) (map Some events) (w, s)),
      Some (fst (watch_run (me_conf me) (map Some events) (w, s))))"
proof (induction events arbitrary: s w)
  case (Cons e events)
  obtain fs ev where e: "e = (fs, ev)" by (cases e)
  obtain w1 s1 where "watch_step (me_conf me) fs ev (w, s) = (w1, s1)" by fastforce
  then show ?case using Cons.IH [of s1 w1] by (simp add: e main_loop_def main_step_def)
qed (simp add: main_loop_def)

text \<open>After the shutdown a reload opens the clusters again, and nothing closes them.\<close>

lemma late_reload_reopens:
  assumes "clusters s n = None" and "callbacks w = [on_change me]"
    and "load_both (me_conf me) f1 f2 w = Some (cfg, sec)" and "Clusters cfg n = Some c"
    and "drv_open (me_driver me) (GetDSN c) = None"
    and "pool_inv s" and "update_orders (me_pool_order me (clusters s)) (env_order (me_conf me) (Clusters cfg))
      (me_perm me) (Clusters cfg) s"
  shows "clusters (fst (main_loop me [Watched (f0, f1, f2, f3) Sighup] (s, Some w))) n \<noteq> None"
proof -
  have "fst (main_loop me [Watched (f0, f1, f2, f3) Sighup] (s, Some w)) = on_change me cfg sec s"
    using reload_Some [OF assms(3), of f3 s] assms(2)
    by (simp add: main_loop_def main_step_def watch_step_def)
  moreover have "pool_inv (rules_updated cfg sec s)" and
    "update_orders (me_pool_order me (clusters s)) (env_order (me_conf me) (Clusters cfg)) (me_perm me)
       (Clusters cfg) (rules_updated cfg sec s)"
    using assms(6,7) by (simp_all add: rules_updated_frame)
  ultimately show ?thesis
    using UpdateConfig_clusters(2) [of "rules_updated cfg sec s" _ _ _ "Clusters cfg" n] assms(1,4,5)
    by (simp add: on_change_def Server_UpdateConfig_eq Let_def rules_updated_frame openable_def split: option.splits)
qed

end
