(* ===== verification/Props_Service.thy ===== *)
theory Props_Service
  imports Main_Program Demo
begin

text \<open>
  Properties of the service around the tools: the HTTP gate, authentication and rate limiting, the
  metrics, construction and reconfiguration, and the watcher.
\<close>

section \<open>The gate\<close>

text \<open>
C4. The gate in front of \<open>/mcp\<close>: a request whose address has no token left in its bucket is answered
with 429, one without a token that validates with 401, and neither touches the state of the tools. Every
other request reaches the MCP handler, once, under the user and the e-mail of its token, and is answered
with what the handler answers.
\<close>

theorem mcp_gate:
  assumes "req_path r = ''/mcp''"
  shows "case gate_of env r s of
      Limited \<Rightarrow> response_status (fst (serve env mcp prom r c s)) = 429 \<and>
        same_tools s (snd (serve env mcp prom r c s))
    | Unauthenticated \<Rightarrow> response_status (fst (serve env mcp prom r c s)) = 401 \<and>
        same_tools s (snd (serve env mcp prom r c s))
    | Admitted claims \<Rightarrow>
        Validate (se_jwt env) (se_auth env) (srv_validator s) (ExtractToken (req_header r ''Authorization'')) = Inr claims \<and>
        (\<exists>s1 c1. same_tools s s1 \<and> GetUserID c1 = UserID claims \<and> GetUserEmail c1 = UserEmail claims \<and>
          fst (serve env mcp prom r c s) = fst (mcp r c1 s1) \<and>
          same_tools (snd (mcp r c1 s1)) (snd (serve env mcp prom r c s)))"
proof (cases "gate_of env r s")
  case (Admitted claims)
  have "Validate (se_jwt env) (se_auth env) (srv_validator s) (ExtractToken (req_header r ''Authorization'')) = Inr claims"
    using Admitted by (auto simp: gate_of_def claims_of_def split: if_splits option.splits sum.splits)
  moreover obtain s1 where "same_tools s s1"
      "fst (serve env mcp prom r c s) = fst (mcp r (ContextWithUser c (UserID claims) (UserEmail claims)) s1)"
      "same_tools (snd (mcp r (ContextWithUser c (UserID claims) (UserEmail claims)) s1)) (snd (serve env mcp prom r c s))"
    using serve_mcp [OF assms, where env = env and s = s and mcp = mcp and prom = prom and c = c] Admitted by auto
  ultimately show ?thesis
    using Admitted by (auto intro!: exI [of _ s1] exI [of _ "ContextWithUser c (UserID claims) (UserEmail claims)"])
qed (use serve_mcp [OF assms, where env = env and s = s and mcp = mcp and prom = prom and c = c] in simp_all)

definition demo_claims :: Claims where
  "demo_claims = \<lparr>UserID = ''u1'', UserEmail = ''u1@x'', IssuedAt = Some (Time 10), ExpiresAt = Some (Time 110)\<rparr>"

definition demo_lib :: jwt_lib where
  "demo_lib = one_token_lib demo_claims (replicate 32 (CHR ''k''))"

definition demo_env :: "nat srv_env" where
  "demo_env = \<lparr>se_jwt = demo_lib, se_rate = demo_rate, se_start = Time 20, se_limit = Time 20,
     se_auth = Time 20, se_end = Time 30\<rparr>"

definition demo_request :: http_request where
  "demo_request = empty_request\<lparr>req_header := (\<lambda>k. if k = ''Authorization'' then ''Bearer t0'' else [])\<rparr>"

lemma demo_request_path: "req_path demo_request = ''/mcp''"
  by (simp add: demo_request_def empty_request_def)

lemma demo_admitted:
  "gate_of demo_env demo_request demo_server =
     Admitted demo_claims"
  by (simp add: gate_of_def claims_of_def demo_request_def demo_env_def demo_lib_def demo_claims_def demo_server_def demo_rate_def
      AllowIP_eq bucket_def NewIPRateLimiter_def DefaultRateLimiterConfig_def ExtractToken_def equal_fold_def
      Validate_def one_token_lib_def validator_key_def NewValidator_def expired_def less_eq_gotime_def
      lower_char_def is_upper_def char_eq_of_char handler.defs)

theorem mcp_gate_witness:
  "\<exists>s1 c1. same_tools demo_server s1 \<and> GetUserID c1 = ''u1'' \<and>
     fst (serve demo_env (\<lambda>r c s. ([WriteBody (GetUserID c)], s)) (\<lambda>m r. []) demo_request Background demo_server) =
     [WriteBody (GetUserID c1)]"
  using mcp_gate [OF demo_request_path, where env = demo_env and s = demo_server
      and mcp = "\<lambda>r c s. ([WriteBody (GetUserID c)], s)" and prom = "\<lambda>m r. []" and c = Background]
  by (auto simp: demo_admitted demo_claims_def)

section \<open>Tokens\<close>

text \<open>
C26. Who is let in by a token: the secret is that of the environment, or that of the configuration when the
environment has none, and a secret of fewer than 32 bytes builds no validator, not even when the other
source has a longer one. With a validator, an Authorization header is accepted, with the claims of its
token, exactly when it is the word bearer in any case, a space and a nonempty token without spaces that
the library parses as valid, with claims of this type; such a token is signed by an HMAC method, whose key
is that secret, and by no other family of methods. A header of another form counts as no token, an
expired token is reported as expired and everything else as invalid.
\<close>

theorem bearer_token_decides:
  assumes "jwt_keyed lib"
  shows "let secret = (if getenv ''JWT_SECRET'' \<noteq> '''' then getenv ''JWT_SECRET'' else configured) in
    case NewValidatorFromEnv getenv configured of
      Inl e \<Rightarrow> length secret < 32
    | Inr v \<Rightarrow>
        32 \<le> length secret \<and>
        (case Validate lib now v (ExtractToken h) of
           Inr c \<Rightarrow> \<exists>s tok a. bearer_header h s \<and> jwt_parse lib s (validator_key v) now = Inr tok \<and>
             tok_claims tok = Some c \<and> tok_valid tok \<and>
             tok_method tok = SigningHMAC a \<and> validator_key v (SigningHMAC a) = Inr secret
         | Inl e \<Rightarrow>
             if e = ErrMissingToken then \<nexists>s. bearer_header h s
             else \<exists>s. bearer_header h s \<and>
               (case jwt_parse lib s (validator_key v) now of
                  Inl JwtTokenExpired \<Rightarrow> e = ErrTokenExpired
                | Inl (JwtOther x) \<Rightarrow> e = ErrInvalidToken
                | Inr tok \<Rightarrow> e = ErrInvalidToken \<and> \<not> (tok_valid tok \<and> tok_claims tok \<noteq> None)))"
proof -
  define secret where "secret = (if getenv ''JWT_SECRET'' \<noteq> '''' then getenv ''JWT_SECRET'' else configured)"
  have nv: "NewValidatorFromEnv getenv configured =
      (if secret = '''' then Inl ErrSecretNotConfigured
       else if length secret < 32 then Inl (ErrSecretTooShort (length secret)) else Inr \<lparr>v_secret = secret\<rparr>)"
    by (simp add: NewValidatorFromEnv_eq secret_def Let_def)
  have hmac: "\<exists>a. tok_method tok = SigningHMAC a \<and> validator_key v (SigningHMAC a) = Inr (v_secret v)"
    if "jwt_parse lib s (validator_key v) now = Inr tok" for s tok v
  proof -
    have "\<exists>k. validator_key v (tok_method tok) = Inr k" using assms that unfolding jwt_keyed_def by blast
    then show ?thesis by (auto simp: validator_key_def split: signing_method.splits)
  qed
  show ?thesis
    unfolding secret_def [symmetric] Let_def nv
    using hmac [of "ExtractToken h" "\<lparr>v_secret = secret\<rparr>"]
    by (auto simp: Validate_def ExtractToken_bearer split: sum.split jwt_error.split option.split)
qed

theorem bearer_token_decides_witness:
  "Validate demo_lib (Time 20) (NewValidator (replicate 32 (CHR ''k''))) (ExtractToken ''BEARER t0'') = Inr demo_claims \<and>
   bearer_header ''BEARER t0'' ''t0''"
proof -
  have f: "equal_fold ''BEARER'' ''bearer''"
    by (simp add: equal_fold_def lower_char_def is_upper_def char_eq_of_char)
  then have b: "bearer_header ''BEARER t0'' ''t0''"
    unfolding bearer_header_def by (intro conjI exI [of _ "''BEARER''"]) simp_all
  have v: "NewValidatorFromEnv (\<lambda>_. []) (replicate 32 (CHR ''k'')) = Inr (NewValidator (replicate 32 (CHR ''k'')))"
    by (simp add: NewValidatorFromEnv_eq NewValidator_def Let_def)
  have p: "jwt_parse demo_lib s (validator_key (NewValidator (replicate 32 (CHR ''k'')))) (Time 20) =
      (if s = ''t0'' then Inr \<lparr>tok_method = HS256, tok_claims = Some demo_claims, tok_valid = True\<rparr>
       else Inl (JwtOther ''malformed''))" for s
    by (simp add: demo_lib_def one_token_lib_def validator_key_def NewValidator_def expired_def demo_claims_def
        less_eq_gotime_def)
  have k: "jwt_keyed demo_lib" unfolding demo_lib_def by (rule jwt_keyed_one_token)
  have x: "bearer_header ''BEARER t0'' s \<longleftrightarrow> s = ''t0''" for s
    using b unfolding ExtractToken_bearer by auto
  from bearer_token_decides [OF k, where getenv = "\<lambda>_. []" and configured = "replicate 32 (CHR ''k'')" and now = "Time 20" and h = "''BEARER t0''"] b
  show ?thesis
    unfolding v x by (auto simp: Let_def p split: sum.splits if_splits)
qed

section \<open>Rate limiting\<close>

lemma trim_space_dotted: "trim_space (dotted a b c d) = dotted a b c d"
proof (rule trim_space_id)
  let ?num = "\<lambda>c. is_digit c \<or> c = CHR ''.''"
  have num: "list_all ?num (dotted a b c d)"
    using show_nat_digits by (auto simp: dotted_def list_all_iff)
  have bad: "\<exists>c \<in> set p. \<not> ?num c" if "p \<in> set space_runes" for p
    using that by (auto simp: space_runes_def is_digit_def)
  show "dotted a b c d \<noteq> []" by (simp add: dotted_def)
  show "\<forall>p \<in> set space_runes. \<not> prefix p (dotted a b c d)"
    using bad num set_mono_prefix by (fastforce simp: list_all_iff)
  show "\<forall>p \<in> set space_runes. \<not> suffix p (dotted a b c d)"
    using bad num set_mono_suffix by (fastforce simp: list_all_iff)
qed

lemma dotted_no_comma: "split_on (CHR '','') (dotted a b c d) = [dotted a b c d]"
proof -
  have "CHR '','' \<notin> set (show_nat n)" for n
    using show_nat_digits [of n] by (auto simp: list_all_iff is_digit_def)
  then show ?thesis by (intro split_on_no_sep) (simp add: dotted_def)
qed

text \<open>
C37. One bucket per claimed address: in any sequence of requests from any addresses, the answers for one
address are those of its own token bucket on its own requests, whatever the others do. But the address
is the caller's to choose: an X-Forwarded-For header that holds an IPv4 address decides it for every
connection, and an address not seen before starts with a fresh bucket.
\<close>

theorem limits_per_claimed_address:
  assumes "a \<le> 255" and "b \<le> 255" and "c \<le> 255" and "d \<le> 255"
    and "req_header r ''X-Forwarded-For'' = dotted a b c d"
  shows "getRealIP r = dotted a b c d \<and>
    (if ips l (dotted a b c d) = None
     then fst (AllowIP lib now (getRealIP r) l) =
       fst (rate_Allow lib now (rate_NewLimiter lib (RequestsPerSecond (rl_config l)) (Burst (rl_config l))))
     else True) \<and>
    map snd (filter (\<lambda>(q, ok). snd q = ip) (zip reqs (fst (allow_all lib reqs l)))) =
      allow_bucket lib (map fst (filter (\<lambda>q. snd q = ip) reqs)) (bucket lib ip l)"
proof -
  have "dotted a b c d \<noteq> ''''" by (simp add: dotted_def)
  then have ip: "getRealIP r = dotted a b c d"
    using assms(5) isValidIP_dotted [OF assms(1-4)]
    by (simp add: getRealIP_def trim_space_dotted dotted_no_comma)
  then show ?thesis
    using allow_all_isolated [of ip reqs lib l] by (simp add: of_ip_def fst_AllowIP bucket_def)
qed

theorem limits_per_claimed_address_witness:
  "getRealIP (empty_request\<lparr>req_header := (\<lambda>k. if k = ''X-Forwarded-For'' then dotted 1 2 3 4 else [])\<rparr>) = dotted 1 2 3 4"
  by (rule limits_per_claimed_address [THEN conjunct1]) simp_all

section \<open>Metrics\<close>

lemma metrics_frame:
  "srv_metrics (s\<lparr>srv_limiter := l\<rparr>) = srv_metrics s"
  "srv_metrics (on_metrics f s) = f (srv_metrics s)"
  by (simp_all add: on_metrics_def)

text \<open>What the chain below the metrics middleware records.\<close>

lemma chain_metrics:
  assumes "\<And>c1 s1. srv_metrics (snd (mcp r c1 s1)) = srv_metrics s1"
  shows "srv_metrics (snd (rateLimitMiddleware env (authMiddleware env mcp) r c s)) \<in>
    {RecordRateLimitExceeded (getRealIP r) (srv_metrics s), RecordAuthAttempt ''jwt'' False (srv_metrics s),
     RecordAuthAttempt ''jwt'' True (srv_metrics s)}"
  using assms
  by (auto simp: rateLimitMiddleware_def authMiddleware_def Let_def metrics_frame split: prod.split sum.split)

text \<open>
The request metrics are consistent: while the calls made on the metrics match their declared kinds
and labels, a request to \<open>/mcp\<close> keeps that, whether it is refused or served; the gauge of active
requests is back where it was, and the request is counted once under its method and the status that was
written.
\<close>

lemma request_metrics_balanced:
  assumes "req_path r = ''/mcp''" and "calls_ok (srv_metrics s)"
    and "\<And>c1 s1. srv_metrics (snd (mcp r c1 s1)) = srv_metrics s1"
  shows "calls_ok (srv_metrics (snd (serve env mcp prom r c s))) \<and>
    gauge_value RequestsActive (srv_metrics (snd (serve env mcp prom r c s))) = gauge_value RequestsActive (srv_metrics s) \<and>
    counted RequestsTotal (\<lambda>ls. ls = [req_method r, ''/mcp'', show_int (captured 200 (fst (serve env mcp prom r c s)))])
        (srv_metrics (snd (serve env mcp prom r c s))) =
      Suc (counted RequestsTotal (\<lambda>ls. ls = [req_method r, ''/mcp'', show_int (captured 200 (fst (serve env mcp prom r c s)))])
        (srv_metrics s))"
proof -
  let ?s0 = "on_metrics (call (Inc RequestsActive [])) s"
  let ?chain = "rateLimitMiddleware env (authMiddleware env mcp) r c ?s0"
  have "serve env mcp prom r c s = (fst ?chain, metrics_leave env ''/mcp'' r (fst ?chain) (snd ?chain))"
    using assms(1) by (simp add: serve_def metrics_mw.mw_next Let_def case_prod_beta)
  moreover have "srv_metrics (snd ?chain) \<in>
      {RecordRateLimitExceeded (getRealIP r) (srv_metrics ?s0), RecordAuthAttempt ''jwt'' False (srv_metrics ?s0),
       RecordAuthAttempt ''jwt'' True (srv_metrics ?s0)}"
    by (rule chain_metrics) (rule assms(3))
  ultimately show ?thesis
    using assms(2)
    by (auto simp: metrics_leave_def metrics_frame record_defs Let_def desc_def gauge_value_call)
qed

lemma request_metrics_balanced_demo:
  "gauge_value RequestsActive (srv_metrics (snd (serve demo_env (\<lambda>r c s. ([WriteHeader 200], s)) (\<lambda>m r. []) demo_request Background demo_server))) =
     gauge_value RequestsActive (srv_metrics demo_server)"
proof -
  have "calls_ok (srv_metrics demo_server)"
    by (simp add: demo_server_def handler.defs Metrics_Init_def calls_ok_def)
  from request_metrics_balanced [OF demo_request_path this, where mcp = "\<lambda>r c s. ([WriteHeader 200], s)"]
  show ?thesis by simp
qed

section \<open>Construction and reconfiguration\<close>

text \<open>
Building a server: on success the invariant of the handler holds, the pool has exactly the
configured clusters with every open handle owned by one of them, routes and rules are those of the
configuration and the signing secret has at least 32 bytes; on failure, wherever it occurs, no database
handle is left open.
\<close>

lemma new_server_all_or_nothing:
  assumes "ranges_over names (Clusters (rc_config cfg))" and "\<And>ns. set (order ns) = set ns"
  shows "case (NewServer drv getenv mkdir names order inst cfg :: go_error \<times> pool + 'lim server) of
      Inl (e, p) \<Rightarrow> \<forall>h. \<not> is_open h p
    | Inr s \<Rightarrow> handler_inv s \<and> handles_owned s \<and> dom (clusters s) = dom (Clusters (rc_config cfg)) \<and>
        rt_databases s = Databases (rc_config cfg) \<and> h_config s = cfg \<and>
        chk_rules (h_checker s) = GetSecurity cfg \<and> rw_rules (h_rewriter s) = GetSecurity cfg \<and>
        32 \<le> length (v_secret (srv_validator s))"
proof (cases "NewServer drv getenv mkdir names order inst cfg :: go_error \<times> pool + 'lim server")
  case (Inl x)
  obtain e p where x: "x = (e, p)" by (cases x)
  show ?thesis using NewServer_error [OF Inl [unfolded x] assms] by (simp add: Inl x)
next
  case (Inr s)
  then show ?thesis using NewServer_ok [OF Inr assms] by simp
qed

lemma demo_clusters_range: "ranges_over [''main''] (Clusters (rc_config demo_rc))"
  by (simp add: ranges_over_def demo_rc_def demo_config_def)

lemma demo_server_starts:
  "\<exists>s :: nat server. NewServer demo_driver (\<lambda>_. []) (\<lambda>_. None) [''main''] (\<lambda>ns. ns) None demo_rc = Inr s"
  by (simp add: NewServer_def rc_Get_def demo_rc_def demo_config_def NewValidatorFromEnv_def GetJWTSecret_def
      ValidateJWTSecret_def MinJWTSecretLength_def NewPool_def connect_def sql_Open_def demo_driver_def
      NewLogger_def demo_audit_config_def Let_def)

lemma new_server_all_or_nothing_demo:
  "\<exists>s :: nat server. NewServer demo_driver (\<lambda>_. []) (\<lambda>_. None) [''main''] (\<lambda>ns. ns) None demo_rc = Inr s \<and>
     handler_inv s \<and> dom (clusters s) = {''main''}"
proof -
  obtain s :: "nat server"
    where s: "NewServer demo_driver (\<lambda>_. []) (\<lambda>_. None) [''main''] (\<lambda>ns. ns) None demo_rc = Inr s"
    using demo_server_starts by blast
  from new_server_all_or_nothing [OF demo_clusters_range, where order = "\<lambda>ns. ns" and drv = demo_driver
      and getenv = "\<lambda>_. []" and mkdir = "\<lambda>_. None" and inst = None and ?'lim = nat] s
  show ?thesis by (simp add: demo_rc_def demo_config_def)
qed

text \<open>
C27. What a reconfiguration reaches: the configuration handed to the tools, the rules when a security
configuration comes with it (and the old rules stay in force when none does), the clusters of the pool
and the audit log. The routing table is not updated: a database of the new configuration that the
server did not start with stays unknown, and the validator, the limiter and the metrics are untouched.
\<close>

theorem reconfiguration_reaches:
  fixes s :: "('lim, 'a) server_scheme" and drv penv order names perm mkdir cfg security
  defines "s' \<equiv> Server_UpdateConfig drv penv order names perm mkdir cfg security s"
  shows "h_config s' = \<lparr>rc_config = cfg, rc_security = security\<rparr> \<and> configs s' = Clusters cfg \<and>
    chk_rules (h_checker s') = (case security of None \<Rightarrow> chk_rules (h_checker s) | Some sec \<Rightarrow> Some (Security sec)) \<and>
    rw_rules (h_rewriter s') = (case security of None \<Rightarrow> rw_rules (h_rewriter s) | Some sec \<Rightarrow> Some (Security sec)) \<and>
    h_audit s' = snd (Log_UpdateConfig mkdir (Audit cfg) (h_audit s)) \<and>
    (case rt_databases s db of
       None \<Rightarrow> GetDB db s' = (Inl (''unknown database: '' @ db), s')
     | Some d \<Rightarrow> rt_databases s' db = Some d) \<and>
    srv_validator s' = srv_validator s \<and> srv_limiter s' = srv_limiter s \<and> srv_metrics s' = srv_metrics s"
proof -
  note f = Server_UpdateConfig_frame [where drv = drv and penv = penv and order = order and names = names
      and perm = perm and mkdir = mkdir and cfg = cfg and security = security and s = s, folded s'_def]
  have "srv_validator s' = srv_validator s \<and> srv_limiter s' = srv_limiter s \<and> srv_metrics s' = srv_metrics s"
    using f(7) by (cases s; cases s') simp
  moreover have "rt_databases s db = None \<Longrightarrow> GetDB db s' = (Inl (''unknown database: '' @ db), s')"
    using f(1) by (simp add: GetDB_def)
  ultimately show ?thesis using f by (simp split: option.split)
qed

section \<open>The watcher\<close>

text \<open>
Polling: a tick reloads exactly when polling is on and one of the watched files is newer than
recorded; a reload that cannot read or parse a file changes nothing, a successful one runs every
callback, in order, on the pair it read, and records the times the files have then. So a further tick
does nothing while the files stay as they were at that moment, even when the content was read before
its last change: a change between reading and recording is never noticed by polling.
\<close>

lemma poll_tick:
  "(if 0 < pollInterval w \<and> mtime_changed f0 w then
      (case load_both env f1 f2 w of
         None \<Rightarrow> watch_step env (f0, f1, f2, f3) Tick (w, s) = (w, s)
       | Some (cfg, sec) \<Rightarrow>
           watch_step env (f0, f1, f2, f3) Tick (w, s) =
             (record_mtimes f3 w, fold (\<lambda>cb. cb cfg sec) (callbacks w) s) \<and>
           watch_step env (f3, g1, g2, g3) Tick (watch_step env (f0, f1, f2, f3) Tick (w, s)) =
             watch_step env (f0, f1, f2, f3) Tick (w, s))
    else watch_step env (f0, f1, f2, f3) Tick (w, s) = (w, s))"
proof (cases "0 < pollInterval w \<and> mtime_changed f0 w")
  case True
  then have st: "watch_step env (f0, f1, f2, f3) Tick (w, s) = reload env f1 f2 f3 (w, s)"
    by (simp add: watch_step_def checkMtime_def)
  show ?thesis
  proof (cases "load_both env f1 f2 w")
    case None
    with True st show ?thesis by (simp add: reload_None)
  next
    case (Some p)
    obtain cfg sec where p: "p = (cfg, sec)" by (cases p)
    have "watch_step env (f3, g1, g2, g3) Tick (record_mtimes f3 w, t) = (record_mtimes f3 w, t)" for t :: 'a
      by (simp add: watch_step_def checkMtime_def mtime_recorded)
    with True st Some p show ?thesis by (simp add: reload_Some)
  qed
qed (auto simp: watch_step_def checkMtime_def)

end
