(* ===== verification/Process.thy ===== *)
theory Process
  imports Main_Program
begin

text \<open>
  The running process: what \<open>main\<close> starts, the events the watcher handles, each to its end, and the requests
  the server serves, in any order. Every state of it is a state of the service machine of
  \<open>Reachable\<close>, so what holds there holds for the program.
\<close>

section \<open>The visiting orders of a process\<close>

text \<open>
  What the arguments of \<open>main_env\<close> stand for: a range over a map visits each key once, the clusters
  of a decoded file are finitely many, and the order in which marked clusters are closed is one of the
  clusters that were marked.
\<close>

definition main_env_ok :: "main_env \<Rightarrow> bool" where
  "main_env_ok me \<longleftrightarrow>
     (\<forall>m. finite (dom m) \<longrightarrow> ranges_over (env_order (me_conf me) m) m) \<and>
     (\<forall>m. finite (dom m) \<longrightarrow> ranges_over (me_pool_order me m) m) \<and>
     (\<forall>ns. set (me_close_order me ns) = set ns) \<and>
     (\<forall>tc. distinct (map fst tc) \<longrightarrow> distinct (map fst (me_perm me tc)) \<and> set (me_perm me tc) = set tc) \<and>
     (\<forall>data cfg. env_yaml_config (me_conf me) data = Inr cfg \<longrightarrow> finite (dom (Clusters cfg)))"

lemma LoadAt_finite:
  assumes "main_env_ok me" and "LoadAt (me_conf me) f path = Inr cfg"
  shows "finite (dom (Clusters cfg))"
proof -
  obtain data raw where raw: "env_yaml_config (me_conf me) data = Inr raw"
    and cfg: "cfg = setDefaults (env_order (me_conf me) (Clusters raw)) raw"
    using assms(2) by (auto simp: LoadAt_def Load_def split: sum.splits)
  have fin: "finite (dom (Clusters raw))" using assms(1) raw by (auto simp: main_env_ok_def)
  then have "ranges_over (env_order (me_conf me) (Clusters raw)) (Clusters raw)"
    using assms(1) by (simp add: main_env_ok_def)
  then have "Clusters cfg = (\<lambda>n. map_option default_cluster (Clusters raw n))"
    by (simp add: cfg setDefaults_def default_clusters_ranges)
  with fin show ?thesis by (simp add: dom_def)
qed

lemma load_both_finite:
  "main_env_ok me \<Longrightarrow> load_both (me_conf me) f1 f2 w = Some (cfg, sec) \<Longrightarrow> finite (dom (Clusters cfg))"
  by (auto simp: load_both_def split: sum.splits if_splits intro: LoadAt_finite)

lemma NewReloadableConfig_finite:
  "main_env_ok me \<Longrightarrow> NewReloadableConfig (me_conf me) f1 f2 path = Inr rc \<Longrightarrow>
     finite (dom (Clusters (rc_config rc)))"
  by (auto simp: NewReloadableConfig_def split: sum.splits if_splits intro: LoadAt_finite)

lemma main_env_update_orders:
  "main_env_ok me \<Longrightarrow> finite (dom (clusters s)) \<Longrightarrow> finite (dom new) \<Longrightarrow>
     update_orders (me_pool_order me (clusters s)) (env_order (me_conf me) new) (me_perm me) new s"
  by (simp add: main_env_ok_def update_orders_def)

section \<open>The states of the process\<close>

inductive process ::
  "main_env \<Rightarrow> (string \<Rightarrow> go_error + stmt_node list) \<Rightarrow> ReloadableConfig \<Rightarrow>
     'lim server \<times> 'lim server watcher option \<Rightarrow> bool"
  for me tidb rc where
  started: "NewReloadableConfig (me_conf me) f1 f2 path = Inr rc \<Longrightarrow>
    main_start me (f1, f2, f3, f4) fsnotify_err path poll inst = Inr sw \<Longrightarrow> process me tidb rc sw"
| watched: "process me tidb rc (s, Some w) \<Longrightarrow> watch_step (me_conf me) fs ev (w, s) = (w', s') \<Longrightarrow>
    process me tidb rc (s', Some w')"
| tool: "process me tidb rc (s, ow) \<Longrightarrow> call_tool (me_driver me) tidb clk order c tc s = Ret (resp, s') \<Longrightarrow>
    process me tidb rc (s', ow)"
| measured: "process me tidb rc (s, ow) \<Longrightarrow> process me tidb rc (on_metrics f s, ow)"
| limited: "process me tidb rc (s, ow) \<Longrightarrow> process me tidb rc (s\<lparr>srv_limiter := l\<rparr>, ow)"
| pooled: "process me tidb rc (s, ow) \<Longrightarrow> process me tidb rc (pool_calls cs s, ow)"
| listening: "process me tidb rc (s, ow) \<Longrightarrow> process me tidb rc (snd (Server_Start listen s), ow)"

text \<open>The simulation: the server of a process is a reachable one.\<close>

definition process_sim ::
  "main_env \<Rightarrow> (string \<Rightarrow> go_error + stmt_node list) \<Rightarrow> ReloadableConfig \<Rightarrow>
     'lim server \<times> 'lim server watcher option \<Rightarrow> bool" where
  "process_sim me tidb rc sw \<longleftrightarrow>
     reachable (me_driver me) tidb rc (fst sw) \<and> finite (dom (clusters (fst sw))) \<and>
     (\<forall>w. snd sw = Some w \<longrightarrow> callbacks w = [on_change me])"

lemma main_start_server:
  assumes "main_start me (f1, f2, f3, f4) fe path poll inst = Inr sw"
    and "NewReloadableConfig (me_conf me) f1 f2 path = Inr rc"
  shows "NewServer (me_driver me) (env_getenv (me_conf me)) (me_mkdir me)
      (env_order (me_conf me) (Clusters (rc_config rc))) (me_close_order me) inst rc = Inr (fst sw)"
  using assms by (auto simp: main_start_def rc_Get_def Let_def split: sum.splits prod.splits if_splits)

lemma process_sim_started:
  assumes ok: "main_env_ok me" and rc: "NewReloadableConfig (me_conf me) f1 f2 path = Inr rc"
    and st: "main_start me (f1, f2, f3, f4) fe path poll inst = Inr sw"
  shows "process_sim me tidb rc sw"
proof -
  note s = main_start_server [OF st rc]
  have fin: "finite (dom (Clusters (rc_config rc)))" by (rule NewReloadableConfig_finite [OF ok rc])
  have ro: "ranges_over (env_order (me_conf me) (Clusters (rc_config rc))) (Clusters (rc_config rc))"
    and co: "set (me_close_order me ns) = set ns" for ns
    using ok fin by (simp_all add: main_env_ok_def)
  have "callbacks w = [on_change me]" if "snd sw = Some w" for w
    using main_start_callback st that by (metis prod.collapse)
  then show ?thesis
    using reachable.start [OF s ro co] NewServer_ok(3) [OF s ro co] fin by (simp add: process_sim_def)
qed

lemma process_sim_step:
  assumes "process_sim me tidb rc (s, ow)" and "service_step (me_driver me) tidb s s'"
    and "clusters s' = clusters s"
  shows "process_sim me tidb rc (s', ow)"
  using assms by (auto simp: process_sim_def intro: reachable.step)

lemma clusters_Server_UpdateConfig_finite:
  assumes "pool_inv s" and "update_orders order names perm (Clusters cfg) s"
  shows "finite (dom (clusters (Server_UpdateConfig drv penv order names perm mkdir cfg security s)))"
  using assms finite_clusters_UpdateConfig [of "rules_updated cfg security s" order names perm "Clusters cfg"]
  by (simp add: Server_UpdateConfig_eq Let_def rules_updated_frame)

lemma process_sim_watched:
  assumes ok: "main_env_ok me" and sim: "process_sim me tidb rc (s, Some w)"
    and st: "watch_step (me_conf me) fs ev (w, s) = (w', s')"
  shows "process_sim me tidb rc (s', Some w')"
proof -
  obtain f0 f1 f2 f3 where fs: "fs = (f0, f1, f2, f3)" by (cases fs)
  have r: "reachable (me_driver me) tidb rc s" and fin: "finite (dom (clusters s))"
    and cb: "callbacks w = [on_change me]"
    using sim by (simp_all add: process_sim_def)
  have cb': "callbacks w' = [on_change me]"
    using same_watch_step [of w "me_conf me" fs ev s] cb by (simp add: st same_watch_def)
  show ?thesis
  proof (cases rule: watch_step_cases [where env = "me_conf me" and ev = ev and w = w and s = s
        and ?f0.0 = f0 and ?f1.0 = f1 and ?f2.0 = f2 and ?f3.0 = f3])
    case 1
    then show ?thesis using sim st by (simp add: fs)
  next
    case (2 cfg sec)
    then have s': "s' = on_change me cfg sec s" using st cb by (simp add: fs)
    have ord: "update_orders (me_pool_order me (clusters s)) (env_order (me_conf me) (Clusters cfg)) (me_perm me)
        (Clusters cfg) s"
      by (rule main_env_update_orders [OF ok fin load_both_finite [OF ok 2(1)]])
    have "service_step (me_driver me) tidb s s'"
      unfolding s' on_change_def by (rule service_step.update [OF ord])
    moreover have "pool_inv s" using reachable_handler_inv [OF r] by (simp add: handler_inv_def)
    then have "finite (dom (clusters s'))"
      unfolding s' on_change_def by (rule clusters_Server_UpdateConfig_finite [OF _ ord])
    ultimately show ?thesis using r cb' by (auto simp: process_sim_def intro: reachable.step)
  qed
qed

lemma process_simulated: "process me tidb rc sw \<Longrightarrow> main_env_ok me \<Longrightarrow> process_sim me tidb rc sw"
proof (induction rule: process.induct)
  case (started f1 f2 path f3 f4 fsnotify_err poll inst sw)
  then show ?case by (blast intro: process_sim_started)
next
  case (watched s w fs ev w' s')
  then show ?case by (blast intro: process_sim_watched)
next
  case (tool s ow clk order c tc resp s')
  then have sim: "process_sim me tidb rc (s, ow)" by blast
  then have "audit_inv (h_audit s)"
    using reachable_handler_inv by (auto simp: process_sim_def handler_inv_def)
  with tool(2) have "clusters s' = clusters s" using tool_effect_call tool_effect_frame(7) by blast
  then show ?case by (rule process_sim_step [OF sim service_step.tool [OF tool(2)]])
next
  case (measured s ow f)
  then have sim: "process_sim me tidb rc (s, ow)" by blast
  show ?case by (rule process_sim_step [OF sim service_step.measured]) (simp add: on_metrics_def)
next
  case (limited s ow l)
  then have sim: "process_sim me tidb rc (s, ow)" by blast
  show ?case by (rule process_sim_step [OF sim service_step.limited]) simp
next
  case (listening s ow listen)
  then have sim: "process_sim me tidb rc (s, ow)" by blast
  show ?case by (rule process_sim_step [OF sim service_step.listening]) simp
next
  case (pooled s ow cs)
  then have sim: "process_sim me tidb rc (s, ow)" by blast
  show ?case
    by (rule process_sim_step [OF sim service_step.pooled]) (use same_shape_pool_calls [of s cs] in \<open>simp add: same_shape_def\<close>)
qed

text \<open>The loop of \<open>main\<close> is a sequence of steps of the process.\<close>

lemma process_main_step: "process me tidb rc sw \<Longrightarrow> process me tidb rc (main_step me ev sw)"
  by (cases sw) (auto simp: main_step_def split: main_event.split option.split prod.split
      intro: process.watched process.listening)

lemma process_main_loop: "process me tidb rc sw \<Longrightarrow> process me tidb rc (main_loop me events sw)"
  unfolding main_loop_def by (induction events arbitrary: sw) (simp_all add: process_main_step)

lemma main_loop_reachable:
  assumes "process me tidb rc sw" and "main_env_ok me"
  shows "reachable (me_driver me) tidb rc (fst (main_loop me events sw)) \<and>
    finite (dom (clusters (fst (main_loop me events sw))))"
  using process_simulated [OF process_main_loop [OF assms(1)] assms(2)] by (simp add: process_sim_def)

section \<open>Requests\<close>

text \<open>
  What is relied on of the SDK's handler: it changes the state of the server by tool calls only, any
  number of them in sequence.
\<close>

inductive tool_step ::
  "driver \<Rightarrow> (string \<Rightarrow> go_error + stmt_node list) \<Rightarrow> 'lim server \<Rightarrow> 'lim server \<Rightarrow> bool"
  for drv tidb where
  "call_tool drv tidb clk order c tc s = Ret (resp, s') \<Longrightarrow> tool_step drv tidb s s'"

definition sdk_only_calls_tools ::
  "driver \<Rightarrow> (string \<Rightarrow> go_error + stmt_node list) \<Rightarrow> 'lim server http_handler \<Rightarrow> bool" where
  "sdk_only_calls_tools drv tidb mcp \<longleftrightarrow> (\<forall>r c s. (tool_step drv tidb)\<^sup>*\<^sup>* s (snd (mcp r c s)))"

lemma process_refused:
  "process me tidb rc (s, ow) \<Longrightarrow> process me tidb rc (on_metrics f (s\<lparr>srv_limiter := l\<rparr>), ow)"
  by (intro process.measured process.limited)

lemma process_tool_steps:
  "(tool_step (me_driver me) tidb)\<^sup>*\<^sup>* s s' \<Longrightarrow> process me tidb rc (s, ow) \<Longrightarrow> process me tidb rc (s', ow)"
  by (induction rule: rtranclp_induct) (auto elim!: tool_step.cases intro: process.tool)

lemma process_rate_limited:
  assumes "process me tidb rc (s, ow)" and "\<And>c s1. process me tidb rc (s1, ow) \<Longrightarrow> process me tidb rc (snd (nx r c s1), ow)"
  shows "process me tidb rc (snd (rateLimitMiddleware env nx r c s), ow)"
  by (rule rate_mw.preserves)
    (use assms in \<open>auto simp: rate_own_def rate_enter_def split: prod.splits if_splits
      intro: process.intros process_refused\<close>)

lemma process_authenticated:
  assumes "process me tidb rc (s, ow)" and "\<And>c s1. process me tidb rc (s1, ow) \<Longrightarrow> process me tidb rc (snd (nx r c s1), ow)"
  shows "process me tidb rc (snd (authMiddleware env nx r c s), ow)"
  by (rule auth_mw.preserves)
    (use assms in \<open>auto simp: auth_own_def auth_enter_def Let_def split: sum.splits if_splits option.splits
      intro: process.intros\<close>)

lemma process_measured:
  assumes "process me tidb rc (s, ow)" and "\<And>c s1. process me tidb rc (s1, ow) \<Longrightarrow> process me tidb rc (snd (nx r c s1), ow)"
  shows "process me tidb rc (snd (metricsMiddleware env path nx r c s), ow)"
  by (rule metrics_mw.preserves)
    (use assms in \<open>auto simp: metrics_leave_def intro: process.intros\<close>)

end
