(* ===== verification/Props_Process.thy ===== *)
theory Props_Process
  imports Process Props_Service "HOL-Library.List_Lexorder" "HOL-Library.Char_ord"
begin

text \<open>
  The process with its events one after the other, from the start of \<open>main\<close> to the quit signal, and the
  requests it serves.
\<close>

text \<open>
The process whose events do not overlap stays within the service machine: whatever the start read,
whatever file events, polling ticks and hangup signals the watcher gets while the files change, each
handled to its end, and whatever calls are served in between, the server is a reachable state, with
finitely many clusters; and when the quit signal comes after any further events and the watcher gets none
after it, the shutdown leaves no database handle open. Overlapping and late reloads are in \<open>Props_Shutdown\<close>.
\<close>

lemma process_refines_service:
  assumes "process me tidb rc (s, ow)" and "main_env_ok me"
    and "set order = dom (clusters (fst (main_loop me events (s, ow))))"
  shows "reachable (me_driver me) tidb rc s \<and> finite (dom (clusters s)) \<and>
    reachable (me_driver me) tidb rc (fst (main_loop me events (s, ow))) \<and>
    \<not> is_open h (snd (main_run me events [] http_err order close_err (s, ow)))"
proof -
  let ?s = "fst (main_loop me events (s, ow))"
  have sim: "process_sim me tidb rc (s, ow)" by (rule process_simulated [OF assms(1,2)])
  have r: "reachable (me_driver me) tidb rc ?s" using main_loop_reachable [OF assms(1,2)] by blast
  have "handles_owned ?s" using service_inv_reachable [OF r] by (simp add: service_inv_def)
  then have "\<not> is_open h (snd (Server_Shutdown (me_driver me) http_err order close_err ?s))"
    by (rule Server_Shutdown_closes [OF _ assms(3)])
  then show ?thesis using sim r by (simp add: process_sim_def main_run_def main_loop_def case_prod_beta)
qed

definition demo_conf :: conf_env where
  "demo_conf =
     \<lparr>env_getenv = (\<lambda>_. []), env_yaml_config = (\<lambda>_. Inr demo_config),
      env_yaml_security = (\<lambda>_. Inr \<lparr>Security = plain_rules\<rparr>), env_order = (\<lambda>m. sorted_list_of_set (dom m)),
      env_abs = Inr, env_dir = (\<lambda>_. ''.''), env_watch = (\<lambda>_. None)\<rparr>"

definition demo_main :: main_env where
  "demo_main =
     \<lparr>me_conf = demo_conf, me_driver = demo_driver, me_others = (\<lambda>_. []),
      me_pool_order = (\<lambda>m. sorted_list_of_set (dom m)), me_close_order = (\<lambda>ns. ns), me_perm = (\<lambda>tc. tc),
      me_mkdir = (\<lambda>_. None)\<rparr>"

definition demo_files :: snapshot where
  "demo_files = \<lparr>snap_read = (\<lambda>_. Inr []), snap_mtime = (\<lambda>_. Some (Time 1))\<rparr>"

lemma demo_main_ok: "main_env_ok demo_main"
  by (auto simp: main_env_ok_def demo_main_def demo_conf_def ranges_over_def demo_config_def)

lemma demo_defaults: "setDefaults [''main''] demo_config = demo_config"
  by (simp add: setDefaults_def demo_config_def demo_audit_config_def default_audit_def demo_cluster_def
      default_cluster_def Let_def)

lemma demo_loads: "NewReloadableConfig demo_conf demo_files demo_files path = Inr demo_rc"
proof -
  have o: "sorted_list_of_set (dom (Clusters demo_config)) = [''main'']" by (simp add: demo_config_def)
  show ?thesis
    by (simp add: NewReloadableConfig_def LoadAt_def Load_def LoadSecurityAt_def LoadSecurity_def demo_conf_def
        demo_files_def o demo_defaults) (simp add: demo_config_def demo_rc_def)
qed

lemma demo_main_starts:
  "\<exists>(s :: nat server) w.
     main_start demo_main (demo_files, demo_files, demo_files, demo_files) None path 0 None = Inr (s, Some w)"
proof -
  obtain s :: "nat server"
    where s: "NewServer demo_driver (\<lambda>_. []) (\<lambda>_. None) [''main''] (\<lambda>ns. ns) None demo_rc = Inr s"
    using demo_server_starts by blast
  have o: "sorted_list_of_set (dom (Clusters (rc_config demo_rc))) = [''main'']"
    by (simp add: demo_rc_def demo_config_def)
  have m: "me_conf demo_main = demo_conf" "me_driver demo_main = demo_driver" "me_mkdir demo_main = (\<lambda>_. None)"
    "me_close_order demo_main = (\<lambda>ns. ns)" "env_getenv demo_conf = (\<lambda>_. [])"
    "env_order demo_conf (Clusters (rc_config demo_rc)) = [''main'']"
    by (simp_all add: demo_main_def) (simp_all add: demo_conf_def o)
  obtain w :: "nat server watcher" where w: "NewWatcher demo_conf None demo_files path [] = Inr w"
    by (simp add: NewWatcher_def demo_conf_def Let_def)
  show ?thesis
    by (simp add: main_start_def m demo_loads rc_Get_def s w Let_def)
qed

lemma process_refines_service_demo:
  "\<exists>(s :: nat server) ow order. process demo_main demo_tidb demo_rc (s, ow) \<and>
     reachable demo_driver demo_tidb demo_rc s \<and>
     \<not> is_open 0 (snd (main_run demo_main
        [Listening (\<lambda>_. None), Watched (demo_files, demo_files, demo_files, demo_files) Sighup] [] None order (\<lambda>_. None) (s, ow)))"
proof -
  let ?fs = "(demo_files, demo_files, demo_files, demo_files)"
  have m: "me_conf demo_main = demo_conf" "me_driver demo_main = demo_driver" by (simp_all add: demo_main_def)
  obtain s :: "nat server" and w where "main_start demo_main ?fs None ''config.yaml'' 0 None = Inr (s, Some w)"
    using demo_main_starts by blast
  then have p: "process demo_main demo_tidb demo_rc (s, Some w)"
    by (rule process.started [rotated]) (simp add: m demo_loads)
  let ?s = "fst (main_loop demo_main [Listening (\<lambda>_. None), Watched ?fs Sighup] (s, Some w))"
  have "finite (dom (clusters ?s))" using main_loop_reachable [OF p demo_main_ok] by blast
  then have o: "set (sorted_list_of_set (dom (clusters ?s))) = dom (clusters ?s)" by simp
  show ?thesis
    using process_refines_service [OF p demo_main_ok o, where h = 0 and http_err = None and close_err = "\<lambda>_. None"]
      p by (simp only: m) blast
qed

section \<open>Requests\<close>

text \<open>
C7. Every HTTP request is a sequence of steps of the process, whatever its path, headers and token, so
everything that holds in its states holds between requests; and the tools are reached by no request but
an admitted one to \<open>/mcp\<close>: any other leaves the pool, the rules, the audit log and the
configuration as they were.
\<close>

theorem requests_are_process_steps:
  assumes "process me tidb rc (s, ow)" and "sdk_only_calls_tools (me_driver me) tidb mcp"
  shows "process me tidb rc (snd (serve env mcp prom r c s), ow) \<and>
    (\<exists>s1 s2. same_tools s s1 \<and> (tool_step (me_driver me) tidb)\<^sup>*\<^sup>* s1 s2 \<and>
       same_tools s2 (snd (serve env mcp prom r c s)) \<and>
       (s1 = s2 \<or> req_path r = ''/mcp'' \<and> (\<exists>claims. gate_of env r s = Admitted claims)))"
proof -
  have mcp: "process me tidb rc (snd (mcp r c' s1), ow)" if "process me tidb rc (s1, ow)" for c' s1
    using process_tool_steps that assms(2) unfolding sdk_only_calls_tools_def by blast
  have "process me tidb rc (snd (serve env mcp prom r c s), ow)"
    unfolding serve_def using assms(1) mcp
    by (auto simp: handleHealth_def intro!: process_measured process_rate_limited process_authenticated)
  moreover have "same_tools s (snd (serve env mcp prom r c s))"
    if "\<not> (req_path r = ''/mcp'' \<and> (\<exists>claims. gate_of env r s = Admitted claims))"
  proof (cases "req_path r = ''/mcp''")
    case True
    then show ?thesis
      using serve_mcp [OF True, where env = env and s = s and mcp = mcp and prom = prom and c = c] that
      by (auto split: gate.splits)
  next
    case False
    then show ?thesis
      by (auto simp: serve_def metricsMiddleware_def rateLimitMiddleware_def handleHealth_def Let_def split: prod.split)
  qed
  moreover have "\<exists>s1 s2. same_tools s s1 \<and> (tool_step (me_driver me) tidb)\<^sup>*\<^sup>* s1 s2 \<and>
      same_tools s2 (snd (serve env mcp prom r c s))"
    if "req_path r = ''/mcp''" and "gate_of env r s = Admitted claims" for claims
    using serve_mcp [OF that(1), where env = env and s = s and mcp = mcp and prom = prom and c = c] that(2) assms(2)
    by (simp add: sdk_only_calls_tools_def) blast
  ultimately show ?thesis
    by (cases "req_path r = ''/mcp'' \<and> (\<exists>claims. gate_of env r s = Admitted claims)")
      (blast, metis rtranclp.rtrancl_refl same_tools_simps(1))
qed

theorem requests_are_process_steps_witness:
  "\<exists>(s :: nat server) ow. process demo_main demo_tidb demo_rc (s, ow) \<and>
     process demo_main demo_tidb demo_rc
       (snd (serve demo_env (\<lambda>r c s. ([WriteBody ''{}''], s)) (\<lambda>m r. []) demo_request Background s), ow)"
proof -
  obtain s :: "nat server" and w
    where "main_start demo_main (demo_files, demo_files, demo_files, demo_files) None ''config.yaml'' 0 None = Inr (s, Some w)"
    using demo_main_starts by blast
  then have p: "process demo_main demo_tidb demo_rc (s, Some w)"
    by (rule process.started [rotated]) (simp add: demo_main_def demo_loads)
  have "sdk_only_calls_tools (me_driver demo_main) demo_tidb (\<lambda>r c (s :: nat server). ([WriteBody ''{}''], s))"
    by (simp add: sdk_only_calls_tools_def)
  from requests_are_process_steps [OF p this, where env = demo_env and r = demo_request
      and c = Background and prom = "\<lambda>m r. []"] p
  show ?thesis by blast
qed

end
