(* ===== verification/Pool_Updates.thy ===== *)
theory Pool_Updates
  imports Pool_Owned
begin

text \<open>
  Several \<open>UpdateConfig\<close> at once. The mutex of the pool covers the first phase of an update and
  each deletion, nothing else: between them any other update may act. \<open>updates_step\<close> interleaves
  any number of updates, each on its way from \<open>ToMark\<close> through the list of what it has to close,
  where closing a handle and deleting its name are two steps.
\<close>

datatype update_pc =
    ToMark
  | ToClose "(string \<times> nat) list"
  | ToDelete string "(string \<times> nat) list"

type_synonym 'a updates = "'a pool_scheme \<times> (ClustersConfig \<times> update_pc) list"

inductive updates_step :: "driver \<Rightarrow> bool \<Rightarrow> 'a updates \<Rightarrow> 'a updates \<Rightarrow> bool"
  for drv may_expire where
  marks: "i < length us \<Longrightarrow> us ! i = (new, ToMark) \<Longrightarrow> update_orders order names (\<lambda>tc. tc) new s \<Longrightarrow>
    UpdateConfig_locked drv order names new s = (tc, s') \<Longrightarrow>
    updates_step drv may_expire (s, us) (s', us[i := (new, ToClose tc)])"
| closes: "i < length us \<Longrightarrow> us ! i = (new, ToClose ((n, p) # rest)) \<Longrightarrow> no_refs p s \<or> may_expire \<Longrightarrow>
    updates_step drv may_expire (s, us) (close_handle p s, us[i := (new, ToDelete n rest)])"
| deletes: "i < length us \<Longrightarrow> us ! i = (new, ToDelete n rest) \<Longrightarrow>
    updates_step drv may_expire (s, us) (delete_cluster n s, us[i := (new, ToClose rest)])"

inductive_cases updates_stepE: "updates_step drv may_expire r r'"

definition updates_reach :: "driver \<Rightarrow> bool \<Rightarrow> 'a updates \<Rightarrow> 'a updates \<Rightarrow> bool" where
  "updates_reach drv may_expire = (updates_step drv may_expire)\<^sup>*\<^sup>*"

definition updates_done :: "'a updates \<Rightarrow> bool" where
  "updates_done r \<longleftrightarrow> (\<forall>(new, pc) \<in> set (snd r). pc = ToClose [])"

section \<open>Phase one\<close>

definition locked_state :: "driver \<Rightarrow> string list \<Rightarrow> string list \<Rightarrow> ClustersConfig \<Rightarrow>
    'a pool_scheme \<Rightarrow> 'a pool_scheme" where
  "locked_state drv order names new s =
     (add_new drv new names (mark_ptrs (snd ` set (to_close new order s)) s))\<lparr>configs := new\<rparr>"

lemma UpdateConfig_locked_eq:
  "UpdateConfig_locked drv order names new s = (to_close new order s, locked_state drv order names new s)"
  by (simp add: UpdateConfig_locked_def mark_closing_eq locked_state_def)

lemma locked_configs: "configs (locked_state drv order names new s) = new"
  by (simp add: locked_state_def)

lemma locked_mdbs:
  assumes "pool_inv s" and "mdbs s p = Some m"
  shows "mdbs (locked_state drv order names new s) p =
    Some (if p \<in> snd ` set (to_close new order s) then m\<lparr>closing := 1\<rparr> else m)"
proof -
  have "p < next_mdb s" using pool_invD(5) [OF assms(1), of p] assms(2) by (cases "p < next_mdb s") auto
  then show ?thesis by (simp add: locked_state_def state_frame add_new_old_mdbs mark_ptrs_lookup assms(2))
qed

lemma locked_inv:
  assumes "pool_inv s" and "update_orders order names (\<lambda>tc. tc) new s"
  shows "pool_inv (locked_state drv order names new s)"
    and "marked_list (to_close new order s) (locked_state drv order names new s)"
  using locked_marked_list [OF assms, of drv] assms(1)
  by (simp_all add: locked_state_def state_frame pool_inv_add_new pool_inv_mark_ptrs)

lemma locked_get_closing:
  assumes "pool_inv s" and "get_closing p s"
  shows "get_closing p (locked_state drv order names new s)"
  using assms locked_mdbs [OF assms(1), of p] by (auto simp: get_closing_def split: option.splits)

lemma locked_handle_of:
  "pool_inv s \<Longrightarrow> mdbs s p = Some m \<Longrightarrow> handle_of p (locked_state drv order names new s) = handle_of p s"
  using locked_mdbs [of s p m drv order names new] by (simp add: handle_of_def)

lemma locked_clusters:
  "clusters s n = Some p \<Longrightarrow> clusters (locked_state drv order names new s) n = Some p"
  by (simp add: locked_state_def state_frame add_new_keeps)

lemma locked_fresh:
  assumes "pool_inv s" and "update_orders order names (\<lambda>tc. tc) new s" and "clusters s n = None" and "openable drv new n"
  obtains p where "clusters (locked_state drv order names new s) n = Some p" and "next_mdb s \<le> p"
    and "fresh_cluster new n p (locked_state drv order names new s)"
proof -
  let ?s1 = "mark_ptrs (snd ` set (to_close new order s)) s"
  have n: "clusters ?s1 n = None" by (simp add: state_frame assms(3))
  have "n \<in> set names"
    using ranges_overD(2) [OF update_ordersD(2) [OF assms(2)], of n] assms(4) by (auto simp: openable_def)
  then obtain p where p: "clusters (add_new drv new names ?s1) n = Some p"
    using add_new_adds [OF n, of drv new names] assms(4) by auto
  have "fresh_cluster new n p (add_new drv new names ?s1) \<and> next_mdb ?s1 \<le> p"
    by (rule add_new_fresh [OF _ n p]) (simp add: pool_inv_mark_ptrs assms(1))
  with p show thesis
    by (intro that [of p]) (simp_all add: locked_state_def state_frame fresh_cluster_def)
qed

text \<open>No cluster is in use.\<close>

definition all_idle :: "'a pool_scheme \<Rightarrow> bool" where
  "all_idle s \<longleftrightarrow> (\<forall>p m. mdbs s p = Some m \<longrightarrow> refCount m = 0)"

lemma all_idle_open_cluster: "all_idle s \<Longrightarrow> all_idle (open_cluster n cfg s)"
  by (simp add: all_idle_def open_cluster_def)

lemma all_idle_add_new: "all_idle s \<Longrightarrow> all_idle (add_new drv new names s)"
  by (induction names arbitrary: s) (simp_all add: add_new_step all_idle_open_cluster)

lemma all_idle_locked: "all_idle s \<Longrightarrow> all_idle (locked_state drv order names new s)"
proof -
  assume "all_idle s"
  then have "all_idle (mark_ptrs (snd ` set (to_close new order s)) s)"
    by (auto simp: all_idle_def mark_ptrs_lookup split: if_splits)
  then have "all_idle (add_new drv new names (mark_ptrs (snd ` set (to_close new order s)) s))"
    by (rule all_idle_add_new)
  then show ?thesis by (simp add: all_idle_def locked_state_def)
qed

lemma all_idle_no_refs: "all_idle s \<Longrightarrow> mdbs s p \<noteq> None \<Longrightarrow> no_refs p s"
  by (auto simp: all_idle_def no_refs_def)

section \<open>What stays true\<close>

fun pending :: "update_pc \<Rightarrow> (string \<times> nat) list" where
  "pending ToMark = []"
| "pending (ToClose tc) = tc"
| "pending (ToDelete n rest) = rest"

definition updates_inv :: "'a updates \<Rightarrow> bool" where
  "updates_inv r =
     (case r of (s, us) \<Rightarrow>
        pool_inv s \<and> (\<forall>(new, pc) \<in> set us. \<forall>(n, p) \<in> set (pending pc). get_closing p s))"

lemma get_closing_close_handle [simp]: "get_closing q (close_handle p s) = get_closing q s"
  "get_closing q (delete_cluster n s) = get_closing q s"
  by (simp_all add: get_closing_def state_frame)

lemma updates_inv_step:
  assumes "updates_inv r" and "updates_step drv x r r'"
  shows "updates_inv r'"
  using assms(2,1)
proof (cases rule: updates_step.cases)
  case (marks i us new order names s tc s')
  have inv: "pool_inv s" and old: "\<forall>(new, pc) \<in> set us. \<forall>(n, p) \<in> set (pending pc). get_closing p s"
    using assms(1) marks by (simp_all add: updates_inv_def)
  have s': "tc = to_close new order s" "s' = locked_state drv order names new s"
    using marks(6) by (simp_all add: UpdateConfig_locked_eq)
  note l = locked_inv [OF inv marks(5), of drv]
  have "get_closing p s'" if "(new', pc) \<in> set (us[i := (new, ToClose tc)])" and "(n, p) \<in> set (pending pc)" for new' pc n p
  proof (cases "(new', pc) = (new, ToClose tc)")
    case True
    then show ?thesis using that(2) l(2) by (auto simp: s' marked_list_def)
  next
    case False
    then have "(new', pc) \<in> set us" using that(1) set_update_subset_insert [of us i] by blast
    then show ?thesis using old that(2) locked_get_closing [OF inv] by (fastforce simp: s')
  qed
  then show ?thesis using l(1) marks s' by (auto simp: updates_inv_def)
next
  case (closes i us new n p rest s)
  have inv: "pool_inv s" and old: "\<forall>(new, pc) \<in> set us. \<forall>(n, p) \<in> set (pending pc). get_closing p s"
    using assms(1) closes by (simp_all add: updates_inv_def)
  have mem: "(new, ToClose ((n, p) # rest)) \<in> set us" using closes by (metis nth_mem)
  then have p: "get_closing p s" and rest: "\<forall>(m, q) \<in> set rest. get_closing q s" using old by fastforce+
  have "get_closing q s" if "(new', pc) \<in> set (us[i := (new, ToDelete n rest)])" and "(m, q) \<in> set (pending pc)" for new' pc m q
    using that rest old set_update_subset_insert [of us i "(new, ToDelete n rest)"] by fastforce
  then show ?thesis using closes pool_inv_close_handle [OF inv p] by (auto simp: updates_inv_def)
next
  case (deletes i us new n rest s)
  have inv: "pool_inv s" and old: "\<forall>(new, pc) \<in> set us. \<forall>(n, p) \<in> set (pending pc). get_closing p s"
    using assms(1) deletes by (simp_all add: updates_inv_def)
  have mem: "(new, ToDelete n rest) \<in> set us" using deletes by (metis nth_mem)
  then have rest: "\<forall>(m, q) \<in> set rest. get_closing q s" using old by fastforce
  have "get_closing q s" if "(new', pc) \<in> set (us[i := (new, ToClose rest)])" and "(m, q) \<in> set (pending pc)" for new' pc m q
    using that rest old set_update_subset_insert [of us i "(new, ToClose rest)"] by fastforce
  then show ?thesis using deletes pool_inv_delete_cluster [OF inv] by (auto simp: updates_inv_def)
qed

lemma updates_inv_reach: "updates_reach drv x r r' \<Longrightarrow> updates_inv r \<Longrightarrow> updates_inv r'"
  unfolding updates_reach_def by (induction rule: rtranclp_induct) (auto intro: updates_inv_step)

lemma updates_inv_start: "pool_inv s \<Longrightarrow> updates_inv (s, map (\<lambda>new. (new, ToMark)) news)"
  by (auto simp: updates_inv_def)

section \<open>The updates end\<close>

fun pc_rank :: "update_pc \<Rightarrow> nat" where
  "pc_rank ToMark = 0"
| "pc_rank (ToClose tc) = 2 * length tc"
| "pc_rank (ToDelete n rest) = 2 * length rest + 1"

definition to_mark :: "'a updates \<Rightarrow> nat" where
  "to_mark r = length (filter (\<lambda>(new, pc). pc = ToMark) (snd r))"

definition updates_order :: "('a updates \<times> 'a updates) set" where
  "updates_order = measures [to_mark, \<lambda>r. \<Sum>(new, pc) \<leftarrow> snd r. pc_rank pc]"

lemma wf_updates_order: "wf updates_order"
  by (simp add: updates_order_def)

lemma length_filter_update:
  "i < length us \<Longrightarrow> P (us ! i) \<Longrightarrow> \<not> P x \<Longrightarrow> length (filter P (us[i := x])) < length (filter P us)"
proof (induction us arbitrary: i)
  case (Cons u us)
  show ?case
  proof (cases i)
    case (Suc j)
    then show ?thesis using Cons.IH [of j] Cons.prems by auto
  qed (use Cons.prems in simp)
qed simp

lemma length_filter_update_same:
  "i < length us \<Longrightarrow> P (us ! i) = P x \<Longrightarrow> length (filter P (us[i := x])) = length (filter P us)"
  by (induction us arbitrary: i) (auto split: nat.split simp: less_Suc_eq_0_disj)

lemma sum_list_update_less:
  "i < length us \<Longrightarrow> f x < f (us ! i) \<Longrightarrow> (\<Sum>u \<leftarrow> us[i := x]. f u) < (\<Sum>u \<leftarrow> us. f u :: nat)"
  by (induction us arbitrary: i) (auto simp: less_Suc_eq_0_disj)

lemma updates_step_order: "updates_step drv x r r' \<Longrightarrow> (r', r) \<in> updates_order"
proof (induction rule: updates_step.induct)
  case (marks i us new order names s tc s')
  then show ?case
    using length_filter_update [of i us "\<lambda>(new, pc). pc = ToMark" "(new, ToClose tc)"]
    by (simp add: updates_order_def to_mark_def)
next
  case (closes i us new n p rest s)
  then show ?case
    using length_filter_update_same [of i us "\<lambda>(new, pc). pc = ToMark" "(new, ToDelete n rest)"]
      sum_list_update_less [of i us "\<lambda>(new, pc). pc_rank pc" "(new, ToDelete n rest)"]
    by (simp add: updates_order_def to_mark_def)
next
  case (deletes i us new n rest s)
  then show ?case
    using length_filter_update_same [of i us "\<lambda>(new, pc). pc = ToMark" "(new, ToClose rest)"]
      sum_list_update_less [of i us "\<lambda>(new, pc). pc_rank pc" "(new, ToClose rest)"]
    by (simp add: updates_order_def to_mark_def)
qed

definition updates_finite :: "'a updates \<Rightarrow> bool" where
  "updates_finite r \<longleftrightarrow>
     finite (dom (clusters (fst r))) \<and> (\<forall>(new, pc) \<in> set (snd r). finite (dom new))"

lemma dom_add_new: "dom (clusters (add_new drv new names s)) \<subseteq> dom (clusters s) \<union> set names"
proof (induction names arbitrary: s)
  case (Cons m names)
  have "dom (clusters (open_cluster m (the (new m)) s)) = insert m (dom (clusters s))" by (simp add: open_cluster_def)
  with Cons [of "open_cluster m (the (new m)) s"] Cons [of s] show ?case by (auto simp: add_new_step)
qed simp

lemma updates_finite_step:
  assumes "updates_finite r" and "updates_step drv x r r'"
  shows "updates_finite r'"
  using assms(2,1)
proof (cases rule: updates_step.cases)
  case (marks i us new order names s tc s')
  have mem: "(new, ToMark) \<in> set us" using marks by (metis nth_mem)
  have s': "s' = locked_state drv order names new s" using marks(6) by (simp add: UpdateConfig_locked_eq)
  have "dom (clusters s') \<subseteq> dom (clusters s) \<union> set names"
    using dom_add_new [of drv new names "mark_ptrs (snd ` set (to_close new order s)) s"]
    by (simp add: s' locked_state_def state_frame)
  then have "finite (dom (clusters s'))"
    using assms(1) marks by (auto simp: updates_finite_def intro: finite_subset)
  then show ?thesis
    using assms(1) marks mem set_update_subset_insert [of us i "(new, ToClose tc)"]
    by (fastforce simp: updates_finite_def)
next
  case (closes i us new n p rest s)
  have "(new, ToClose ((n, p) # rest)) \<in> set us" using closes by (metis nth_mem)
  then show ?thesis
    using assms(1) closes set_update_subset_insert [of us i "(new, ToDelete n rest)"]
    by (fastforce simp: updates_finite_def state_frame)
next
  case (deletes i us new n rest s)
  have "(new, ToDelete n rest) \<in> set us" using deletes by (metis nth_mem)
  then show ?thesis
    using assms(1) deletes set_update_subset_insert [of us i "(new, ToClose rest)"]
    by (fastforce simp: updates_finite_def state_frame)
qed

lemma updates_progress:
  assumes fin: "updates_finite r" and open_end: "\<not> updates_done r"
  shows "\<exists>r'. updates_step drv True r r'"
proof -
  obtain s us where r: "r = (s, us)" by (cases r)
  obtain i new pc where i: "i < length us" "us ! i = (new, pc)" "pc \<noteq> ToClose []"
    using open_end by (auto simp: r updates_done_def in_set_conv_nth)
  show ?thesis
  proof (cases pc)
    case ToMark
    have "(new, pc) \<in> set us" using i by (metis nth_mem)
    then have "finite (dom (clusters s))" "finite (dom new)" using fin by (auto simp: r updates_finite_def)
    then obtain order names where "ranges_over order (clusters s)" "ranges_over names new"
      using ranges_over_exists by meson
    then have "update_orders order names (\<lambda>tc. tc) new s" by (simp add: update_orders_def)
    from marks [OF i(1) i(2) [unfolded ToMark] this UpdateConfig_locked_eq] show ?thesis unfolding r by blast
  next
    case (ToClose tc)
    then obtain n p rest where "tc = (n, p) # rest" using i(3) by (cases tc) auto
    with closes [OF i(1), of new n p rest s True drv] i(2) ToClose show ?thesis unfolding r by blast
  next
    case (ToDelete n rest)
    with deletes [OF i(1), of new n rest drv True s] i(2) show ?thesis unfolding r by blast
  qed
qed

lemma updates_reach_finite: "updates_reach drv b r r' \<Longrightarrow> updates_finite r \<Longrightarrow> updates_finite r'"
  unfolding updates_reach_def by (induction rule: rtranclp_induct) (auto intro: updates_finite_step)

lemma updates_complete:
  assumes "updates_finite r"
  shows "\<exists>r'. updates_reach drv True r r' \<and> updates_done r'"
  using wf_updates_order assms
proof (induction r rule: wf_induct_rule)
  case (less r)
  show ?case
  proof (cases "updates_done r")
    case True
    then show ?thesis unfolding updates_reach_def by blast
  next
    case False
    then obtain r1 where s: "updates_step drv True r r1" using updates_progress [OF less.prems] by blast
    from less.IH [OF updates_step_order [OF s] updates_finite_step [OF less.prems s]]
    obtain r' where "updates_reach drv True r1 r'" "updates_done r'" by blast
    with s show ?thesis unfolding updates_reach_def by (meson converse_rtranclp_into_rtranclp)
  qed
qed

end
