(* ===== verification/Reload_Concurrency.thy ===== *)
theory Reload_Concurrency
  imports Process Pool_Updates
begin

text \<open>
  Reloads that overlap. A reload may be run by the goroutine of the file events, by the polling
  goroutine and, on SIGHUP, by \<open>main\<close>, and nothing keeps them apart: the lock of the watcher is
  held only while the modification times are recorded, and every component locks itself only for its own
  update. \<open>reload_step\<close> interleaves any number of reloading goroutines with the requests that are
  served and with changes of the files, one locked section or one file read at a time. The callback is the one
  \<open>main\<close> registers, \<open>Server.UpdateConfig\<close>; the wait for a cluster may end at any time, because
  its counter is at zero or its ten seconds are over. The files are always in one of the states of the set
  \<open>fs\<close>. The clusters to close are visited in any order, as a map is.
\<close>

datatype reloader =
    Resting
  | ConfigRead Config
  | BothRead Config "SecurityConfig option"
  | TimesRecorded Config "SecurityConfig option"
  | ConfigStored Config "SecurityConfig option"
  | CheckerUpdated Config SecurityConfig
  | RulesUpdated Config
  | PoolClosing Config "(string \<times> nat) list"
  | PoolDeleting Config string "(string \<times> nat) list"

type_synonym 'lim running = "snapshot \<times> 'lim server watcher \<times> 'lim server \<times> reloader list"

text \<open>A step of the service other than a reconfiguration.\<close>

inductive request_step ::
  "driver \<Rightarrow> (string \<Rightarrow> go_error + stmt_node list) \<Rightarrow> 'lim server \<Rightarrow> 'lim server \<Rightarrow> bool"
  for drv tidb where
  "call_tool drv tidb clk order c tc s = Ret (resp, s') \<Longrightarrow> request_step drv tidb s s'"
| "request_step drv tidb s (on_metrics f s)"
| "request_step drv tidb s (s\<lparr>srv_limiter := l\<rparr>)"
| "request_step drv tidb s (pool_calls cs s)"
| "request_step drv tidb s (snd (Server_Start listen s))"

lemma request_step_service: "request_step drv tidb s s' \<Longrightarrow> service_step drv tidb s s'"
  by (erule request_step.cases) (auto intro: service_step.intros)

inductive reload_step ::
  "main_env \<Rightarrow> (string \<Rightarrow> go_error + stmt_node list) \<Rightarrow> snapshot set \<Rightarrow> 'lim running \<Rightarrow> 'lim running \<Rightarrow> bool"
  for me tidb fs where
  edited: "f' \<in> fs \<Longrightarrow> reload_step me tidb fs (f, w, s, rs) (f', w, s, rs)"
| config_read: "i < length rs \<Longrightarrow> rs ! i = Resting \<Longrightarrow> LoadAt (me_conf me) f (configPath w) = Inr cfg \<Longrightarrow>
    reload_step me tidb fs (f, w, s, rs) (f, w, s, rs[i := ConfigRead cfg])"
| security_read: "i < length rs \<Longrightarrow> rs ! i = ConfigRead cfg \<Longrightarrow> securityPath w \<noteq> '''' \<Longrightarrow>
    LoadSecurityAt (me_conf me) f (securityPath w) = Inr sec \<Longrightarrow>
    reload_step me tidb fs (f, w, s, rs) (f, w, s, rs[i := BothRead cfg (Some sec)])"
| security_lost: "i < length rs \<Longrightarrow> rs ! i = ConfigRead cfg \<Longrightarrow> securityPath w \<noteq> '''' \<Longrightarrow>
    LoadSecurityAt (me_conf me) f (securityPath w) = Inl e \<Longrightarrow>
    reload_step me tidb fs (f, w, s, rs) (f, w, s, rs[i := Resting])"
| no_security: "i < length rs \<Longrightarrow> rs ! i = ConfigRead cfg \<Longrightarrow> securityPath w = '''' \<Longrightarrow>
    reload_step me tidb fs (f, w, s, rs) (f, w, s, rs[i := BothRead cfg None])"
| times_recorded: "i < length rs \<Longrightarrow> rs ! i = BothRead cfg sec \<Longrightarrow>
    reload_step me tidb fs (f, w, s, rs) (f, record_mtimes f w, s, rs[i := TimesRecorded cfg sec])"
| config_stored: "i < length rs \<Longrightarrow> rs ! i = TimesRecorded cfg sec \<Longrightarrow>
    reload_step me tidb fs (f, w, s, rs)
      (f, w, s\<lparr>h_config := rc_Update cfg sec (h_config s)\<rparr>, rs[i := ConfigStored cfg sec])"
| no_rules: "i < length rs \<Longrightarrow> rs ! i = ConfigStored cfg None \<Longrightarrow>
    reload_step me tidb fs (f, w, s, rs) (f, w, s, rs[i := RulesUpdated cfg])"
| checker_updated: "i < length rs \<Longrightarrow> rs ! i = ConfigStored cfg (Some sec) \<Longrightarrow>
    reload_step me tidb fs (f, w, s, rs)
      (f, w, s\<lparr>h_checker := Checker_UpdateRules (h_checker s) (Some (Security sec))\<rparr>, rs[i := CheckerUpdated cfg sec])"
| rewriter_updated: "i < length rs \<Longrightarrow> rs ! i = CheckerUpdated cfg sec \<Longrightarrow>
    reload_step me tidb fs (f, w, s, rs)
      (f, w, s\<lparr>h_rewriter := Rewriter_UpdateRules (h_rewriter s) (Some (Security sec))\<rparr>, rs[i := RulesUpdated cfg])"
| pool_marked: "i < length rs \<Longrightarrow> rs ! i = RulesUpdated cfg \<Longrightarrow>
    update_orders order names (\<lambda>tc. tc) (Clusters cfg) s \<Longrightarrow>
    UpdateConfig_locked (me_driver me) order names (Clusters cfg) s = (tc, s') \<Longrightarrow>
    set tc' = set tc \<Longrightarrow> distinct (map fst tc') \<Longrightarrow>
    reload_step me tidb fs (f, w, s, rs) (f, w, s', rs[i := PoolClosing cfg tc'])"
| handle_closed: "i < length rs \<Longrightarrow> rs ! i = PoolClosing cfg ((n, p) # rest) \<Longrightarrow>
    reload_step me tidb fs (f, w, s, rs) (f, w, close_handle p s, rs[i := PoolDeleting cfg n rest])"
| cluster_deleted: "i < length rs \<Longrightarrow> rs ! i = PoolDeleting cfg n rest \<Longrightarrow>
    reload_step me tidb fs (f, w, s, rs) (f, w, delete_cluster n s, rs[i := PoolClosing cfg rest])"
| audit_updated: "i < length rs \<Longrightarrow> rs ! i = PoolClosing cfg [] \<Longrightarrow>
    reload_step me tidb fs (f, w, s, rs)
      (f, w, s\<lparr>h_audit := snd (Log_UpdateConfig (me_mkdir me) (Audit cfg) (h_audit s))\<rparr>, rs[i := Resting])"
| served: "request_step (me_driver me) tidb s s' \<Longrightarrow> reload_step me tidb fs (f, w, s, rs) (f, w, s', rs)"

inductive_cases reload_stepE: "reload_step me tidb fs r r'"

definition reload_reach ::
  "main_env \<Rightarrow> (string \<Rightarrow> go_error + stmt_node list) \<Rightarrow> snapshot set \<Rightarrow> 'lim running \<Rightarrow> 'lim running \<Rightarrow> bool" where
  "reload_reach me tidb fs = (reload_step me tidb fs)\<^sup>*\<^sup>*"

section \<open>Where configurations and rules come from\<close>

definition config_of :: "main_env \<Rightarrow> snapshot set \<Rightarrow> string \<Rightarrow> Config \<Rightarrow> bool" where
  "config_of me fs path cfg \<longleftrightarrow> (\<exists>f \<in> fs. LoadAt (me_conf me) f path = Inr cfg)"

definition security_of :: "main_env \<Rightarrow> snapshot set \<Rightarrow> string \<Rightarrow> SecurityConfig \<Rightarrow> bool" where
  "security_of me fs path sec \<longleftrightarrow> (\<exists>f \<in> fs. LoadSecurityAt (me_conf me) f path = Inr sec)"

fun carries :: "reloader \<Rightarrow> Config set \<times> SecurityConfig set \<times> (string \<times> nat) list" where
  "carries Resting = ({}, {}, [])"
| "carries (ConfigRead cfg) = ({cfg}, {}, [])"
| "carries (BothRead cfg sec) = ({cfg}, set_option sec, [])"
| "carries (TimesRecorded cfg sec) = ({cfg}, set_option sec, [])"
| "carries (ConfigStored cfg sec) = ({cfg}, set_option sec, [])"
| "carries (CheckerUpdated cfg sec) = ({cfg}, {sec}, [])"
| "carries (RulesUpdated cfg) = ({cfg}, {}, [])"
| "carries (PoolClosing cfg tc) = ({cfg}, {}, tc)"
| "carries (PoolDeleting cfg n rest) = ({cfg}, {}, rest)"

text \<open>What one goroutine holds: configurations of the files, and clusters that are marked.\<close>

definition reloader_ok :: "main_env \<Rightarrow> snapshot set \<Rightarrow> string \<Rightarrow> string \<Rightarrow> 'lim server \<Rightarrow> reloader \<Rightarrow> bool" where
  "reloader_ok me fs cp sp s r \<longleftrightarrow>
     (case carries r of (cs, ss, tc) \<Rightarrow>
        (\<forall>cfg \<in> cs. config_of me fs cp cfg) \<and> (\<forall>sec \<in> ss. security_of me fs sp sec) \<and>
        (\<forall>(n, p) \<in> set tc. get_closing p s))"

text \<open>The rules the service may be under: those of the start or of some state of the security file.\<close>

definition rules_from ::
  "main_env \<Rightarrow> snapshot set \<Rightarrow> string \<Rightarrow> SecurityRules option \<Rightarrow> SecurityRules option \<Rightarrow> bool" where
  "rules_from me fs sp start rules \<longleftrightarrow>
     rules = start \<or> (\<exists>sec. security_of me fs sp sec \<and> rules = Some (Security sec))"

definition config_from :: "main_env \<Rightarrow> snapshot set \<Rightarrow> string \<Rightarrow> ReloadableConfig \<Rightarrow> ReloadableConfig \<Rightarrow> bool" where
  "config_from me fs cp start rc \<longleftrightarrow> rc = start \<or> config_of me fs cp (rc_config rc)"

definition clusters_from :: "main_env \<Rightarrow> snapshot set \<Rightarrow> string \<Rightarrow> ClustersConfig \<Rightarrow> ClustersConfig \<Rightarrow> bool" where
  "clusters_from me fs cp start cs \<longleftrightarrow> cs = start \<or> (\<exists>cfg. config_of me fs cp cfg \<and> cs = Clusters cfg)"

definition running_inv ::
  "main_env \<Rightarrow> snapshot set \<Rightarrow> 'lim server watcher \<Rightarrow> 'lim server \<Rightarrow> 'lim running \<Rightarrow> bool" where
  "running_inv me fs w0 s0 r =
     (case r of (f, w, s, rs) \<Rightarrow>
        f \<in> fs \<and> configPath w = configPath w0 \<and> securityPath w = securityPath w0 \<and>
        handler_inv s \<and> rt_databases s = rt_databases s0 \<and> srv_validator s = srv_validator s0 \<and>
        (\<forall>r \<in> set rs. reloader_ok me fs (configPath w0) (securityPath w0) s r) \<and>
        config_from me fs (configPath w0) (h_config s0) (h_config s) \<and>
        clusters_from me fs (configPath w0) (configs s0) (configs s) \<and>
        rules_from me fs (securityPath w0) (chk_rules (h_checker s0)) (chk_rules (h_checker s)) \<and>
        rules_from me fs (securityPath w0) (rw_rules (h_rewriter s0)) (rw_rules (h_rewriter s)))"

section \<open>The invariant of the interleavings\<close>

lemma reloader_ok_mono:
  "reloader_ok me fs cp sp s r \<Longrightarrow> (\<And>p. get_closing p s \<Longrightarrow> get_closing p s') \<Longrightarrow> reloader_ok me fs cp sp s' r"
  by (fastforce simp: reloader_ok_def split: prod.splits)

lemma all_update: "\<forall>r \<in> set rs. P r \<Longrightarrow> P x \<Longrightarrow> \<forall>r \<in> set (rs[i := x]). P r"
  using set_update_subset_insert [of rs i x] by blast

text \<open>A step of one goroutine: its own part changes, those of the others keep.\<close>

lemma reloaders_step:
  assumes "\<forall>r \<in> set rs. reloader_ok me fs cp sp s r" and "\<And>p. get_closing p s \<Longrightarrow> get_closing p s'"
    and "reloader_ok me fs cp sp s' x"
  shows "\<forall>r \<in> set (rs[i := x]). reloader_ok me fs cp sp s' r"
  using assms by (intro all_update) (blast intro: reloader_ok_mono)+

lemma pool_more_server:
  fixes s s' :: "'lim server"
  assumes "pool.more s' = pool.more s"
  shows "rt_databases s' = rt_databases s" and "h_checker s' = h_checker s" and "h_rewriter s' = h_rewriter s"
    and "h_audit s' = h_audit s" and "h_config s' = h_config s" and "srv_validator s' = srv_validator s"
  using pool_more_router [OF assms] pool_more_handler [OF assms] more_validator [of s' s] by simp_all

lemma locked_more: "pool.more (locked_state drv order names new s) = pool.more s"
  by (simp add: locked_state_def state_frame mark_ptrs_def)

lemma get_closing_fields [simp]:
  "get_closing p (h\<lparr>h_config := c\<rparr>) = get_closing p h" "get_closing p (h\<lparr>h_checker := k\<rparr>) = get_closing p h"
  "get_closing p (h\<lparr>h_rewriter := w\<rparr>) = get_closing p h" "get_closing p (h\<lparr>h_audit := l\<rparr>) = get_closing p h"
  by (simp_all add: get_closing_def)

lemma handler_inv_fields [simp]:
  "handler_inv (h\<lparr>h_config := c\<rparr>) = handler_inv h" "handler_inv (h\<lparr>h_checker := k\<rparr>) = handler_inv h"
  "handler_inv (h\<lparr>h_rewriter := w\<rparr>) = handler_inv h"
  by (simp_all add: handler_inv_def)

lemma request_step_frame:
  fixes s s' :: "'lim server"
  assumes "request_step drv tidb s s'" and inv: "handler_inv s"
  shows "handler_inv s'" and "rt_databases s' = rt_databases s" and "h_checker s' = h_checker s"
    and "h_rewriter s' = h_rewriter s" and "h_config s' = h_config s" and "configs s' = configs s"
    and "srv_validator s' = srv_validator s" and "get_closing p s' = get_closing p s"
proof -
  have "handler_inv s' \<and> rt_databases s' = rt_databases s \<and> h_checker s' = h_checker s \<and>
    h_rewriter s' = h_rewriter s \<and> h_config s' = h_config s \<and> configs s' = configs s \<and>
    srv_validator s' = srv_validator s \<and> get_closing p s' = get_closing p s"
    using assms(1)
  proof (cases rule: request_step.cases)
    case (1 clk order c tc resp)
    have "audit_inv (h_audit s)" using inv by (simp add: handler_inv_def)
    note e = tool_effect_call [OF this 1]
    obtain h1 cs where h1: "routed (getQueryTimeout s) s h1" "s' = h1\<lparr>h_audit := write_calls cs (h_audit h1)\<rparr>"
      using e by (auto simp: tool_effect_def)
    have sh: "same_shape s h1" using h1(1) by (simp add: routed_def)
    then have "configs s' = configs s" "get_closing p s' = get_closing p s"
      by (simp_all add: h1(2) same_shape_get_closing) (simp add: same_shape_def)
    then show ?thesis
      using tool_effect_frame [OF e] inv more_validator [OF tool_effect_frame(6) [OF e]] by blast
  next
    case (4 cs)
    have sh: "same_shape s s'" using same_shape_pool_calls [of s cs] 4 by simp
    have m: "pool.more s' = pool.more s" and c: "configs s' = configs s" using sh by (simp_all add: same_shape_def)
    show ?thesis
      using pool_more_server [OF m] pool_inv_same_shape [OF _ sh] same_shape_get_closing [OF sh] inv c
      by (simp add: handler_inv_def)
  qed (use inv in \<open>auto simp: on_metrics_def get_closing_def Server_Start_def Server_Handler_def Let_def
      handler_inv_def pool_inv_def is_open_def\<close>)
  then show "handler_inv s'" and "rt_databases s' = rt_databases s" and "h_checker s' = h_checker s"
    and "h_rewriter s' = h_rewriter s" and "h_config s' = h_config s" and "configs s' = configs s"
    and "srv_validator s' = srv_validator s" and "get_closing p s' = get_closing p s" by blast+
qed

text \<open>A pool step of a reload changes nothing above the pool.\<close>

lemma running_inv_pool:
  assumes inv: "running_inv me fs w0 s0 (f, w, s, rs)" and "pool_inv s'" and m: "pool.more s' = pool.more s"
    and g: "\<And>p. get_closing p s \<Longrightarrow> get_closing p s'"
    and x: "reloader_ok me fs (configPath w0) (securityPath w0) s' x"
    and c: "clusters_from me fs (configPath w0) (configs s0) (configs s')"
  shows "running_inv me fs w0 s0 (f, w, s', rs[i := x])"
  using inv reloaders_step [of rs me fs _ _ s s', OF _ g x] assms(2) c pool_more_server [OF m]
  by (simp add: running_inv_def handler_inv_def)

text \<open>The goroutines of a state that satisfies the invariant, one by one.\<close>

lemma running_member:
  assumes "running_inv me fs w0 s0 (f, w, s, rs)" and "i < length rs" and "rs ! i = r"
  shows "reloader_ok me fs (configPath w0) (securityPath w0) s r"
proof -
  have "r \<in> set rs" using assms(2,3) by (metis nth_mem)
  then show ?thesis using assms(1) by (simp add: running_inv_def)
qed

lemma running_inv_pc:
  assumes "running_inv me fs w0 s0 (f, w, s, rs)" and "reloader_ok me fs (configPath w0) (securityPath w0) s x"
  shows "running_inv me fs w0 s0 (f, w, s, rs[i := x])"
proof -
  have "\<forall>r \<in> set (rs[i := x]). reloader_ok me fs (configPath w0) (securityPath w0) s r"
    by (rule all_update) (use assms in \<open>simp_all add: running_inv_def\<close>)
  then show ?thesis using assms(1) by (simp add: running_inv_def)
qed

lemma running_files: "running_inv me fs w0 s0 (f, w, s, rs) \<Longrightarrow> f \<in> fs"
  and running_paths: "running_inv me fs w0 s0 (f, w, s, rs) \<Longrightarrow>
    configPath w = configPath w0 \<and> securityPath w = securityPath w0"
  and running_handler: "running_inv me fs w0 s0 (f, w, s, rs) \<Longrightarrow> handler_inv s"
  by (simp_all add: running_inv_def)

text \<open>An update of the configuration, the rules or the audit log.\<close>

lemma running_inv_fields:
  assumes inv: "running_inv me fs w0 s0 (f, w, s, rs)" and h: "handler_inv s'"
    and g: "\<And>p. get_closing p s' = get_closing p s"
    and x: "reloader_ok me fs (configPath w0) (securityPath w0) s x"
    and eq: "rt_databases s' = rt_databases s" "srv_validator s' = srv_validator s" "configs s' = configs s"
    and c: "config_from me fs (configPath w0) (h_config s0) (h_config s')"
    and k: "rules_from me fs (securityPath w0) (chk_rules (h_checker s0)) (chk_rules (h_checker s'))"
    and w: "rules_from me fs (securityPath w0) (rw_rules (h_rewriter s0)) (rw_rules (h_rewriter s'))"
  shows "running_inv me fs w0 s0 (f, w, s', rs[i := x])"
proof -
  have "reloader_ok me fs (configPath w0) (securityPath w0) s' x"
    by (rule reloader_ok_mono [OF x]) (simp add: g)
  then have "\<forall>r \<in> set (rs[i := x]). reloader_ok me fs (configPath w0) (securityPath w0) s' r"
    using inv by (intro reloaders_step [of rs me fs _ _ s]) (simp_all add: running_inv_def g)
  then show ?thesis using inv h eq c k w by (simp add: running_inv_def)
qed

lemma running_inv_step:
  assumes inv: "running_inv me fs w0 s0 r" and st: "reload_step me tidb fs r r'"
  shows "running_inv me fs w0 s0 r'"
  using st
proof (cases rule: reload_step.cases)
  case (edited f' f w s rs)
  then show ?thesis using inv by (simp add: running_inv_def)
next
  case (config_read i rs f w cfg s)
  note inv = inv [unfolded config_read(1)]
  have "config_of me fs (configPath w0) cfg"
    using running_files [OF inv] running_paths [OF inv] config_read(5) unfolding config_of_def by auto
  then show ?thesis
    unfolding config_read(2) by (intro running_inv_pc [OF inv]) (simp add: reloader_ok_def)
next
  case (security_read i rs cfg w f sec s)
  note inv = inv [unfolded security_read(1)]
  have "security_of me fs (securityPath w0) sec"
    using running_files [OF inv] running_paths [OF inv] security_read(6) unfolding security_of_def by auto
  then show ?thesis
    unfolding security_read(2) using running_member [OF inv security_read(3,4)]
    by (intro running_inv_pc [OF inv]) (simp add: reloader_ok_def)
next
  case (security_lost i rs cfg w f e s)
  note inv = inv [unfolded security_lost(1)]
  show ?thesis unfolding security_lost(2) by (intro running_inv_pc [OF inv]) (simp add: reloader_ok_def)
next
  case (no_security i rs cfg w f s)
  note inv = inv [unfolded no_security(1)]
  show ?thesis unfolding no_security(2) using running_member [OF inv no_security(3,4)]
    by (intro running_inv_pc [OF inv]) (simp add: reloader_ok_def)
next
  case (times_recorded i rs cfg sec f w s)
  note inv = inv [unfolded times_recorded(1)]
  have "running_inv me fs w0 s0 (f, w, s, rs[i := TimesRecorded cfg sec])"
    using running_member [OF inv times_recorded(3,4)]
    by (intro running_inv_pc [OF inv]) (simp add: reloader_ok_def)
  then show ?thesis unfolding times_recorded(2) by (simp add: running_inv_def state_frame)
next
  case (config_stored i rs cfg sec f w s)
  note inv = inv [unfolded config_stored(1)]
  note m = running_member [OF inv config_stored(3,4)]
  show ?thesis
    unfolding config_stored(2)
    by (rule running_inv_fields [OF inv])
      (use inv m in \<open>simp_all add: reloader_ok_def running_inv_def config_from_def rc_Update_def\<close>)
next
  case (no_rules i rs cfg f w s)
  note inv = inv [unfolded no_rules(1)]
  show ?thesis unfolding no_rules(2) using running_member [OF inv no_rules(3,4)]
    by (intro running_inv_pc [OF inv]) (simp add: reloader_ok_def)
next
  case (checker_updated i rs cfg sec f w s)
  note inv = inv [unfolded checker_updated(1)]
  note m = running_member [OF inv checker_updated(3,4)]
  have "rules_from me fs (securityPath w0) start (Some (Security sec))" for start
    using m by (auto simp: reloader_ok_def rules_from_def)
  then show ?thesis
    unfolding checker_updated(2)
    by (intro running_inv_fields [OF inv])
      (use inv m in \<open>simp_all add: reloader_ok_def running_inv_def checker_cell.rules_update\<close>)
next
  case (rewriter_updated i rs cfg sec f w s)
  note inv = inv [unfolded rewriter_updated(1)]
  note m = running_member [OF inv rewriter_updated(3,4)]
  have "rules_from me fs (securityPath w0) start (Some (Security sec))" for start
    using m by (auto simp: reloader_ok_def rules_from_def)
  then show ?thesis
    unfolding rewriter_updated(2)
    by (intro running_inv_fields [OF inv])
      (use inv m in \<open>simp_all add: reloader_ok_def running_inv_def rewriter_cell.rules_update\<close>)
next
  case (pool_marked i rs cfg order names s tc s' tc' f w)
  note inv = inv [unfolded pool_marked(1)]
  have pi: "pool_inv s" using running_handler [OF inv] by (simp add: handler_inv_def)
  have s': "tc = to_close (Clusters cfg) order s" "s' = locked_state (me_driver me) order names (Clusters cfg) s"
    using pool_marked(6) by (simp_all add: UpdateConfig_locked_eq)
  note l = locked_inv [OF pi pool_marked(5), of "me_driver me"]
  have cfg: "config_of me fs (configPath w0) cfg"
    using running_member [OF inv pool_marked(3,4)] by (simp add: reloader_ok_def)
  show ?thesis
    unfolding pool_marked(2)
  proof (rule running_inv_pool [OF inv])
    show "reloader_ok me fs (configPath w0) (securityPath w0) s' (PoolClosing cfg tc')"
      using l(2) cfg pool_marked(7) by (auto simp: reloader_ok_def s' marked_list_def)
    show "clusters_from me fs (configPath w0) (configs s0) (configs s')"
      using cfg by (auto simp: clusters_from_def s' locked_configs)
  qed (simp_all add: l(1) s' locked_more locked_get_closing [OF pi])
next
  case (handle_closed i rs cfg n p rest f w s)
  note inv = inv [unfolded handle_closed(1)]
  have pi: "pool_inv s" using running_handler [OF inv] by (simp add: handler_inv_def)
  have ok: "config_of me fs (configPath w0) cfg" "get_closing p s" "\<forall>(n, p) \<in> set rest. get_closing p s"
    using running_member [OF inv handle_closed(3,4)] by (simp_all add: reloader_ok_def)
  have c: "clusters_from me fs (configPath w0) (configs s0) (configs s)" using inv by (simp add: running_inv_def)
  show ?thesis
    unfolding handle_closed(2)
    by (rule running_inv_pool [OF inv pool_inv_close_handle [OF pi ok(2)]])
      (use ok c in \<open>simp_all add: reloader_ok_def state_frame\<close>)
next
  case (cluster_deleted i rs cfg n rest f w s)
  note inv = inv [unfolded cluster_deleted(1)]
  have pi: "pool_inv s" using running_handler [OF inv] by (simp add: handler_inv_def)
  have ok: "config_of me fs (configPath w0) cfg" "\<forall>(n, p) \<in> set rest. get_closing p s"
    using running_member [OF inv cluster_deleted(3,4)] by (simp_all add: reloader_ok_def)
  have c: "clusters_from me fs (configPath w0) (configs s0) (configs s)" using inv by (simp add: running_inv_def)
  show ?thesis
    unfolding cluster_deleted(2)
    by (rule running_inv_pool [OF inv pool_inv_delete_cluster [OF pi]])
      (use ok c in \<open>simp_all add: reloader_ok_def state_frame\<close>)
next
  case (audit_updated i rs cfg f w s)
  note inv = inv [unfolded audit_updated(1)]
  have "handler_inv (s\<lparr>h_audit := snd (Log_UpdateConfig (me_mkdir me) (Audit cfg) (h_audit s))\<rparr>)"
    using running_handler [OF inv] by (intro handler_inv_audit audit_inv_UpdateConfig) (simp_all add: handler_inv_def)
  then show ?thesis
    unfolding audit_updated(2)
    by (intro running_inv_fields [OF inv]) (use inv in \<open>simp_all add: reloader_ok_def running_inv_def\<close>)
next
  case (served s s' f w rs)
  note inv = inv [unfolded served(1)]
  note fr = request_step_frame [OF served(3) running_handler [OF inv]]
  have "\<forall>r \<in> set rs. reloader_ok me fs (configPath w0) (securityPath w0) s' r"
    using inv fr(8) by (auto simp: running_inv_def intro: reloader_ok_mono)
  then show ?thesis using inv served(2) fr by (simp add: running_inv_def)
qed

lemma running_inv_reach:
  "reload_reach me tidb fs r r' \<Longrightarrow> running_inv me fs w0 s0 r \<Longrightarrow> running_inv me fs w0 s0 r'"
  unfolding reload_reach_def by (induction rule: rtranclp_induct) (auto intro: running_inv_step)

lemma running_inv_start:
  "f \<in> fs \<Longrightarrow> handler_inv s \<Longrightarrow> running_inv me fs w s (f, w, s, replicate k Resting)"
  by (simp add: running_inv_def reloader_ok_def config_from_def clusters_from_def rules_from_def)

end
