(* ===== verification/Pool_Lost.thy ===== *)
theory Pool_Lost
  imports Pool_Updates
begin

text \<open>
  What overlapping updates of the pool lose: a cluster that is configured and could be opened, and, with
  three updates, a handle that stays open for good because the map of clusters forgets it.
\<close>

section \<open>Running one update to its end\<close>

definition close_all_of :: "(string \<times> nat) list \<Rightarrow> 'a pool_scheme \<Rightarrow> 'a pool_scheme" where
  "close_all_of tc s = fold (\<lambda>(n, p) s. close_one p n s) tc s"

lemma close_all_of_simps [simp]:
  "close_all_of [] s = s" "close_all_of ((n, p) # tc) s = close_all_of tc (close_one p n s)"
  by (simp_all add: close_all_of_def)

lemma close_all_of_frame [state_frame]:
  "mdbs (close_all_of tc s) = mdbs s" "configs (close_all_of tc s) = configs s"
  "next_mdb (close_all_of tc s) = next_mdb s"
  by (induction tc arbitrary: s) (auto simp: state_frame)

lemma close_all_of_clusters:
  "clusters (close_all_of tc s) n = (if n \<in> fst ` set tc then None else clusters s n)"
proof (induction tc arbitrary: s)
  case (Cons np tc)
  show ?case by (cases np) (simp add: Cons.IH state_frame)
qed simp

lemma close_all_of_is_open:
  "is_open h (close_all_of tc s) \<longleftrightarrow> is_open h s \<and> (\<forall>(n, p) \<in> set tc. handle_of p s \<noteq> h)"
  unfolding close_all_of_def by (rule fold_close_is_open)

lemma all_idle_close_all_of [simp]: "all_idle (close_all_of tc s) = all_idle s"
  by (simp add: all_idle_def state_frame)

lemma updates_step_reach:
  "updates_step drv x r r' \<Longrightarrow> updates_reach drv x r' r'' \<Longrightarrow> updates_reach drv x r r''"
  unfolding updates_reach_def by (rule converse_rtranclp_into_rtranclp)

lemma updates_reach_trans:
  "updates_reach drv x r r' \<Longrightarrow> updates_reach drv x r' r'' \<Longrightarrow> updates_reach drv x r r''"
  unfolding updates_reach_def by (rule rtranclp_trans)

lemma finish_one:
  assumes "i < length us" and "us ! i = (new, ToClose tc)" and "all_idle s"
    and "\<forall>(n, p) \<in> set tc. mdbs s p \<noteq> None"
  shows "updates_reach drv x (s, us) (close_all_of tc s, us[i := (new, ToClose [])])"
  using assms
proof (induction tc arbitrary: s us)
  case Nil
  then have "us[i := (new, ToClose [])] = us" by (metis list_update_id)
  then show ?case by (simp add: updates_reach_def)
next
  case (Cons np tc)
  obtain n p where np: "np = (n, p)" by (cases np)
  let ?us1 = "us[i := (new, ToDelete n tc)]" and ?us2 = "us[i := (new, ToClose tc)]"
  have c: "updates_step drv x (s, us) (close_handle p s, ?us1)"
    by (rule closes [OF Cons.prems(1)]) (use Cons.prems np all_idle_no_refs [of s p] in auto)
  have d: "updates_step drv x (close_handle p s, ?us1) (close_one p n s, ?us2)"
    using deletes [of i ?us1 new n tc drv x "close_handle p s"] Cons.prems(1) by (simp add: close_one_halves)
  have "updates_reach drv x (close_one p n s, ?us2) (close_all_of tc (close_one p n s), ?us2[i := (new, ToClose [])])"
    by (rule Cons.IH) (use Cons.prems in \<open>auto simp: all_idle_def state_frame\<close>)
  then show ?case using c d updates_step_reach by (simp add: np) blast
qed

lemma to_close_known:
  assumes "pool_inv s" and "update_orders order names (\<lambda>tc. tc) new s"
  shows "\<forall>(n, p) \<in> set (to_close new order s). mdbs (locked_state drv order names new s) p \<noteq> None"
  using locked_inv(2) [OF assms, of drv] by (auto simp: marked_list_def get_closing_def split: option.splits)

lemma locked_known: "pool_inv s \<Longrightarrow> mdbs s p \<noteq> None \<Longrightarrow> mdbs (locked_state drv order names new s) p \<noteq> None"
  using locked_mdbs [of s p _ drv order names new] by auto

lemma mark_step:
  assumes "i < length us" and "us ! i = (new, ToMark)" and "update_orders order names (\<lambda>tc. tc) new s"
  shows "updates_step drv x (s, us)
    (locked_state drv order names new s, us[i := (new, ToClose (to_close new order s))])"
  by (rule marks [OF assms UpdateConfig_locked_eq])

section \<open>Two updates lose a cluster\<close>

lemma updates_lose_cluster_aux:
  assumes inv: "pool_inv s" and idle: "all_idle s" and c: "clusters s c = Some p"
    and gone: "must_close (configs s) new1 c"
    and o1: "update_orders order1 names1 (\<lambda>tc. tc) new1 s"
    and o2: "update_orders order2 names2 (\<lambda>tc. tc) new2 (locked_state drv order1 names1 new1 s)"
  shows "\<exists>s'. updates_reach drv False (s, [(new1, ToMark), (new2, ToMark)])
      (s', [(new1, ToClose []), (new2, ToClose [])]) \<and> configs s' = new2 \<and> clusters s' c = None"
proof -
  define s1 where "s1 = locked_state drv order1 names1 new1 s"
  define s2 where "s2 = locked_state drv order2 names2 new2 s1"
  let ?t1 = "to_close new1 order1 s" and ?t2 = "to_close new2 order2 s1"
  let ?s4 = "close_all_of ?t2 (close_all_of ?t1 s2)"
  have i1: "pool_inv s1" unfolding s1_def by (rule locked_inv(1) [OF inv o1])
  have idle2: "all_idle s2" unfolding s1_def s2_def by (intro all_idle_locked idle)
  have k1: "\<forall>(n, q) \<in> set ?t1. mdbs s2 q \<noteq> None"
    using to_close_known [OF inv o1, of drv] locked_known [OF i1, of _ drv order2 names2 new2] unfolding s1_def s2_def by blast
  have k2: "\<forall>(n, q) \<in> set ?t2. mdbs (close_all_of ?t1 s2) q \<noteq> None"
    using to_close_known [OF i1 o2 [folded s1_def], of drv] by (simp add: s2_def state_frame)
  have "updates_step drv False (s, [(new1, ToMark), (new2, ToMark)]) (s1, [(new1, ToClose ?t1), (new2, ToMark)])"
    using mark_step [of 0 "[(new1, ToMark), (new2, ToMark)]", OF _ _ o1, of drv False] by (simp add: s1_def)
  moreover have "updates_step drv False (s1, [(new1, ToClose ?t1), (new2, ToMark)])
      (s2, [(new1, ToClose ?t1), (new2, ToClose ?t2)])"
    using mark_step [of 1 "[(new1, ToClose ?t1), (new2, ToMark)]", OF _ _ o2 [folded s1_def], of drv False] by (simp add: s2_def)
  moreover have "updates_reach drv False (s2, [(new1, ToClose ?t1), (new2, ToClose ?t2)])
      (close_all_of ?t1 s2, [(new1, ToClose []), (new2, ToClose ?t2)])"
    using finish_one [of 0 "[(new1, ToClose ?t1), (new2, ToClose ?t2)]", OF _ _ idle2 k1, of new1 drv False] by simp
  moreover have "updates_reach drv False (close_all_of ?t1 s2, [(new1, ToClose []), (new2, ToClose ?t2)])
      (?s4, [(new1, ToClose []), (new2, ToClose [])])"
    using finish_one [of 1 "[(new1, ToClose []), (new2, ToClose ?t2)]", OF _ _ _ k2, of new2 drv False] idle2 by simp
  ultimately have "updates_reach drv False (s, [(new1, ToMark), (new2, ToMark)]) (?s4, [(new1, ToClose []), (new2, ToClose [])])"
    by (meson updates_step_reach updates_reach_trans)
  moreover have "c \<in> fst ` set ?t1"
    using to_close_iff [OF update_ordersD(1) [OF o1]] c gone by force
  then have "clusters ?s4 c = None" by (simp add: close_all_of_clusters)
  moreover have "configs ?s4 = new2" by (simp add: state_frame s2_def locked_configs)
  ultimately show ?thesis by blast
qed

section \<open>Three updates lose a handle\<close>

text \<open>A list of old clusters does not touch the handle of a new one.\<close>

lemma fresh_survives:
  assumes inv: "pool_inv s" and p: "mdbs s p = Some m" and op: "is_open (mdb_db m) s"
    and old: "\<forall>(n, q) \<in> set tc. q \<noteq> p \<and> mdbs s q \<noteq> None"
  shows "is_open (mdb_db m) (close_all_of tc s)"
proof -
  have "handle_of q s \<noteq> mdb_db m" if "(n, q) \<in> set tc" for n q
  proof -
    have "q \<noteq> p \<and> mdbs s q \<noteq> None" using old that by blast
    then obtain k where k: "mdbs s q = Some k" and "q \<noteq> p" by auto
    then show ?thesis using pool_invD(3) [OF inv k p] by (auto simp: handle_of_def)
  qed
  with op show ?thesis by (auto simp: close_all_of_is_open)
qed

lemma pool_inv_close_all_of:
  "pool_inv s \<Longrightarrow> \<forall>(n, p) \<in> set tc. get_closing p s \<Longrightarrow> pool_inv (close_all_of tc s)"
proof (induction tc arbitrary: s)
  case (Cons np tc)
  obtain n p where np: "np = (n, p)" by (cases np)
  have g: "get_closing q (close_one p n s) = get_closing q s" for q by (simp add: close_one_halves)
  have "pool_inv (close_one p n s)"
    using Cons.prems by (simp add: np close_one_halves pool_inv_delete_cluster pool_inv_close_handle)
  moreover have "\<forall>(n', q) \<in> set tc. get_closing q (close_one p n s)"
    using Cons.prems(2) by (simp add: g)
  ultimately show ?case using Cons.IH by (simp add: np)
qed simp

text \<open>
  A deletion that comes late: \<open>tc\<close> still names a cluster that is gone from the map when another
  update opens it again.
\<close>

definition forgotten :: "nat \<Rightarrow> 'a pool_scheme \<Rightarrow> bool" where
  "forgotten h s \<longleftrightarrow>
     is_open h s \<and> (\<forall>n q m. clusters s n = Some q \<and> mdbs s q = Some m \<longrightarrow> mdb_db m \<noteq> h)"

lemma late_deletion_forgets:
  assumes inv: "pool_inv s" and none: "clusters s c = None" and op: "openable drv new c"
    and ord: "update_orders order names (\<lambda>tc. tc) new s"
    and tc: "\<forall>(n, q) \<in> set tc. get_closing q s" and ctc: "c \<in> fst ` set tc"
  shows "\<exists>h. forgotten h (close_all_of (to_close new order s) (close_all_of tc (locked_state drv order names new s)))"
proof -
  define s1 where "s1 = locked_state drv order names new s"
  let ?t = "to_close new order s"
  let ?s2 = "close_all_of tc s1" and ?s3 = "close_all_of ?t (close_all_of tc s1)"
  obtain p h cfg where p: "clusters s1 c = Some p" "next_mdb s \<le> p"
    and h: "mdbs s1 p = Some \<lparr>mdb_db = h, refCount = 0, closing = 0\<rparr>" and d: "dbs s1 h = Some (configured_db cfg)"
    using locked_fresh [OF inv ord none op] unfolding s1_def [symmetric] fresh_cluster_def by metis
  have i1: "pool_inv s1" unfolding s1_def by (rule locked_inv(1) [OF inv ord])
  have old: "q \<noteq> p \<and> mdbs s1 q \<noteq> None" if "mdbs s q \<noteq> None" for q
    using pool_invD(5) [OF inv p(2)] that locked_known [OF inv that, of drv order names new] by (auto simp: s1_def)
  have old1: "\<forall>(n, q) \<in> set tc. q \<noteq> p \<and> mdbs s1 q \<noteq> None"
    using tc old by (fastforce simp: get_closing_def split: option.splits)
  have old2: "\<forall>(n, q) \<in> set ?t. q \<noteq> p \<and> mdbs ?s2 q \<noteq> None"
    using to_close_iff [OF update_ordersD(1) [OF ord], of _ _ new] pool_invD(1) [OF inv] old
    by (fastforce simp: state_frame)
  have "\<forall>(n, q) \<in> set tc. get_closing q s1"
    using tc locked_get_closing [OF inv, of _ drv order names new] by (auto simp: s1_def)
  then have i2: "pool_inv ?s2" by (rule pool_inv_close_all_of [OF i1])
  have h2: "mdbs ?s2 p = Some \<lparr>mdb_db = h, refCount = 0, closing = 0\<rparr>" using h by (simp add: state_frame)
  have "is_open h s1"
    using d by (simp add: is_open_def configured_db_def set_max_lifetime_def set_max_idle_def set_max_open_def Let_def)
  then have "is_open h ?s2" using fresh_survives [OF i1 h _ old1] by simp
  then have open3: "is_open h ?s3" using fresh_survives [OF i2 h2 _ old2] by simp
  have "mdb_db m \<noteq> h" if n: "clusters ?s3 n = Some q" and m: "mdbs ?s3 q = Some m" for n q m
  proof
    assume eq: "mdb_db m = h"
    have "mdbs s1 q = Some m" using m by (simp add: state_frame)
    then have q: "q = p" using pool_invD(3) [OF i1 _ h] eq by simp
    have n1: "clusters s1 n = Some q" "n \<notin> fst ` set tc"
      using n by (auto simp: close_all_of_clusters split: if_splits)
    then have "n = c" using pool_invD(2) [OF i1, of n p c] p(1) q by simp
    with n1(2) ctc show False by simp
  qed
  with open3 show ?thesis by (auto simp: forgotten_def s1_def)
qed

text \<open>The schedule: two updates mark, the first ends, the third marks, the second and the third end.\<close>

lemma three_updates_run:
  assumes s1: "s1 = locked_state drv o1 n1 new1 s" and s2: "s2 = locked_state drv o2 n2 new2 s1"
    and s3: "s3 = close_all_of (to_close new1 o1 s) s2" and s4: "s4 = locked_state drv o3 n3 new3 s3"
    and s6: "s6 = close_all_of (to_close new3 o3 s3) (close_all_of (to_close new2 o2 s1) s4)"
    and inv: "pool_inv s" "pool_inv s1" "pool_inv s2" "pool_inv s3" and idle: "all_idle s"
    and ord: "update_orders o1 n1 (\<lambda>tc. tc) new1 s" "update_orders o2 n2 (\<lambda>tc. tc) new2 s1"
      "update_orders o3 n3 (\<lambda>tc. tc) new3 s3"
  shows "updates_reach drv False (s, [(new1, ToMark), (new2, ToMark), (new3, ToMark)])
      (s6, [(new1, ToClose []), (new2, ToClose []), (new3, ToClose [])])"
proof -
  let ?t1 = "to_close new1 o1 s" and ?t2 = "to_close new2 o2 s1" and ?t3 = "to_close new3 o3 s3"
  have idles: "all_idle s2" "all_idle s4" by (simp_all add: s1 s2 s3 s4 all_idle_locked idle)
  have k1: "\<forall>(n, q) \<in> set ?t1. mdbs s2 q \<noteq> None"
    using to_close_known [OF inv(1) ord(1), of drv] locked_known [OF inv(2), of _ drv o2 n2 new2] unfolding s1 s2 by blast
  have k2': "\<forall>(n, q) \<in> set ?t2. mdbs s3 q \<noteq> None"
    using to_close_known [OF inv(2) ord(2), of drv] by (simp add: s3 s2 state_frame)
  then have k2: "\<forall>(n, q) \<in> set ?t2. mdbs s4 q \<noteq> None"
    using locked_known [OF inv(4), of _ drv o3 n3 new3] unfolding s4 by blast
  have k3: "\<forall>(n, q) \<in> set ?t3. mdbs (close_all_of ?t2 s4) q \<noteq> None"
    using to_close_known [OF inv(4) ord(3), of drv] by (simp add: s4 state_frame)
  note m = mark_step [of 0 "[(new1, ToMark), (new2, ToMark), (new3, ToMark)]", OF _ _ ord(1), of drv False]
    mark_step [of 1 "[(new1, ToClose ?t1), (new2, ToMark), (new3, ToMark)]", OF _ _ ord(2), of drv False]
    mark_step [of 2 "[(new1, ToClose []), (new2, ToClose ?t2), (new3, ToMark)]", OF _ _ ord(3), of drv False]
  note f = finish_one [of 0 "[(new1, ToClose ?t1), (new2, ToClose ?t2), (new3, ToMark)]", OF _ _ idles(1) k1, of new1 drv False]
    finish_one [of 1 "[(new1, ToClose []), (new2, ToClose ?t2), (new3, ToClose ?t3)]", OF _ _ idles(2) k2, of new2 drv False]
    finish_one [of 2 "[(new1, ToClose []), (new2, ToClose []), (new3, ToClose ?t3)]", OF _ _ _ k3, of new3 drv False]
  have "updates_step drv False (s, [(new1, ToMark), (new2, ToMark), (new3, ToMark)])
      (s1, [(new1, ToClose ?t1), (new2, ToMark), (new3, ToMark)])" using m(1) by (simp add: s1)
  moreover have "updates_step drv False (s1, [(new1, ToClose ?t1), (new2, ToMark), (new3, ToMark)])
      (s2, [(new1, ToClose ?t1), (new2, ToClose ?t2), (new3, ToMark)])" using m(2) by (simp add: s2)
  moreover have "updates_reach drv False (s2, [(new1, ToClose ?t1), (new2, ToClose ?t2), (new3, ToMark)])
      (s3, [(new1, ToClose []), (new2, ToClose ?t2), (new3, ToMark)])" using f(1) by (simp add: s3)
  moreover have "updates_step drv False (s3, [(new1, ToClose []), (new2, ToClose ?t2), (new3, ToMark)])
      (s4, [(new1, ToClose []), (new2, ToClose ?t2), (new3, ToClose ?t3)])" using m(3) by (simp add: s4)
  moreover have "updates_reach drv False (s4, [(new1, ToClose []), (new2, ToClose ?t2), (new3, ToClose ?t3)])
      (close_all_of ?t2 s4, [(new1, ToClose []), (new2, ToClose []), (new3, ToClose ?t3)])" using f(2) by simp
  moreover have "updates_reach drv False (close_all_of ?t2 s4, [(new1, ToClose []), (new2, ToClose []), (new3, ToClose ?t3)])
      (s6, [(new1, ToClose []), (new2, ToClose []), (new3, ToClose [])])" using f(3) idles(2) by (simp add: s6)
  ultimately show ?thesis by (meson updates_step_reach updates_reach_trans)
qed

lemma locked_finite:
  assumes "finite (dom (clusters s))"
  shows "finite (dom (clusters (locked_state drv order names new s)))"
proof -
  have "dom (clusters (locked_state drv order names new s)) \<subseteq> dom (clusters s) \<union> set names"
    using dom_add_new [of drv new names "mark_ptrs (snd ` set (to_close new order s)) s"]
    by (simp add: locked_state_def state_frame)
  then show ?thesis using assms by (meson List.finite_set finite_UnI finite_subset)
qed

lemma close_all_of_finite: "finite (dom (clusters s)) \<Longrightarrow> finite (dom (clusters (close_all_of tc s)))"
  by (rule finite_subset [rotated]) (auto simp: close_all_of_clusters split: if_splits)

lemma orders_exist:
  "finite (dom (clusters s)) \<Longrightarrow> finite (dom new) \<Longrightarrow> \<exists>order names. update_orders order names (\<lambda>tc. tc) new s"
  unfolding update_orders_def using ranges_over_exists by meson

lemma updates_leak_handle_aux:
  assumes inv: "pool_inv s" and idle: "all_idle s" and c: "clusters s c = Some p"
    and m1: "must_close (configs s) new1 c" and m2: "must_close new1 new2 c" and op: "openable drv new3 c"
    and fin: "finite (dom (clusters s))" "finite (dom new1)" "finite (dom new2)" "finite (dom new3)"
  shows "\<exists>s' h. updates_reach drv False (s, [(new1, ToMark), (new2, ToMark), (new3, ToMark)])
      (s', [(new1, ToClose []), (new2, ToClose []), (new3, ToClose [])]) \<and>
    configs s' = new3 \<and> clusters s' c = None \<and> forgotten h s'"
proof -
  obtain o1 n1 where o1: "update_orders o1 n1 (\<lambda>tc. tc) new1 s" using orders_exist [OF fin(1,2)] by blast
  define s1 where "s1 = locked_state drv o1 n1 new1 s"
  have f1: "finite (dom (clusters s1))" unfolding s1_def by (rule locked_finite [OF fin(1)])
  obtain o2 n2 where o2: "update_orders o2 n2 (\<lambda>tc. tc) new2 s1" using orders_exist [OF f1 fin(3)] by blast
  define s2 where "s2 = locked_state drv o2 n2 new2 s1"
  let ?t1 = "to_close new1 o1 s" and ?t2 = "to_close new2 o2 s1"
  define s3 where "s3 = close_all_of ?t1 s2"
  have f3: "finite (dom (clusters s3))" unfolding s3_def s2_def by (rule close_all_of_finite [OF locked_finite [OF f1]])
  obtain o3 n3 where o3: "update_orders o3 n3 (\<lambda>tc. tc) new3 s3" using orders_exist [OF f3 fin(4)] by blast
  have i1: "pool_inv s1" unfolding s1_def by (rule locked_inv(1) [OF inv o1])
  have i2: "pool_inv s2" unfolding s2_def by (rule locked_inv(1) [OF i1 o2])
  have g1: "\<forall>(n, q) \<in> set ?t1. get_closing q s2"
    using locked_inv(2) [OF inv o1, of drv] locked_get_closing [OF i1, of _ drv o2 n2 new2]
    by (auto simp: s1_def [symmetric] s2_def [symmetric] marked_list_def)
  have g2: "\<forall>(n, q) \<in> set ?t2. get_closing q s3"
    using locked_inv(2) [OF i1 o2, of drv]
    by (auto simp: s2_def [symmetric] marked_list_def s3_def get_closing_def state_frame)
  have i3: "pool_inv s3" unfolding s3_def by (rule pool_inv_close_all_of [OF i2 g1])
  have ct1: "c \<in> fst ` set ?t1" using to_close_iff [OF update_ordersD(1) [OF o1]] c m1 by force
  have "clusters s1 c = Some p" unfolding s1_def by (rule locked_clusters [OF c])
  then have ct2: "c \<in> fst ` set ?t2"
    using to_close_iff [OF update_ordersD(1) [OF o2]] m2 by (force simp: s1_def locked_configs)
  have "clusters s3 c = None" using ct1 by (simp add: s3_def close_all_of_clusters)
  from late_deletion_forgets [OF i3 this op o3 g2 ct2] obtain h
    where h: "forgotten h (close_all_of (to_close new3 o3 s3) (close_all_of ?t2 (locked_state drv o3 n3 new3 s3)))"
    by blast
  let ?s6 = "close_all_of (to_close new3 o3 s3) (close_all_of ?t2 (locked_state drv o3 n3 new3 s3))"
  have "configs ?s6 = new3" by (simp add: state_frame locked_configs)
  moreover have "clusters ?s6 c = None" using ct2 by (simp add: close_all_of_clusters)
  ultimately show ?thesis
    using h three_updates_run [OF s1_def s2_def s3_def refl refl inv i1 i2 i3 idle o1 o2 o3] by blast
qed

text \<open>Closing the pool does not reach a forgotten handle.\<close>

lemma forgotten_Pool_Close: "forgotten h s \<Longrightarrow> is_open h (snd (Pool_Close drv order s))"
proof -
  assume "forgotten h s"
  then have "is_open h (snd (close_all drv order None s))"
    by (auto simp: forgotten_def close_all_is_open)
  then show ?thesis by (simp add: Pool_Close_def is_open_def case_prod_beta)
qed

end
