(* ===== verification/Reload_Stale.thy ===== *)
theory Reload_Stale
  imports Reload_Concurrency Pool_Lost
begin

text \<open>
  Two overlapping reloads of two versions of the files: a schedule after which the checker enforces the
  rules of the older version for good.
\<close>

section \<open>Running one goroutine to its end\<close>

lemma reload_step_reach:
  "reload_step me tidb fs r r' \<Longrightarrow> reload_reach me tidb fs r' r'' \<Longrightarrow> reload_reach me tidb fs r r''"
  unfolding reload_reach_def by (rule converse_rtranclp_into_rtranclp)

lemma reload_reach_refl: "reload_reach me tidb fs r r"
  by (simp add: reload_reach_def)

lemma reload_reach_trans:
  "reload_reach me tidb fs r r' \<Longrightarrow> reload_reach me tidb fs r' r'' \<Longrightarrow> reload_reach me tidb fs r r''"
  unfolding reload_reach_def by (rule rtranclp_trans)

lemma close_all_of_more [state_frame]: "pool.more (close_all_of tc s) = pool.more s"
  by (induction tc arbitrary: s) (auto simp: close_one_halves state_frame)

lemma drain_pool:
  "i < length rs \<Longrightarrow> rs ! i = PoolClosing cfg tc \<Longrightarrow>
     reload_reach me tidb fs (f, w, s, rs) (f, w, close_all_of tc s, rs[i := PoolClosing cfg []])"
proof (induction tc arbitrary: s rs)
  case Nil
  then have "rs[i := PoolClosing cfg []] = rs" by (metis list_update_id)
  then show ?case by (simp add: reload_reach_refl)
next
  case (Cons np tc)
  obtain n p where np: "np = (n, p)" by (cases np)
  let ?rs1 = "rs[i := PoolDeleting cfg n tc]" and ?rs2 = "rs[i := PoolClosing cfg tc]"
  have c: "reload_step me tidb fs (f, w, s, rs) (f, w, close_handle p s, ?rs1)"
    by (rule handle_closed) (use Cons.prems np in auto)
  have d: "reload_step me tidb fs (f, w, close_handle p s, ?rs1) (f, w, close_one p n s, ?rs2)"
    using cluster_deleted [of i ?rs1 cfg n tc me tidb fs f w "close_handle p s"] Cons.prems(1)
    by (simp add: close_one_halves)
  have "reload_reach me tidb fs (f, w, close_one p n s, ?rs2)
      (f, w, close_all_of tc (close_one p n s), ?rs2[i := PoolClosing cfg []])"
    by (rule Cons.IH) (use Cons.prems in simp_all)
  then show ?case using c d reload_step_reach by (simp add: np) blast
qed

text \<open>What is left of a reload once the rules are updated leaves configuration and rules alone.\<close>

definition same_rules :: "'lim server \<Rightarrow> 'lim server \<Rightarrow> bool" where
  "same_rules s s' \<longleftrightarrow>
     h_config s' = h_config s \<and> h_checker s' = h_checker s \<and> h_rewriter s' = h_rewriter s"

lemma finish_reload:
  assumes i: "i < length rs" "rs ! i = RulesUpdated cfg"
    and fin: "finite (dom (clusters s))" "finite (dom (Clusters cfg))"
  shows "\<exists>s'. reload_reach me tidb fs (f, w, s, rs) (f, w, s', rs[i := Resting]) \<and>
    same_rules s s' \<and> configs s' = Clusters cfg \<and> finite (dom (clusters s'))"
proof -
  obtain order names where ord: "update_orders order names (\<lambda>tc. tc) (Clusters cfg) s"
    using orders_exist [OF fin] by blast
  let ?tc = "to_close (Clusters cfg) order s"
  define s1 where "s1 = locked_state (me_driver me) order names (Clusters cfg) s"
  let ?s2 = "close_all_of ?tc s1"
  let ?s3 = "?s2\<lparr>h_audit := snd (Log_UpdateConfig (me_mkdir me) (Audit cfg) (h_audit ?s2))\<rparr>"
  have "reload_step me tidb fs (f, w, s, rs) (f, w, s1, rs[i := PoolClosing cfg ?tc])"
    unfolding s1_def
    by (rule pool_marked [OF i ord UpdateConfig_locked_eq refl to_close_distinct]) (use ord in \<open>simp add: update_orders_def\<close>)
  moreover have "reload_reach me tidb fs (f, w, s1, rs[i := PoolClosing cfg ?tc]) (f, w, ?s2, rs[i := PoolClosing cfg []])"
    using drain_pool [of i "rs[i := PoolClosing cfg ?tc]" cfg ?tc] i(1) by simp
  moreover have "reload_step me tidb fs (f, w, ?s2, rs[i := PoolClosing cfg []]) (f, w, ?s3, rs[i := Resting])"
    using audit_updated [of i "rs[i := PoolClosing cfg []]" cfg me tidb fs f w ?s2] i(1) by simp
  ultimately have "reload_reach me tidb fs (f, w, s, rs) (f, w, ?s3, rs[i := Resting])"
    by (meson reload_step_reach reload_reach_trans reload_reach_refl)
  moreover have "pool.more ?s2 = pool.more s" by (simp add: state_frame s1_def locked_more)
  then have "same_rules s ?s3" using pool_more_server [of ?s2 s] by (simp add: same_rules_def)
  moreover have "configs ?s3 = Clusters cfg" by (simp add: state_frame s1_def locked_configs)
  moreover have "finite (dom (clusters ?s3))"
    using close_all_of_finite [OF locked_finite [OF fin(1)], of ?tc "me_driver me" order names "Clusters cfg"]
    by (simp add: s1_def)
  ultimately show ?thesis by blast
qed

section \<open>The schedule\<close>

text \<open>Reading both files while they stay in one state.\<close>

lemma read_both:
  assumes "i < length rs" and "rs ! i = Resting" and ld: "load_both (me_conf me) f f w = Some (cfg, sec)"
  shows "reload_reach me tidb fs (f, w, s, rs) (f, w, s, rs[i := BothRead cfg sec])"
proof -
  have c: "LoadAt (me_conf me) f (configPath w) = Inr cfg"
    using ld by (auto simp: load_both_def split: sum.splits if_splits)
  let ?rs1 = "rs[i := ConfigRead cfg]"
  have a: "reload_step me tidb fs (f, w, s, rs) (f, w, s, ?rs1)" by (rule config_read [OF assms(1,2) c])
  have b: "reload_step me tidb fs (f, w, s, ?rs1) (f, w, s, rs[i := BothRead cfg sec])"
  proof (cases "securityPath w = ''''")
    case True
    then have "sec = None" using ld c by (simp add: load_both_def)
    then show ?thesis using no_security [of i ?rs1 cfg w me tidb fs f s] True assms(1) by simp
  next
    case False
    then obtain sc where "LoadSecurityAt (me_conf me) f (securityPath w) = Inr sc" "sec = Some sc"
      using ld c by (auto simp: load_both_def split: sum.splits)
    then show ?thesis using security_read [of i ?rs1 cfg w me f sc tidb fs s] False assms(1) by simp
  qed
  show ?thesis by (rule reload_step_reach [OF a reload_step_reach [OF b reload_reach_refl]])
qed

lemma stale_rules_schedule:
  assumes w: "load_both (me_conf me) f1 f1 w = Some (cfg1, Some sec1)"
      "load_both (me_conf me) f2 f2 w = Some (cfg2, Some sec2)"
    and fs: "f1 \<in> fs" "f2 \<in> fs"
    and fin: "finite (dom (clusters s))" "finite (dom (Clusters cfg1))" "finite (dom (Clusters cfg2))"
  shows "\<exists>s'. reload_reach me tidb fs (f1, w, s, [Resting, Resting])
      (f2, record_mtimes f2 (record_mtimes f2 w), s', [Resting, Resting]) \<and>
    h_config s' = \<lparr>rc_config = cfg2, rc_security = Some sec2\<rparr> \<and> configs s' = Clusters cfg2 \<and>
    chk_rules (h_checker s') = Some (Security sec1) \<and> rw_rules (h_rewriter s') = Some (Security sec2)"
proof -
  let ?w = "record_mtimes f2 (record_mtimes f2 w)"
  let ?s1 = "s\<lparr>h_config := rc_Update cfg1 (Some sec1) (h_config s)\<rparr>"
  let ?s2 = "?s1\<lparr>h_config := rc_Update cfg2 (Some sec2) (h_config ?s1)\<rparr>"
  let ?s3 = "?s2\<lparr>h_checker := Checker_UpdateRules (h_checker ?s2) (Some (Security sec2))\<rparr>"
  let ?s4 = "?s3\<lparr>h_checker := Checker_UpdateRules (h_checker ?s3) (Some (Security sec1))\<rparr>"
  let ?s5 = "?s4\<lparr>h_rewriter := Rewriter_UpdateRules (h_rewriter ?s4) (Some (Security sec1))\<rparr>"
  let ?s6 = "?s5\<lparr>h_rewriter := Rewriter_UpdateRules (h_rewriter ?s5) (Some (Security sec2))\<rparr>"
  have r0: "reload_reach me tidb fs (f1, w, s, [Resting, Resting]) (f1, w, s, [BothRead cfg1 (Some sec1), Resting])"
    using read_both [of 0 "[Resting, Resting]", OF _ _ w(1), of tidb fs s] by simp
  have e: "reload_step me tidb fs (f1, w, s, [BothRead cfg1 (Some sec1), Resting])
      (f2, w, s, [BothRead cfg1 (Some sec1), Resting])" by (rule edited [OF fs(2)])
  have r1: "reload_reach me tidb fs (f2, w, s, [BothRead cfg1 (Some sec1), Resting])
      (f2, w, s, [BothRead cfg1 (Some sec1), BothRead cfg2 (Some sec2)])"
    using read_both [of 1 "[BothRead cfg1 (Some sec1), Resting]", OF _ _ w(2), of tidb fs s] by simp
  have t0: "reload_step me tidb fs (f2, w, s, [BothRead cfg1 (Some sec1), BothRead cfg2 (Some sec2)])
      (f2, record_mtimes f2 w, s, [TimesRecorded cfg1 (Some sec1), BothRead cfg2 (Some sec2)])"
    using times_recorded [of 0 "[BothRead cfg1 (Some sec1), BothRead cfg2 (Some sec2)]" cfg1 "Some sec1"] by simp
  have t1: "reload_step me tidb fs (f2, record_mtimes f2 w, s, [TimesRecorded cfg1 (Some sec1), BothRead cfg2 (Some sec2)])
      (f2, ?w, s, [TimesRecorded cfg1 (Some sec1), TimesRecorded cfg2 (Some sec2)])"
    using times_recorded [of 1 "[TimesRecorded cfg1 (Some sec1), BothRead cfg2 (Some sec2)]" cfg2 "Some sec2"] by simp
  have c0: "reload_step me tidb fs (f2, ?w, s, [TimesRecorded cfg1 (Some sec1), TimesRecorded cfg2 (Some sec2)])
      (f2, ?w, ?s1, [ConfigStored cfg1 (Some sec1), TimesRecorded cfg2 (Some sec2)])"
    using config_stored [of 0 "[TimesRecorded cfg1 (Some sec1), TimesRecorded cfg2 (Some sec2)]" cfg1 "Some sec1"] by simp
  have c1: "reload_step me tidb fs (f2, ?w, ?s1, [ConfigStored cfg1 (Some sec1), TimesRecorded cfg2 (Some sec2)])
      (f2, ?w, ?s2, [ConfigStored cfg1 (Some sec1), ConfigStored cfg2 (Some sec2)])"
    using config_stored [of 1 "[ConfigStored cfg1 (Some sec1), TimesRecorded cfg2 (Some sec2)]" cfg2 "Some sec2" me tidb fs f2 ?w ?s1] by simp
  have k1: "reload_step me tidb fs (f2, ?w, ?s2, [ConfigStored cfg1 (Some sec1), ConfigStored cfg2 (Some sec2)])
      (f2, ?w, ?s3, [ConfigStored cfg1 (Some sec1), CheckerUpdated cfg2 sec2])"
    using checker_updated [of 1 "[ConfigStored cfg1 (Some sec1), ConfigStored cfg2 (Some sec2)]" cfg2 sec2 me tidb fs f2 ?w ?s2] by simp
  have k0: "reload_step me tidb fs (f2, ?w, ?s3, [ConfigStored cfg1 (Some sec1), CheckerUpdated cfg2 sec2])
      (f2, ?w, ?s4, [CheckerUpdated cfg1 sec1, CheckerUpdated cfg2 sec2])"
    using checker_updated [of 0 "[ConfigStored cfg1 (Some sec1), CheckerUpdated cfg2 sec2]" cfg1 sec1 me tidb fs f2 ?w ?s3] by simp
  have w0: "reload_step me tidb fs (f2, ?w, ?s4, [CheckerUpdated cfg1 sec1, CheckerUpdated cfg2 sec2])
      (f2, ?w, ?s5, [RulesUpdated cfg1, CheckerUpdated cfg2 sec2])"
    using rewriter_updated [of 0 "[CheckerUpdated cfg1 sec1, CheckerUpdated cfg2 sec2]" cfg1 sec1 me tidb fs f2 ?w ?s4] by simp
  have w1: "reload_step me tidb fs (f2, ?w, ?s5, [RulesUpdated cfg1, CheckerUpdated cfg2 sec2])
      (f2, ?w, ?s6, [RulesUpdated cfg1, RulesUpdated cfg2])"
    using rewriter_updated [of 1 "[RulesUpdated cfg1, CheckerUpdated cfg2 sec2]" cfg2 sec2 me tidb fs f2 ?w ?s5] by simp
  obtain s7 where s7: "reload_reach me tidb fs (f2, ?w, ?s6, [RulesUpdated cfg1, RulesUpdated cfg2])
      (f2, ?w, s7, [Resting, RulesUpdated cfg2])" "same_rules ?s6 s7" "finite (dom (clusters s7))"
    using finish_reload [of 0 "[RulesUpdated cfg1, RulesUpdated cfg2]" cfg1 ?s6 me tidb fs f2 ?w] fin by auto
  obtain s8 where s8: "reload_reach me tidb fs (f2, ?w, s7, [Resting, RulesUpdated cfg2])
      (f2, ?w, s8, [Resting, Resting])" "same_rules s7 s8" "configs s8 = Clusters cfg2"
    using finish_reload [of 1 "[Resting, RulesUpdated cfg2]" cfg2 s7 me tidb fs f2 ?w] fin s7(3) by auto
  have "reload_reach me tidb fs (f1, w, s, [Resting, Resting]) (f2, ?w, s8, [Resting, Resting])"
    by (rule reload_reach_trans [OF r0 reload_step_reach [OF e reload_reach_trans [OF r1
        reload_step_reach [OF t0 reload_step_reach [OF t1 reload_step_reach [OF c0 reload_step_reach [OF c1
        reload_step_reach [OF k1 reload_step_reach [OF k0 reload_step_reach [OF w0 reload_step_reach [OF w1
        reload_reach_trans [OF s7(1) s8(1)]]]]]]]]]]]])
  moreover have "same_rules ?s6 s8" using s7(2) s8(2) by (simp add: same_rules_def)
  ultimately show ?thesis
    using s8(3) by (auto simp: same_rules_def rc_Update_def checker_cell.rules_update rewriter_cell.rules_update)
qed

end
