(* ===== verification/Reload_Alone.thy ===== *)
theory Reload_Alone
  imports Reload_Stale
begin

text \<open>
  One goroutine that reloads while the others rest takes the service where the atomic \<open>reload\<close> of
  \<open>Watcher\<close> takes it: the interleavings of \<open>Reload_Concurrency\<close> contain every event of
  the atomic model, with files that change between the reads and requests during the waits.
\<close>

lemma reload_reach_step: "reload_step me tidb fs r r' \<Longrightarrow> reload_reach me tidb fs r r'"
  unfolding reload_reach_def by (rule r_into_rtranclp)

text \<open>Waiting is a sequence of what the other goroutines do with the pool.\<close>

lemma wait_reach:
  "reload_reach me tidb fs (f, w, s, rs) (f, w, snd (snd (waitForRelease env b p s)), rs)"
proof (induction env b p s rule: waitForRelease.induct)
  case (1 env p s)
  then show ?case by (simp add: reload_reach_refl split: option.split)
next
  case (2 env budget p s)
  show ?case
  proof (cases "\<exists>m. mdbs s p = Some m \<and> refCount m \<noteq> 0")
    case True
    then obtain m where m: "mdbs s p = Some m" "refCount m \<noteq> 0" by blast
    have "reload_step me tidb fs (f, w, s, rs) (f, w, pool_calls (env budget) s, rs)"
      by (intro served request_step.intros)
    then show ?thesis using reload_step_reach [OF _ 2 [OF m]] m by simp
  next
    case False
    then show ?thesis by (auto simp: reload_reach_refl split: option.split)
  qed
qed

lemma close_marked_reach:
  "i < length rs \<Longrightarrow> rs ! i = PoolClosing cfg tc \<Longrightarrow>
     reload_reach me tidb fs (f, w, s, rs) (f, w, close_marked drv env b tc s, rs[i := PoolClosing cfg []])"
proof (induction tc arbitrary: s rs b)
  case Nil
  then have "rs[i := PoolClosing cfg []] = rs" by (metis list_update_id)
  then show ?case by (simp add: reload_reach_refl)
next
  case (Cons np tc)
  obtain n p where np: "np = (n, p)" by (cases np)
  define r where "r = waitForRelease env b p s"
  let ?s1 = "snd (snd r)" and ?rs1 = "rs[i := PoolDeleting cfg n tc]" and ?rs2 = "rs[i := PoolClosing cfg tc]"
  have a: "reload_reach me tidb fs (f, w, s, rs) (f, w, ?s1, rs)" unfolding r_def by (rule wait_reach)
  have c: "reload_step me tidb fs (f, w, ?s1, rs) (f, w, close_handle p ?s1, ?rs1)"
    by (rule handle_closed) (use Cons.prems np in auto)
  have d: "reload_step me tidb fs (f, w, close_handle p ?s1, ?rs1) (f, w, close_one p n ?s1, ?rs2)"
    using cluster_deleted [of i ?rs1 cfg n tc me tidb fs f w "close_handle p ?s1"] Cons.prems(1)
    by (simp add: close_one_halves)
  have "reload_reach me tidb fs (f, w, close_one p n ?s1, ?rs2)
      (f, w, close_marked drv env (fst (snd r)) tc (close_one p n ?s1), ?rs2[i := PoolClosing cfg []])"
    by (rule Cons.IH) (use Cons.prems in simp_all)
  then have "reload_reach me tidb fs (f, w, s, rs)
      (f, w, close_marked drv env (fst (snd r)) tc (close_one p n ?s1), rs[i := PoolClosing cfg []])"
    using reload_reach_trans [OF a reload_step_reach [OF c reload_step_reach [OF d]]] by simp
  then show ?case by (simp add: np close_marked_step r_def Let_def)
qed

lemma pool_update_reach:
  assumes i: "i < length rs" "rs ! i = RulesUpdated cfg" and ord: "update_orders order names perm (Clusters cfg) s"
  shows "reload_reach me tidb fs (f, w, s, rs)
    (f, w, Pool_UpdateConfig (me_driver me) env order names perm (Clusters cfg) s, rs[i := PoolClosing cfg []])"
proof -
  let ?tc = "to_close (Clusters cfg) order s"
  have r: "ranges_over order (clusters s)" using ord by (simp add: update_orders_def)
  have ord1: "update_orders order names (\<lambda>tc. tc) (Clusters cfg) s" using ord by (simp add: update_orders_def)
  have perm: "set (perm ?tc) = set ?tc" "distinct (map fst (perm ?tc))"
    using ord to_close_distinct [OF r] by (simp_all add: update_orders_def)
  have "reload_step me tidb fs (f, w, s, rs)
      (f, w, locked_state (me_driver me) order names (Clusters cfg) s, rs[i := PoolClosing cfg (perm ?tc)])"
    by (rule pool_marked [OF i ord1 UpdateConfig_locked_eq perm])
  moreover have "reload_reach me tidb fs
      (f, w, locked_state (me_driver me) order names (Clusters cfg) s, rs[i := PoolClosing cfg (perm ?tc)])
      (f, w, Pool_UpdateConfig (me_driver me) env order names perm (Clusters cfg) s, rs[i := PoolClosing cfg []])"
    using close_marked_reach [of i "rs[i := PoolClosing cfg (perm ?tc)]" cfg "perm ?tc"] i(1)
    by (simp add: UpdateConfig_eq locked_state_def)
  ultimately show ?thesis by (rule reload_step_reach)
qed

text \<open>From the times recorded to the rules updated.\<close>

lemma rules_reach:
  assumes i: "i < length rs" "rs ! i = TimesRecorded cfg sec"
  shows "reload_reach me tidb fs (f, w, s, rs) (f, w, rules_updated cfg sec s, rs[i := RulesUpdated cfg])"
proof -
  let ?s1 = "s\<lparr>h_config := rc_Update cfg sec (h_config s)\<rparr>" and ?rs1 = "rs[i := ConfigStored cfg sec]"
  have a: "reload_step me tidb fs (f, w, s, rs) (f, w, ?s1, ?rs1)" by (rule config_stored [OF i])
  show ?thesis
  proof (cases sec)
    case None
    have "reload_step me tidb fs (f, w, ?s1, ?rs1) (f, w, ?s1, rs[i := RulesUpdated cfg])"
      using no_rules [of i ?rs1 cfg me tidb fs f w ?s1] i(1) by (simp add: None)
    from reload_step_reach [OF a reload_reach_step [OF this]] show ?thesis by (simp add: rules_updated_def None)
  next
    case (Some sc)
    let ?s2 = "?s1\<lparr>h_checker := Checker_UpdateRules (h_checker ?s1) (Some (Security sc))\<rparr>"
    let ?s3 = "?s2\<lparr>h_rewriter := Rewriter_UpdateRules (h_rewriter ?s2) (Some (Security sc))\<rparr>"
    let ?rs2 = "rs[i := CheckerUpdated cfg sc]"
    have b: "reload_step me tidb fs (f, w, ?s1, ?rs1) (f, w, ?s2, ?rs2)"
      using checker_updated [of i ?rs1 cfg sc me tidb fs f w ?s1] i(1) by (simp add: Some)
    have c: "reload_step me tidb fs (f, w, ?s2, ?rs2) (f, w, ?s3, rs[i := RulesUpdated cfg])"
      using rewriter_updated [of i ?rs2 cfg sc me tidb fs f w ?s2] i(1) by simp
    from reload_step_reach [OF a reload_step_reach [OF b reload_reach_step [OF c]]] show ?thesis
      by (simp add: rules_updated_def Some UpdateSecurityRules_def)
  qed
qed

lemma callback_reach:
  assumes i: "i < length rs" "rs ! i = TimesRecorded cfg sec"
    and ok: "main_env_ok me" "finite (dom (clusters s))" "finite (dom (Clusters cfg))"
  shows "reload_reach me tidb fs (f, w, s, rs) (f, w, on_change me cfg sec s, rs[i := Resting])"
proof -
  let ?s1 = "rules_updated cfg sec s" and ?rs1 = "rs[i := RulesUpdated cfg]" and ?rs2 = "rs[i := PoolClosing cfg []]"
  let ?s2 = "Pool_UpdateConfig (me_driver me) (me_others me) (me_pool_order me (clusters s))
      (env_order (me_conf me) (Clusters cfg)) (me_perm me) (Clusters cfg) ?s1"
  let ?s3 = "?s2\<lparr>h_audit := snd (Log_UpdateConfig (me_mkdir me) (Audit cfg) (h_audit ?s2))\<rparr>"
  have a: "reload_reach me tidb fs (f, w, s, rs) (f, w, ?s1, ?rs1)" by (rule rules_reach [OF i])
  have cl: "clusters ?s1 = clusters s" by (rule rules_updated_frame(1))
  have ord: "update_orders (me_pool_order me (clusters s)) (env_order (me_conf me) (Clusters cfg)) (me_perm me) (Clusters cfg) ?s1"
    using main_env_update_orders [OF ok(1), of ?s1 "Clusters cfg"] ok(2,3) by (simp add: cl)
  have b: "reload_reach me tidb fs (f, w, ?s1, ?rs1) (f, w, ?s2, ?rs2)"
    using pool_update_reach [of i ?rs1 cfg, OF _ _ ord, of me tidb fs f w "me_others me"] i(1) by simp
  have c: "reload_step me tidb fs (f, w, ?s2, ?rs2) (f, w, ?s3, rs[i := Resting])"
    using audit_updated [of i ?rs2 cfg me tidb fs f w ?s2] i(1) by simp
  have "h_audit ?s2 = h_audit s" using pool_more_handler [OF UpdateConfig_more] rules_updated_frame(4) by metis
  then have "on_change me cfg sec s = ?s3" by (simp add: on_change_def Server_UpdateConfig_eq Let_def)
  then show ?thesis using reload_reach_trans [OF a reload_reach_trans [OF b reload_reach_step [OF c]]] by simp
qed

text \<open>Reading the two files, which may change in between.\<close>

lemma read_reach:
  assumes i: "i < length rs" "rs ! i = Resting" and fs: "f2 \<in> fs"
    and ld: "load_both (me_conf me) f1 f2 w = Some (cfg, sec)"
  shows "reload_reach me tidb fs (f1, w, s, rs) (f2, w, s, rs[i := BothRead cfg sec])"
proof -
  have c: "LoadAt (me_conf me) f1 (configPath w) = Inr cfg"
    using ld by (auto simp: load_both_def split: sum.splits if_splits)
  let ?rs1 = "rs[i := ConfigRead cfg]"
  have a: "reload_step me tidb fs (f1, w, s, rs) (f1, w, s, ?rs1)" by (rule config_read [OF i c])
  have e: "reload_step me tidb fs (f1, w, s, ?rs1) (f2, w, s, ?rs1)" by (rule edited [OF fs])
  have b: "reload_step me tidb fs (f2, w, s, ?rs1) (f2, w, s, rs[i := BothRead cfg sec])"
  proof (cases "securityPath w = ''''")
    case True
    then have "sec = None" using ld c by (simp add: load_both_def)
    then show ?thesis using no_security [of i ?rs1 cfg w me tidb fs f2 s] True i(1) by simp
  next
    case False
    then obtain sc where "LoadSecurityAt (me_conf me) f2 (securityPath w) = Inr sc" "sec = Some sc"
      using ld c by (auto simp: load_both_def split: sum.splits)
    then show ?thesis using security_read [of i ?rs1 cfg w me f2 sc tidb fs s] False i(1) by simp
  qed
  show ?thesis by (rule reload_step_reach [OF a reload_step_reach [OF e reload_reach_step [OF b]]])
qed

lemma event_reach:
  assumes i: "i < length rs" "rs ! i = Resting" and fs: "{f1, f2, f3} \<subseteq> fs"
    and ok: "main_env_ok me" "finite (dom (clusters s))" and cb: "callbacks w = [on_change me]"
    and st: "watch_step (me_conf me) (f0, f1, f2, f3) ev (w, s) = (w', s')"
  shows "reload_reach me tidb fs (f0, w, s, rs) (f3, w', s', rs)"
proof (cases rule: watch_step_cases [where env = "me_conf me" and ev = ev and w = w and s = s
    and ?f0.0 = f0 and ?f1.0 = f1 and ?f2.0 = f2 and ?f3.0 = f3])
  case 1
  have "reload_step me tidb fs (f0, w, s, rs) (f3, w, s, rs)" by (rule edited) (use fs in blast)
  then show ?thesis using 1 st reload_reach_step by force
next
  case (2 cfg sec)
  have w': "w' = record_mtimes f3 w" "s' = on_change me cfg sec s" using 2(2) st cb by simp_all
  let ?rs1 = "rs[i := BothRead cfg sec]" and ?rs2 = "rs[i := TimesRecorded cfg sec]"
  have e0: "reload_step me tidb fs (f0, w, s, rs) (f1, w, s, rs)" by (rule edited) (use fs in blast)
  have r: "reload_reach me tidb fs (f1, w, s, rs) (f2, w, s, ?rs1)"
    by (rule read_reach [OF i _ 2(1)]) (use fs in blast)
  have e2: "reload_step me tidb fs (f2, w, s, ?rs1) (f3, w, s, ?rs1)" by (rule edited) (use fs in blast)
  have t: "reload_step me tidb fs (f3, w, s, ?rs1) (f3, w', s, ?rs2)"
    using times_recorded [of i ?rs1 cfg sec me tidb fs f3 w s] i(1) by (simp add: w')
  have c: "reload_reach me tidb fs (f3, w', s, ?rs2) (f3, w', s', ?rs2[i := Resting])"
    unfolding w'(2) by (rule callback_reach [OF _ _ ok load_both_finite [OF ok(1) 2(1)]]) (use i in simp_all)
  have "?rs2[i := Resting] = rs" using i by (metis list_update_id list_update_overwrite)
  then show ?thesis
    using reload_step_reach [OF e0 reload_reach_trans [OF r reload_step_reach [OF e2 reload_step_reach [OF t c]]]] by simp
qed

section \<open>The process within the interleavings\<close>

text \<open>
  A process that has a watcher is a run of the interleavings, from the state that \<open>main_start\<close>
  returned, with all goroutines that may reload at rest.
\<close>

definition interleaved_from ::
  "main_env \<Rightarrow> (string \<Rightarrow> go_error + stmt_node list) \<Rightarrow> ReloadableConfig \<Rightarrow> reloader list \<Rightarrow>
     'lim server \<times> 'lim server watcher option \<Rightarrow> bool" where
  "interleaved_from me tidb rc rs sw \<longleftrightarrow>
     (\<forall>w. snd sw = Some w \<longrightarrow>
        (\<exists>f0 f1 f2 f3 f fe path poll inst s0 w0.
           NewReloadableConfig (me_conf me) f1 f2 path = Inr rc \<and>
           main_start me (f1, f2, f3, f0) fe path poll inst = Inr (s0, Some w0) \<and>
           reload_reach me tidb UNIV (f0, w0, s0, rs) (f, w, fst sw, rs)))"

lemma interleaved_from_step:
  assumes "interleaved_from me tidb rc rs (s, Some w)"
    and "\<And>f. \<exists>f'. reload_reach me tidb UNIV (f, w, s, rs) (f', w', s', rs)"
  shows "interleaved_from me tidb rc rs (s', Some w')"
  using assms unfolding interleaved_from_def by (simp, meson reload_reach_trans)

lemma interleaved_from_served:
  assumes "interleaved_from me tidb rc rs (s, ow)" and "request_step (me_driver me) tidb s s'"
  shows "interleaved_from me tidb rc rs (s', ow)"
proof (cases ow)
  case (Some w)
  have "\<exists>f'. reload_reach me tidb UNIV (f, w, s, rs) (f', w, s', rs)" for f
    using reload_reach_step [OF served [OF assms(2)]] by blast
  with assms(1) show ?thesis unfolding Some by (rule interleaved_from_step)
qed (simp add: interleaved_from_def)

lemma process_interleaved:
  assumes "process me tidb rc sw" and ok: "main_env_ok me" and i: "i < length rs" "rs ! i = Resting"
  shows "interleaved_from me tidb rc rs sw"
  using assms(1)
proof induction
  case (started f1 f2 path f3 f4 fe poll inst sw)
  show ?case unfolding interleaved_from_def
  proof (intro allI impI)
    fix w assume w: "snd sw = Some w"
    have "reload_reach me tidb UNIV (f4, w, fst sw, rs) (f4, w, fst sw, rs)" by (rule reload_reach_refl)
    moreover have "main_start me (f1, f2, f3, f4) fe path poll inst = Inr (fst sw, Some w)"
      using started(2) w by (metis prod.collapse)
    ultimately show "\<exists>f0 f1 f2 f3 f fe path poll inst s0 w0. NewReloadableConfig (me_conf me) f1 f2 path = Inr rc \<and>
        main_start me (f1, f2, f3, f0) fe path poll inst = Inr (s0, Some w0) \<and>
        reload_reach me tidb UNIV (f0, w0, s0, rs) (f, w, fst sw, rs)"
      using started(1) by blast
  qed
next
  case (watched s w fs ev w' s')
  obtain f0 f1 f2 f3 where fs: "fs = (f0, f1, f2, f3)" by (cases fs)
  have sim: "finite (dom (clusters s))" "callbacks w = [on_change me]"
    using process_simulated [OF watched(1) ok] by (simp_all add: process_sim_def)
  have "reload_reach me tidb UNIV (f, w, s, rs) (f3, w', s', rs)" for f
    by (rule reload_step_reach [OF edited event_reach [OF i _ ok sim watched(2) [unfolded fs]]]) simp_all
  then have "\<exists>f'. reload_reach me tidb UNIV (f, w, s, rs) (f', w', s', rs)" for f by blast
  with watched(3) show ?case by (rule interleaved_from_step)
qed (auto intro: interleaved_from_served request_step.intros)

end
