(* ===== verification/Props_Reload.thy ===== *)
theory Props_Reload
  imports Reload_Alone Props_Process
begin

text \<open>
  Properties of updates and reloads that overlap: what every interleaving keeps, and what is lost in
  some of them.
\<close>

section \<open>Updates of the pool\<close>

text \<open>
C16. Any number of updates of the pool, interleaved in any way, come to an end: they take finitely many
steps in all, from every state they reach there is a way to finish them, and in every state the
invariant of the pool holds and each cluster an update still has to close is marked as closing.
\<close>

theorem overlapping_updates_complete:
  assumes "pool_inv s" and "finite (dom (clusters s))" and "\<forall>new \<in> set news. finite (dom new)"
    and "updates_reach drv True (s, map (\<lambda>new. (new, ToMark)) news) r"
  shows "wf {(r', r). updates_step drv True r r'} \<and>
    (\<exists>r'. updates_reach drv True r r' \<and> updates_done r') \<and>
    pool_inv (fst r) \<and> (\<forall>(new, pc) \<in> set (snd r). \<forall>(n, p) \<in> set (pending pc). get_closing p (fst r))"
proof (intro conjI)
  show "wf {(r', r). updates_step drv True r r'}"
    by (rule wf_subset [OF wf_updates_order]) (use updates_step_order in blast)
  have "updates_finite (s, map (\<lambda>new. (new, ToMark)) news)" using assms(2,3) by (auto simp: updates_finite_def)
  then show "\<exists>r'. updates_reach drv True r r' \<and> updates_done r'"
    by (rule updates_complete [OF updates_reach_finite [OF assms(4)]])
  have "updates_inv r" by (rule updates_inv_reach [OF assms(4) updates_inv_start [OF assms(1)]])
  then show "pool_inv (fst r)" and "\<forall>(new, pc) \<in> set (snd r). \<forall>(n, p) \<in> set (pending pc). get_closing p (fst r)"
    by (cases r; simp add: updates_inv_def)+
qed

theorem overlapping_updates_complete_witness:
  "\<exists>r'. updates_reach demo_driver True (demo_pool, [([''main'' \<mapsto> demo_moved], ToMark), (Map.empty, ToMark)]) r' \<and>
     updates_done r'"
proof -
  have f: "finite (dom (clusters demo_pool))" "\<forall>new \<in> set [[''main'' \<mapsto> demo_moved], Map.empty]. finite (dom new)"
    by (simp_all add: demo_pool_def)
  have r: "updates_reach demo_driver True
      (demo_pool, map (\<lambda>new. (new, ToMark)) [[''main'' \<mapsto> demo_moved], Map.empty])
      (demo_pool, map (\<lambda>new. (new, ToMark)) [[''main'' \<mapsto> demo_moved], Map.empty])"
    unfolding updates_reach_def by (rule rtranclp.rtrancl_refl)
  from overlapping_updates_complete [OF demo_pool_inv f r, THEN conjunct2, THEN conjunct1] show ?thesis
    by (simp only: list.map)
qed

text \<open>
C17. Two updates that overlap are not two updates in turn: a cluster that the first closes and the second
configures is there when they run one after the other; but from every idle pool there is an interleaving,
in which no wait runs into its timeout, after which both are finished, the second configuration is in
force and the cluster is missing.
\<close>

theorem overlapping_updates_lose_cluster:
  assumes "pool_inv s" and "all_idle s" and "clusters s c = Some p"
    and "must_close (configs s) new1 c" and "openable drv new2 c"
    and "update_orders order1 names1 perm1 new1 s"
    and "update_orders order2 names2 perm2 new2 (Pool_UpdateConfig drv env1 order1 names1 perm1 new1 s)"
  shows "clusters (Pool_UpdateConfig drv env2 order2 names2 perm2 new2
      (Pool_UpdateConfig drv env1 order1 names1 perm1 new1 s)) c \<noteq> None \<and>
    (\<exists>s'. updates_reach drv False (s, [(new1, ToMark), (new2, ToMark)]) (s', [(new1, ToClose []), (new2, ToClose [])]) \<and>
       configs s' = new2 \<and> clusters s' c = None)"
proof
  let ?s1 = "Pool_UpdateConfig drv env1 order1 names1 perm1 new1 s"
  have "clusters ?s1 c = None" using UpdateConfig_clusters(1) [OF assms(1,6,3)] assms(4) by simp
  then show "clusters (Pool_UpdateConfig drv env2 order2 names2 perm2 new2 ?s1) c \<noteq> None"
    using UpdateConfig_clusters(2) [OF pool_inv_UpdateConfig [OF assms(1,6)] assms(7)] assms(5) by blast
  have f: "finite (dom (clusters s))" "finite (dom new1)" "finite (dom new2)"
    using update_ordersD(1,2) [OF assms(6)] update_ordersD(2) [OF assms(7)] by (metis List.finite_set ranges_over_def)+
  obtain o1 n1 where o1: "update_orders o1 n1 (\<lambda>tc. tc) new1 s" using orders_exist [OF f(1,2)] by blast
  obtain o2 n2 where o2: "update_orders o2 n2 (\<lambda>tc. tc) new2 (locked_state drv o1 n1 new1 s)"
    using orders_exist [OF locked_finite [OF f(1)] f(3)] by blast
  show "\<exists>s'. updates_reach drv False (s, [(new1, ToMark), (new2, ToMark)]) (s', [(new1, ToClose []), (new2, ToClose [])]) \<and>
      configs s' = new2 \<and> clusters s' c = None"
    by (rule updates_lose_cluster_aux [OF assms(1-4) o1 o2])
qed

lemma demo_pool_idle: "all_idle demo_pool"
  by (simp add: all_idle_def demo_pool_def)

lemma demo_must_close:
  "must_close (configs demo_pool) [''main'' \<mapsto> demo_moved] ''main''"
  "must_close [''main'' \<mapsto> demo_moved] [''main'' \<mapsto> demo_cluster] ''main''"
  by (simp_all add: demo_pool_def must_close_def same_endpoint_def config_or_zero_def demo_moved_def demo_cluster_def)

lemma demo_openable: "openable demo_driver [''main'' \<mapsto> c] ''main''"
  by (simp add: openable_def demo_driver_def)

theorem overlapping_updates_lose_cluster_witness:
  "\<exists>s'. updates_reach demo_driver False (demo_pool, [([''main'' \<mapsto> demo_moved], ToMark), ([''main'' \<mapsto> demo_moved], ToMark)])
      (s', [([''main'' \<mapsto> demo_moved], ToClose []), ([''main'' \<mapsto> demo_moved], ToClose [])]) \<and>
    configs s' = [''main'' \<mapsto> demo_moved] \<and> clusters s' ''main'' = None"
proof -
  let ?new = "[''main'' \<mapsto> demo_moved]"
  let ?s1 = "Pool_UpdateConfig demo_driver (\<lambda>_. []) [''main''] [''main''] (\<lambda>tc. tc) ?new demo_pool"
  have c: "clusters demo_pool ''main'' = Some 0" by (simp add: demo_pool_def)
  have "finite (dom (clusters ?s1))" by (rule finite_clusters_UpdateConfig [OF demo_pool_inv demo_update_orders])
  then obtain o2 n2 where o2: "update_orders o2 n2 (\<lambda>tc. tc) ?new ?s1"
    using orders_exist [of ?s1 ?new] by auto
  show ?thesis
    using overlapping_updates_lose_cluster [OF demo_pool_inv demo_pool_idle c demo_must_close(1) demo_openable
        demo_update_orders o2] by blast
qed

text \<open>
C18. Three updates that overlap can lose a handle for good: the second deletes by name, after its wait,
the cluster the third has opened under that name meanwhile. Then all are finished, the newest
configuration is in force without the cluster, and a handle is open that no cluster of the map has and
that closing the pool leaves open.
\<close>

theorem overlapping_updates_leak_handle:
  assumes "pool_inv s" and "all_idle s" and "clusters s c = Some p"
    and "must_close (configs s) new1 c" and "must_close new1 new2 c" and "openable drv new3 c"
    and "finite (dom (clusters s))" and "finite (dom new1)" and "finite (dom new2)" and "finite (dom new3)"
  shows "\<exists>s' h. updates_reach drv False (s, [(new1, ToMark), (new2, ToMark), (new3, ToMark)])
      (s', [(new1, ToClose []), (new2, ToClose []), (new3, ToClose [])]) \<and>
    configs s' = new3 \<and> clusters s' c = None \<and> is_open h s' \<and> \<not> handles_owned s' \<and>
    (\<forall>order. is_open h (snd (Pool_Close drv order s')))"
proof -
  obtain s' h where "updates_reach drv False (s, [(new1, ToMark), (new2, ToMark), (new3, ToMark)])
      (s', [(new1, ToClose []), (new2, ToClose []), (new3, ToClose [])])" "configs s' = new3" "clusters s' c = None"
    and h: "forgotten h s'"
    using updates_leak_handle_aux [OF assms] by blast
  moreover have "is_open h s'" "\<not> handles_owned s'" using h by (auto simp: forgotten_def handles_owned_def)
  ultimately show ?thesis using forgotten_Pool_Close [OF h] by blast
qed

theorem overlapping_updates_leak_handle_witness:
  "\<exists>s' h. updates_reach demo_driver False
      (demo_pool, [([''main'' \<mapsto> demo_moved], ToMark), ([''main'' \<mapsto> demo_cluster], ToMark), ([''main'' \<mapsto> demo_moved], ToMark)])
      (s', [([''main'' \<mapsto> demo_moved], ToClose []), ([''main'' \<mapsto> demo_cluster], ToClose []), ([''main'' \<mapsto> demo_moved], ToClose [])]) \<and>
    is_open h s' \<and> \<not> handles_owned s'"
proof -
  have c: "clusters demo_pool ''main'' = Some 0" and f: "finite (dom (clusters demo_pool))"
    by (simp_all add: demo_pool_def)
  have d: "finite (dom [''main'' \<mapsto> k])" for k :: ClusterConfig by simp
  show ?thesis
    using overlapping_updates_leak_handle [OF demo_pool_inv demo_pool_idle c demo_must_close demo_openable f d d d] by blast
qed

section \<open>Reloads of the service\<close>

text \<open>A deployment whose security file was tightened: the old one allows DROP TABLE, the new one does not.\<close>

definition loose_rules :: SecurityRules where
  "loose_rules = plain_rules\<lparr>AllowedDDL := [''CREATE_TABLE'', ''DROP_TABLE''], Blocked := []\<rparr>"

definition edited_main :: main_env where
  "edited_main = demo_main\<lparr>me_conf := demo_conf\<lparr>env_yaml_security :=
     (\<lambda>text. Inr \<lparr>Security = (if text = ''new'' then plain_rules else loose_rules)\<rparr>)\<rparr>\<rparr>"

definition edited_files :: "string \<Rightarrow> snapshot" where
  "edited_files data = \<lparr>snap_read = (\<lambda>_. Inr data), snap_mtime = (\<lambda>_. Some (Time (if data = ''new'' then 2 else 1)))\<rparr>"

definition edited_watcher :: "nat server watcher" where
  "edited_watcher = \<lparr>configPath = ''config.yaml'', securityPath = ''sec.yaml'', callbacks = [], pollInterval = 1,
     lastConfigMod = Time 1, lastSecurityMod = Time 1\<rparr>"

lemma edited_loads:
  "load_both (me_conf edited_main) (edited_files data) (edited_files data) edited_watcher =
    Some (demo_config, Some \<lparr>Security = (if data = ''new'' then plain_rules else loose_rules)\<rparr>)"
proof -
  have o: "sorted_list_of_set (dom (Clusters demo_config)) = [''main'']" by (simp add: demo_config_def)
  have "LoadAt (me_conf edited_main) (edited_files data) (configPath edited_watcher) = Inr demo_config"
    by (simp add: LoadAt_def Load_def edited_main_def edited_files_def demo_main_def demo_conf_def o demo_defaults)
  moreover have "LoadSecurityAt (me_conf edited_main) (edited_files data) (securityPath edited_watcher) =
      Inr \<lparr>Security = (if data = ''new'' then plain_rules else loose_rules)\<rparr>"
    by (simp add: LoadSecurityAt_def LoadSecurity_def edited_main_def edited_files_def)
  ultimately show ?thesis by (simp add: load_both_def edited_watcher_def)
qed

text \<open>
C20. Whatever reloads, file changes and requests interleave, in every state the pool and the audit log
satisfy their invariants, routing table and token validator are those of the start, and configuration,
clusters, the rules of the checker and the rules of the rewriter are each those of the start or those of
some state the files had.
\<close>

theorem overlapping_reloads_invariant:
  assumes "f0 \<in> fs" and "handler_inv s0"
    and "reload_reach me tidb fs (f0, w0, s0, replicate k Resting) (f, w, s, rs)"
  shows "pool_inv s \<and> audit_inv (h_audit s) \<and> rt_databases s = rt_databases s0 \<and> srv_validator s = srv_validator s0 \<and>
    (h_config s = h_config s0 \<or> (\<exists>f' \<in> fs. LoadAt (me_conf me) f' (configPath w0) = Inr (rc_config (h_config s)))) \<and>
    (configs s = configs s0 \<or> (\<exists>f' \<in> fs. \<exists>cfg. LoadAt (me_conf me) f' (configPath w0) = Inr cfg \<and> configs s = Clusters cfg)) \<and>
    (\<forall>rules \<in> {chk_rules (h_checker s), rw_rules (h_rewriter s)}.
       rules \<in> {chk_rules (h_checker s0), rw_rules (h_rewriter s0)} \<or>
       (\<exists>f' \<in> fs. \<exists>sec. LoadSecurityAt (me_conf me) f' (securityPath w0) = Inr sec \<and> rules = Some (Security sec)))"
proof -
  have "running_inv me fs w0 s0 (f, w, s, rs)"
    by (rule running_inv_reach [OF assms(3) running_inv_start [OF assms(1,2)]])
  then show ?thesis
    unfolding running_inv_def prod.case handler_inv_def config_from_def clusters_from_def rules_from_def
      config_of_def security_of_def
    by blast
qed

lemma demo_server_fields:
  "dbs demo_server = [0 \<mapsto> demo_db]" "clusters demo_server = [''main'' \<mapsto> 0]"
  "mdbs demo_server = [0 \<mapsto> \<lparr>mdb_db = 0, refCount = 0, closing = 0\<rparr>]"
  "next_db demo_server = 1" "next_mdb demo_server = 1" "rt_databases demo_server = demo_databases"
  "h_audit demo_server = demo_audit"
  by (simp_all add: demo_server_def handler.defs demo_handler_fields)

lemma demo_server_inv: "handler_inv demo_server"
  by (auto simp: handler_inv_def pool_inv_def demo_server_fields is_open_def demo_db_def demo_audit_inv)

theorem overlapping_reloads_invariant_witness:
  "\<exists>s :: nat server. reload_reach edited_main demo_tidb {edited_files ''old'', edited_files ''new''}
      (edited_files ''old'', edited_watcher, demo_server, replicate 2 Resting)
      (edited_files ''new'', edited_watcher, s, [BothRead demo_config (Some \<lparr>Security = plain_rules\<rparr>), Resting]) \<and>
     pool_inv s \<and> rt_databases s = demo_databases"
proof -
  let ?fs = "{edited_files ''old'', edited_files ''new''}"
  have e: "reload_step edited_main demo_tidb ?fs (edited_files ''old'', edited_watcher, demo_server, replicate 2 Resting)
      (edited_files ''new'', edited_watcher, demo_server, replicate 2 Resting)"
    by (rule edited) simp
  have "reload_reach edited_main demo_tidb ?fs
      (edited_files ''new'', edited_watcher, demo_server, replicate 2 Resting)
      (edited_files ''new'', edited_watcher, demo_server, (replicate 2 Resting)[0 := BothRead demo_config (Some \<lparr>Security = plain_rules\<rparr>)])"
    by (rule read_both) (use edited_loads [of "''new''"] in simp_all)
  note r = reload_step_reach [OF e this]
  from overlapping_reloads_invariant [OF insertI1 demo_server_inv r] r
  show ?thesis by (auto simp: numeral_2_eq_2 demo_server_fields)
qed

text \<open>
C21. Reloads that overlap can undo each other for good: of two reloads, one of the files as they were and
one of the files as they are, there is an interleaving after which configuration, clusters and rewriter
are those of the new files and the checker decides by the old rules; the modification times are those
of the new files, so the polling never repairs it.
\<close>

theorem overlapping_reloads_leave_stale_rules:
  assumes "load_both (me_conf me) f1 f1 w = Some (cfg1, Some sec1)"
    and "load_both (me_conf me) f2 f2 w = Some (cfg2, Some sec2)"
    and "f1 \<in> fs" and "f2 \<in> fs"
    and "finite (dom (clusters s))" and "finite (dom (Clusters cfg1))" and "finite (dom (Clusters cfg2))"
  shows "\<exists>w' s'. reload_reach me tidb fs (f1, w, s, [Resting, Resting]) (f2, w', s', [Resting, Resting]) \<and>
    h_config s' = \<lparr>rc_config = cfg2, rc_security = Some sec2\<rparr> \<and> configs s' = Clusters cfg2 \<and>
    rw_rules (h_rewriter s') = Some (Security sec2) \<and>
    (\<forall>p. Check (h_checker s') p = Check (NewChecker (Some (Security sec1))) p) \<and>
    watch_step (me_conf me) (f2, f2, f2, f2) Tick (w', s') = (w', s')"
proof -
  let ?w = "record_mtimes f2 (record_mtimes f2 w)"
  obtain s' where s': "reload_reach me tidb fs (f1, w, s, [Resting, Resting]) (f2, ?w, s', [Resting, Resting])"
      "h_config s' = \<lparr>rc_config = cfg2, rc_security = Some sec2\<rparr>" "configs s' = Clusters cfg2"
      "rw_rules (h_rewriter s') = Some (Security sec2)" "chk_rules (h_checker s') = Some (Security sec1)"
    using stale_rules_schedule [OF assms] by blast
  have "h_checker s' = NewChecker (Some (Security sec1))" using s'(5) by (simp add: NewChecker_def)
  moreover have "watch_step (me_conf me) (f2, f2, f2, f2) Tick (?w, s') = (?w, s')"
    by (simp add: watch_step_def checkMtime_def mtime_recorded)
  ultimately show ?thesis using s'(1-4) by metis
qed

theorem overlapping_reloads_leave_stale_rules_witness:
  "\<exists>w' (s' :: nat server). reload_reach edited_main demo_tidb {edited_files ''old'', edited_files ''new''}
      (edited_files ''old'', edited_watcher, demo_server, [Resting, Resting])
      (edited_files ''new'', w', s', [Resting, Resting]) \<and>
    rc_security (h_config s') = Some \<lparr>Security = plain_rules\<rparr> \<and>
    (\<forall>p. Check (h_checker s') p = Check (NewChecker (Some loose_rules)) p)"
proof -
  let ?fs = "{edited_files ''old'', edited_files ''new''}"
  have f: "finite (dom (clusters demo_server))" "finite (dom (Clusters demo_config))"
    by (simp_all add: demo_server_fields demo_config_def)
  have l: "load_both (me_conf edited_main) (edited_files ''old'') (edited_files ''old'') edited_watcher =
        Some (demo_config, Some \<lparr>Security = loose_rules\<rparr>)"
      "load_both (me_conf edited_main) (edited_files ''new'') (edited_files ''new'') edited_watcher =
        Some (demo_config, Some \<lparr>Security = plain_rules\<rparr>)"
    using edited_loads [of "''old''"] edited_loads [of "''new''"] by simp_all
  have "edited_files ''old'' \<in> ?fs" "edited_files ''new'' \<in> ?fs" by simp_all
  from overlapping_reloads_leave_stale_rules [OF l this f f(2), of demo_tidb]
  obtain w' and s' :: "nat server" where
    "reload_reach edited_main demo_tidb ?fs (edited_files ''old'', edited_watcher, demo_server, [Resting, Resting])
      (edited_files ''new'', w', s', [Resting, Resting])"
    "h_config s' = \<lparr>rc_config = demo_config, rc_security = Some \<lparr>Security = plain_rules\<rparr>\<rparr>"
    "\<forall>p. Check (h_checker s') p = Check (NewChecker (Some (Security \<lparr>Security = loose_rules\<rparr>))) p"
    by blast
  then show ?thesis by (intro exI [of _ w'] exI [of _ s']) simp
qed

text \<open>
C19. The interleavings are no other program: every state a process with a watcher reaches, one whole
event after the other, is reached by them from the state the process started in, with however many
goroutines that may reload; so what holds of every interleaving holds of the process.
\<close>

theorem process_within_interleavings:
  assumes "main_env_ok me" and "process me tidb rc (s, Some w)"
  shows "\<exists>f0 f1 f2 f3 f fe path poll inst s0 w0.
    NewReloadableConfig (me_conf me) f1 f2 path = Inr rc \<and>
    main_start me (f1, f2, f3, f0) fe path poll inst = Inr (s0, Some w0) \<and>
    reload_reach me tidb UNIV (f0, w0, s0, replicate (Suc k) Resting) (f, w, s, replicate (Suc k) Resting)"
  using process_interleaved [OF assms(2,1), of 0 "replicate (Suc k) Resting"] by (simp add: interleaved_from_def)

theorem process_within_interleavings_witness:
  "\<exists>(s :: nat server) w f0 f s0 w0. process demo_main demo_tidb demo_rc (s, Some w) \<and>
    reload_reach demo_main demo_tidb UNIV (f0, w0, s0, replicate (Suc 2) Resting) (f, w, s, replicate (Suc 2) Resting)"
proof -
  obtain s :: "nat server" and w
    where "main_start demo_main (demo_files, demo_files, demo_files, demo_files) None ''config.yaml'' 0 None = Inr (s, Some w)"
    using demo_main_starts by blast
  then have "process demo_main demo_tidb demo_rc (s, Some w)"
    by (rule process.started [rotated]) (simp add: demo_main_def demo_loads)
  with process_within_interleavings [OF demo_main_ok this, of 2] show ?thesis by blast
qed

end
