(* ===== verification/Reload_Lone.thy ===== *)
theory Reload_Lone
  imports Reload_Stale
begin

text \<open>
  Reloads that do not overlap. Any number of goroutines may reload, one after the other, among requests,
  pool calls and changes of the files; the states inside a reload count too. In all of them every open
  handle belongs to a cluster of the map, and checker and rewriter have the same rules except between the
  two updates of one reload.
\<close>

section \<open>The goroutine that is not at rest\<close>

definition lone :: "reloader list \<Rightarrow> bool" where
  "lone rs \<longleftrightarrow> length (filter (\<lambda>r. r \<noteq> Resting) rs) \<le> 1"

definition active :: "reloader list \<Rightarrow> reloader" where
  "active rs = (case filter (\<lambda>r. r \<noteq> Resting) rs of [] \<Rightarrow> Resting | r # rest \<Rightarrow> r)"

definition lone_step ::
  "main_env \<Rightarrow> (string \<Rightarrow> go_error + stmt_node list) \<Rightarrow> snapshot set \<Rightarrow> 'lim running \<Rightarrow> 'lim running \<Rightarrow> bool" where
  "lone_step me tidb fs r r' \<longleftrightarrow> reload_step me tidb fs r r' \<and> lone (snd (snd (snd r')))"

definition lone_reach ::
  "main_env \<Rightarrow> (string \<Rightarrow> go_error + stmt_node list) \<Rightarrow> snapshot set \<Rightarrow> 'lim running \<Rightarrow> 'lim running \<Rightarrow> bool" where
  "lone_reach me tidb fs = (lone_step me tidb fs)\<^sup>*\<^sup>*"

lemma lone_reach_reload_reach: "lone_reach me tidb fs r r' \<Longrightarrow> reload_reach me tidb fs r r'"
  unfolding lone_reach_def reload_reach_def by (rule rtranclp_mono [THEN predicate2D]) (auto simp: lone_step_def)

lemma lone_resting: "lone (replicate k Resting)" "active (replicate k Resting) = Resting"
  by (simp_all add: lone_def active_def filter_replicate)

lemma active_update:
  assumes "lone rs" and "lone (rs[i := y])" and "i < length rs" and "rs ! i \<noteq> Resting \<or> y \<noteq> Resting"
  shows "active rs = rs ! i" and "active (rs[i := y]) = y"
proof -
  have r: "rs = take i rs @ rs ! i # drop (Suc i) rs" and u: "rs[i := y] = take i rs @ y # drop (Suc i) rs"
    using assms(3) by (simp_all add: id_take_nth_drop upd_conv_take_nth_drop)
  let ?f = "filter (\<lambda>r. r \<noteq> Resting)"
  have "length (?f (take i rs @ x # drop (Suc i) rs)) \<le> 1" if "x = rs ! i \<or> x = y" for x
    using assms(1,2) r u that unfolding lone_def by metis
  from this [of "rs ! i"] this [of y] have e: "?f (take i rs) = []" "?f (drop (Suc i) rs) = []"
    using assms(4) by (auto split: if_splits)
  have "active (take i rs @ x # drop (Suc i) rs) = x" for x
    using e by (simp add: active_def)
  from this [of "rs ! i"] this [of y] show "active rs = rs ! i" and "active (rs[i := y]) = y"
    using r u by simp_all
qed

section \<open>The invariant\<close>

text \<open>What the pool owes to the goroutine that is closing clusters.\<close>

definition closing_ok :: "'lim server \<Rightarrow> reloader \<Rightarrow> bool" where
  "closing_ok s r \<longleftrightarrow>
     (case r of
        PoolClosing cfg tc \<Rightarrow> marked_list tc s
      | PoolDeleting cfg n rest \<Rightarrow>
          marked_list rest s \<and> n \<notin> fst ` set rest \<and>
          (\<forall>p. clusters s n = Some p \<longrightarrow> \<not> is_open (handle_of p s) s)
      | _ \<Rightarrow> True)"

text \<open>The rules, by the step the goroutine has come to.\<close>

definition rules_ok :: "'lim server \<Rightarrow> reloader \<Rightarrow> bool" where
  "rules_ok s r \<longleftrightarrow>
     (case r of
        ConfigStored cfg (Some sec) \<Rightarrow>
          h_config s = \<lparr>rc_config = cfg, rc_security = Some sec\<rparr> \<and> rw_rules (h_rewriter s) = chk_rules (h_checker s)
      | CheckerUpdated cfg sec \<Rightarrow>
          h_config s = \<lparr>rc_config = cfg, rc_security = Some sec\<rparr> \<and> chk_rules (h_checker s) = Some (Security sec)
      | _ \<Rightarrow>
          rw_rules (h_rewriter s) = chk_rules (h_checker s) \<and>
          (case GetSecurity (h_config s) of None \<Rightarrow> True | Some rules \<Rightarrow> chk_rules (h_checker s) = Some rules))"

definition lone_inv :: "'lim running \<Rightarrow> bool" where
  "lone_inv r =
     (case r of (f, w, s, rs) \<Rightarrow>
        lone rs \<and> handles_owned s \<and> closing_ok s (active rs) \<and> rules_ok s (active rs))"

text \<open>What a request does to the pool.\<close>

definition same_pool :: "'lim server \<Rightarrow> 'lim server \<Rightarrow> bool" where
  "same_pool s s' \<longleftrightarrow> (\<exists>s1. same_shape s s1 \<and> clusters s' = clusters s1 \<and> mdbs s' = mdbs s1 \<and> dbs s' = dbs s1 \<and>
     next_mdb s' = next_mdb s1 \<and> next_db s' = next_db s1)"

lemma request_step_same_pool:
  fixes s s' :: "'lim server"
  assumes "request_step drv tidb s s'" and inv: "handler_inv s"
  shows "same_pool s s'"
  using assms(1)
proof (cases rule: request_step.cases)
  case (1 clk order c tc resp)
  have "audit_inv (h_audit s)" using inv by (simp add: handler_inv_def)
  from tool_effect_call [OF this 1]
  obtain h1 cs where "routed (getQueryTimeout s) s h1" "s' = h1\<lparr>h_audit := write_calls cs (h_audit h1)\<rparr>"
    by (auto simp: tool_effect_def)
  then show ?thesis unfolding same_pool_def routed_def by (intro exI [of _ h1]) simp
next
  case (4 cs)
  then show ?thesis unfolding same_pool_def using same_shape_pool_calls by blast
qed (auto simp: same_pool_def on_metrics_def Server_Start_def Server_Handler_def Let_def intro!: exI [of _ s])

lemma same_poolD:
  assumes "same_pool s s'"
  shows "clusters s' = clusters s" and "is_open h s' = is_open h s" and "handle_of p s' = handle_of p s"
    and "get_closing p s' = get_closing p s" and "map_option mdb_db (mdbs s' p) = map_option mdb_db (mdbs s p)"
    and "next_mdb s' = next_mdb s" and "next_db s' = next_db s"
proof -
  obtain s1 where s1: "same_shape s s1" "clusters s' = clusters s1" "mdbs s' = mdbs s1" "dbs s' = dbs s1"
    "next_mdb s' = next_mdb s1" "next_db s' = next_db s1"
    using assms unfolding same_pool_def by blast
  have e: "is_open h s' = is_open h s1" "handle_of p s' = handle_of p s1" "get_closing p s' = get_closing p s1"
    by (simp_all add: is_open_def handle_of_def get_closing_def s1)
  show "clusters s' = clusters s" and "next_mdb s' = next_mdb s" and "next_db s' = next_db s"
    using s1 by (simp_all add: same_shape_def)
  show "is_open h s' = is_open h s" using e(1) s1(1) by (simp add: same_shape_def)
  show "handle_of p s' = handle_of p s" using e(2) same_shape_handle_of [OF s1(1)] by simp
  show "get_closing p s' = get_closing p s" using e(3) same_shape_get_closing [OF s1(1)] by simp
  show "map_option mdb_db (mdbs s' p) = map_option mdb_db (mdbs s p)"
    using same_shape_core(2) [OF s1(1), of p] same_shape_core(3) [OF s1(1), of p]
    by (cases "mdbs s p") (auto simp: s1(3))
qed

lemma handles_owned_iff:
  "handles_owned s \<longleftrightarrow> (\<forall>h. is_open h s \<longrightarrow> (\<exists>n p. clusters s n = Some p \<and> map_option mdb_db (mdbs s p) = Some h))"
  by (auto simp: handles_owned_def)

lemma same_pool_owned: "same_pool s s' \<Longrightarrow> handles_owned s' = handles_owned s"
  by (simp add: handles_owned_iff same_poolD)

lemma same_pool_closing_ok: "same_pool s s' \<Longrightarrow> closing_ok s' r = closing_ok s r"
  by (simp add: closing_ok_def marked_list_def same_poolD split: reloader.split)

lemma rules_ok_cong:
  "h_config s' = h_config s \<Longrightarrow> h_checker s' = h_checker s \<Longrightarrow> h_rewriter s' = h_rewriter s \<Longrightarrow>
     rules_ok s' r = rules_ok s r"
  by (simp add: rules_ok_def split: reloader.split option.split)

lemma lone_inv_move:
  assumes "lone_inv (f, w, s, rs)" and "lone (rs[i := y])" and "i < length rs" and "rs ! i = x"
    and "x \<noteq> Resting \<or> y \<noteq> Resting"
    and "handles_owned s \<Longrightarrow> closing_ok s x \<Longrightarrow> rules_ok s x \<Longrightarrow>
      handles_owned s' \<and> closing_ok s' y \<and> rules_ok s' y"
  shows "lone_inv (f', w', s', rs[i := y])"
proof -
  have "lone rs" using assms(1) by (simp add: lone_inv_def)
  note a = active_update [OF this assms(2,3)] 
  have "active rs = x" "active (rs[i := y]) = y" using a assms(4,5) by simp_all
  then show ?thesis using assms(1,2,6) by (simp add: lone_inv_def)
qed

text \<open>A step between two phases that leaves the pool alone.\<close>

lemma closing_ok_fields [simp]:
  "closing_ok (s\<lparr>h_config := c\<rparr>) r = closing_ok s r" "closing_ok (s\<lparr>h_checker := k\<rparr>) r = closing_ok s r"
  "closing_ok (s\<lparr>h_rewriter := v\<rparr>) r = closing_ok s r" "closing_ok (s\<lparr>h_audit := l\<rparr>) r = closing_ok s r"
  by (simp_all add: closing_ok_def marked_list_def get_closing_def is_open_def handle_of_def split: reloader.split)

lemma rules_ok_audit [simp]: "rules_ok (s\<lparr>h_audit := l\<rparr>) r = rules_ok s r"
  by (rule rules_ok_cong) simp_all

text \<open>Outside the two updates of the rules the phases ask for the same.\<close>

lemma rules_ok_calm [simp]:
  "rules_ok s (ConfigRead cfg) = rules_ok s Resting" "rules_ok s (BothRead cfg sec) = rules_ok s Resting"
  "rules_ok s (TimesRecorded cfg sec) = rules_ok s Resting" "rules_ok s (ConfigStored cfg None) = rules_ok s Resting"
  "rules_ok s (RulesUpdated cfg) = rules_ok s Resting" "rules_ok s (PoolClosing cfg tc) = rules_ok s Resting"
  "rules_ok s (PoolDeleting cfg n tc) = rules_ok s Resting"
  by (simp_all add: rules_ok_def)

lemma closing_ok_calm [simp]:
  "closing_ok s Resting" "closing_ok s (ConfigRead cfg)" "closing_ok s (BothRead cfg sec)"
  "closing_ok s (TimesRecorded cfg sec)" "closing_ok s (ConfigStored cfg sec)" "closing_ok s (CheckerUpdated cfg k)"
  "closing_ok s (RulesUpdated cfg)" "closing_ok s (PoolClosing cfg tc) = marked_list tc s"
  by (simp_all add: closing_ok_def)

lemma rules_ok_more:
  fixes s s' :: "'lim server"
  assumes "pool.more s' = pool.more s"
  shows "rules_ok s' r = rules_ok s r"
  using pool_more_server [OF assms] by (intro rules_ok_cong)

lemma handles_owned_locked:
  assumes "pool_inv s" and "handles_owned s"
  shows "handles_owned (locked_state drv order names new s)"
  unfolding locked_state_def
  using assms by (simp add: handles_owned_add_new pool_inv_mark_ptrs handles_owned_mark_ptrs)

lemma marked_list_perm:
  "marked_list tc s \<Longrightarrow> set tc' = set tc \<Longrightarrow> distinct (map fst tc') \<Longrightarrow> marked_list tc' s"
  by (simp add: marked_list_def)

lemma close_handle_phase:
  assumes "marked_list ((n, p) # rest) s" and "handles_owned s"
  shows "handles_owned (close_handle p s)" and "closing_ok (close_handle p s) (PoolDeleting cfg n rest)"
proof -
  show "handles_owned (close_handle p s)"
    using assms(2) by (simp add: handles_owned_def close_handle_is_open state_frame)
  show "closing_ok (close_handle p s) (PoolDeleting cfg n rest)"
    using assms(1) by (auto simp: closing_ok_def marked_list_def state_frame close_handle_is_open handle_of_def)
qed

lemma delete_cluster_phase:
  assumes "closing_ok s (PoolDeleting cfg n rest)" and "handles_owned s"
  shows "handles_owned (delete_cluster n s)" and "closing_ok (delete_cluster n s) (PoolClosing cfg rest)"
proof -
  have gone: "clusters s n = Some p \<Longrightarrow> \<not> is_open (handle_of p s) s" for p
    using assms(1) by (simp add: closing_ok_def)
  show "handles_owned (delete_cluster n s)"
    unfolding handles_owned_def
  proof (intro allI impI)
    fix h
    assume "is_open h (delete_cluster n s)"
    then have h: "is_open h s" by (simp add: is_open_def state_frame)
    with assms(2) obtain m p k where m: "clusters s m = Some p" "mdbs s p = Some k" "mdb_db k = h"
      by (rule handles_ownedD)
    then have "m \<noteq> n" using gone [of p] h by (auto simp: handle_of_def)
    with m show "\<exists>m p k. clusters (delete_cluster n s) m = Some p \<and> mdbs (delete_cluster n s) p = Some k \<and> mdb_db k = h"
      by (auto simp: state_frame)
  qed
  show "closing_ok (delete_cluster n s) (PoolClosing cfg rest)"
    using assms(1) by (force simp: closing_ok_def marked_list_def state_frame get_closing_def)
qed

lemma lone_inv_step:
  assumes run: "running_inv me fs w0 s0 r" and inv: "lone_inv r" and st: "lone_step me tidb fs r r'"
  shows "lone_inv r'"
proof -
  have l: "lone (snd (snd (snd r')))" and step: "reload_step me tidb fs r r'" using st by (simp_all add: lone_step_def)
  show ?thesis
    using step
  proof (cases rule: reload_step.cases)
    case (edited f' f w s rs)
    then show ?thesis using inv by (simp add: lone_inv_def)
  next
    case (served s s' f w rs)
    have h: "handler_inv s" using run by (simp add: served(1) running_inv_def)
    note sp = request_step_same_pool [OF served(3) h] and fr = request_step_frame [OF served(3) h]
    have "rules_ok s' r = rules_ok s r" for r by (rule rules_ok_cong) (simp_all add: fr)
    then show ?thesis
      using inv same_pool_owned [OF sp] same_pool_closing_ok [OF sp] by (simp add: served lone_inv_def)
  next
    case (pool_marked i rs cfg order names s tc s' tc' f w)
    have pi: "pool_inv s" using run by (simp add: pool_marked(1) running_inv_def handler_inv_def)
    have s': "tc = to_close (Clusters cfg) order s" "s' = locked_state (me_driver me) order names (Clusters cfg) s"
      using pool_marked(6) by (simp_all add: UpdateConfig_locked_eq)
    have "marked_list tc' s'"
      using locked_inv(2) [OF pi pool_marked(5), of "me_driver me"] pool_marked(7,8)
      unfolding s' by (rule marked_list_perm)
    moreover have "rules_ok s' q = rules_ok s q" for q by (rule rules_ok_more) (simp add: s' locked_more)
    ultimately show ?thesis
      unfolding pool_marked(2)
      using l handles_owned_locked [OF pi, of "me_driver me" order names "Clusters cfg"]
      by (intro lone_inv_move [OF inv [unfolded pool_marked(1)] _ pool_marked(3,4)])
        (use pool_marked(2) in \<open>simp_all add: s'(2)\<close>)
  next
    case (handle_closed i rs cfg n p rest f w s)
    have "rules_ok (close_handle p s) q = rules_ok s q" for q by (rule rules_ok_more) (simp add: state_frame)
    then show ?thesis
      unfolding handle_closed(2) using l close_handle_phase [of n p rest s]
      by (intro lone_inv_move [OF inv [unfolded handle_closed(1)] _ handle_closed(3,4)])
        (use handle_closed(2) in simp_all)
  next
    case (cluster_deleted i rs cfg n rest f w s)
    have "rules_ok (delete_cluster n s) q = rules_ok s q" for q by (rule rules_ok_more) (simp add: state_frame)
    then show ?thesis
      unfolding cluster_deleted(2) using l delete_cluster_phase [of s cfg n rest]
      by (intro lone_inv_move [OF inv [unfolded cluster_deleted(1)] _ cluster_deleted(3,4)])
        (use cluster_deleted(2) in simp_all)
  next
    case (config_read i rs f w cfg s)
    show ?thesis
      using l unfolding config_read(2)
      by (intro lone_inv_move [OF inv [unfolded config_read(1)] _ config_read(3,4)])
        simp_all
  next
    case (security_read i rs cfg w f sec s)
    show ?thesis
      using l unfolding security_read(2)
      by (intro lone_inv_move [OF inv [unfolded security_read(1)] _ security_read(3,4)])
        simp_all
  next
    case (security_lost i rs cfg w f e s)
    show ?thesis
      using l unfolding security_lost(2)
      by (intro lone_inv_move [OF inv [unfolded security_lost(1)] _ security_lost(3,4)])
        simp_all
  next
    case (no_security i rs cfg w f s)
    show ?thesis
      using l unfolding no_security(2)
      by (intro lone_inv_move [OF inv [unfolded no_security(1)] _ no_security(3,4)])
        simp_all
  next
    case (times_recorded i rs cfg sec f w s)
    show ?thesis
      using l unfolding times_recorded(2)
      by (intro lone_inv_move [OF inv [unfolded times_recorded(1)] _ times_recorded(3,4)])
        simp_all
  next
    case (config_stored i rs cfg sec f w s)
    show ?thesis
      using l unfolding config_stored(2)
      by (intro lone_inv_move [OF inv [unfolded config_stored(1)] _ config_stored(3,4)])
        (cases sec; simp add: rules_ok_def rc_Update_def GetSecurity_def)+
  next
    case (no_rules i rs cfg f w s)
    show ?thesis
      using l unfolding no_rules(2)
      by (intro lone_inv_move [OF inv [unfolded no_rules(1)] _ no_rules(3,4)])
        simp_all
  next
    case (checker_updated i rs cfg sec f w s)
    show ?thesis
      using l unfolding checker_updated(2)
      by (intro lone_inv_move [OF inv [unfolded checker_updated(1)] _ checker_updated(3,4)])
        (simp_all add: rules_ok_def checker_cell.rules_update)
  next
    case (rewriter_updated i rs cfg sec f w s)
    show ?thesis
      using l unfolding rewriter_updated(2)
      by (intro lone_inv_move [OF inv [unfolded rewriter_updated(1)] _ rewriter_updated(3,4)])
        (simp_all add: rules_ok_def rewriter_cell.rules_update GetSecurity_def)
  next
    case (audit_updated i rs cfg f w s)
    show ?thesis
      using l unfolding audit_updated(2)
      by (intro lone_inv_move [OF inv [unfolded audit_updated(1)] _ audit_updated(3,4)])
        simp_all
  qed
qed

lemma lone_inv_reach:
  assumes "lone_reach me tidb fs r r'" and "running_inv me fs w0 s0 r" and "lone_inv r"
  shows "running_inv me fs w0 s0 r' \<and> lone_inv r'"
  using assms unfolding lone_reach_def
proof (induction rule: rtranclp_induct)
  case (step r1 r2)
  then show ?case using running_inv_step lone_inv_step unfolding lone_step_def by blast
qed blast

section \<open>From the start of the program\<close>

text \<open>
  The interleavings of a program that has just started: \<open>k\<close> goroutines that may reload, none when the
  watcher could not be made.
\<close>

definition starts :: "main_env \<Rightarrow> ReloadableConfig \<Rightarrow> snapshot set \<Rightarrow> nat \<Rightarrow> 'lim running \<Rightarrow> bool" where
  "starts me rc fs k r \<longleftrightarrow>
     main_env_ok me \<and>
     (\<exists>f1 f2 f3 f0 fe path poll inst s ow w.
        NewReloadableConfig (me_conf me) f1 f2 path = Inr rc \<and>
        main_start me (f1, f2, f3, f0) fe path poll inst = Inr (s, ow) \<and> f0 \<in> fs \<and>
        (case ow of None \<Rightarrow> k = 0 | Some w' \<Rightarrow> w = w') \<and>
        r = (f0, w, s, replicate k Resting))"

lemma startsI:
  "main_env_ok me \<Longrightarrow> NewReloadableConfig (me_conf me) f1 f2 path = Inr rc \<Longrightarrow>
     main_start me (f1, f2, f3, f0) fe path poll inst = Inr (s, Some w) \<Longrightarrow> f0 \<in> fs \<Longrightarrow>
     starts me rc fs k (f0, w, s, replicate k Resting)"
  unfolding starts_def by fastforce

lemma startsE:
  assumes "starts me rc fs k r"
  obtains f w s where "r = (f, w, s, replicate k Resting)" and "service_inv rc s" and "running_inv me fs w s r" and "lone_inv r"
proof -
  obtain f1 f2 f3 f0 fe path poll inst s ow w where ok: "main_env_ok me"
    and st: "NewReloadableConfig (me_conf me) f1 f2 path = Inr rc"
      "main_start me (f1, f2, f3, f0) fe path poll inst = Inr (s, ow)" "f0 \<in> fs"
    and r: "r = (f0, w, s, replicate k Resting)"
    using assms unfolding starts_def by blast
  have sim: "process_sim me tidb rc (s, ow)" for tidb by (rule process_sim_started [OF ok st(1,2)])
  have inv: "service_inv rc s"
    using sim service_inv_reachable unfolding process_sim_def fst_conv by blast
  have "running_inv me fs w s r"
    unfolding r by (rule running_inv_start [OF st(3)]) (use inv in \<open>simp add: service_inv_def\<close>)
  moreover have "lone_inv r"
    using inv by (auto simp: r lone_inv_def lone_resting rules_ok_def service_inv_def split: option.split)
  ultimately show thesis using that r inv by blast
qed

lemma lone_reach_from_start:
  assumes "starts me rc fs k r0" and "lone_reach me tidb fs r0 (f, w, s, rs)"
  shows "lone_inv (f, w, s, rs)" and "handler_inv s" and "rt_databases s = Databases (rc_config rc)"
    and "32 \<le> length (v_secret (srv_validator s))"
proof -
  obtain f0 w0 s0 where s0: "service_inv rc s0" "running_inv me fs w0 s0 r0" "lone_inv r0"
    using assms(1) by (rule startsE)
  have i: "running_inv me fs w0 s0 (f, w, s, rs)" "lone_inv (f, w, s, rs)"
    using lone_inv_reach [OF assms(2) s0(2,3)] by blast+
  show "lone_inv (f, w, s, rs)" by (rule i(2))
  show "handler_inv s" by (rule running_handler [OF i(1)])
  show "rt_databases s = Databases (rc_config rc)" "32 \<le> length (v_secret (srv_validator s))"
    using i(1) s0(1) by (simp_all add: running_inv_def service_inv_def)
qed

end
