(* ===== verification/Late_Steps.thy ===== *)
theory Late_Steps
  imports Reload_Lone
begin

text \<open>
  What happens to handles and clusters as time goes on, and the shutdown among the other goroutines. No
  handle is ever opened again once it is closed, and a cluster of the map is an old one or has been
  opened since; so what is left after the pool is closed was opened later or had been lost before.
\<close>

section \<open>Handles do not come back\<close>

definition grows :: "'a pool_scheme \<Rightarrow> 'a pool_scheme \<Rightarrow> bool" where
  "grows s s' \<longleftrightarrow>
     next_db s \<le> next_db s' \<and> next_mdb s \<le> next_mdb s' \<and>
     (\<forall>h. is_open h s' \<longrightarrow> is_open h s \<or> next_db s \<le> h) \<and>
     (\<forall>n p. clusters s' n = Some p \<longrightarrow> clusters s n = Some p \<or> next_mdb s \<le> p)"

lemma grows_refl [simp]: "grows s s"
  by (simp add: grows_def)

lemma grows_trans: "grows s s1 \<Longrightarrow> grows s1 s2 \<Longrightarrow> grows s s2"
  unfolding grows_def by (meson le_trans)

lemma grows_open_cluster: "grows s (open_cluster n cfg s)"
  by (auto simp: grows_def open_cluster_def is_open_def split: if_splits)

lemma grows_add_new: "grows s (add_new drv new names s)"
proof (induction names arbitrary: s)
  case (Cons n names)
  show ?case
    using grows_trans [OF grows_open_cluster Cons] Cons by (simp add: add_new_step)
qed simp

lemma grows_locked: "grows s (locked_state drv order names new s)"
proof -
  let ?s1 = "mark_ptrs (snd ` set (to_close new order s)) s"
  have "grows s ?s1" by (simp add: grows_def state_frame is_open_def)
  moreover have "grows ?s1 (locked_state drv order names new s)"
    using grows_add_new [of ?s1 drv new names] by (simp add: locked_state_def grows_def is_open_def)
  ultimately show ?thesis by (rule grows_trans)
qed

lemma grows_same_pool: "same_pool s s' \<Longrightarrow> grows s s'"
  by (simp add: grows_def same_poolD)

lemma grows_fields [simp]:
  "grows s (s\<lparr>h_config := c\<rparr>)" "grows s (s\<lparr>h_checker := k\<rparr>)" "grows s (s\<lparr>h_rewriter := v\<rparr>)" "grows s (s\<lparr>h_audit := l\<rparr>)"
  by (simp_all add: grows_def is_open_def)

lemma reload_step_grows:
  assumes "reload_step me tidb fs (f, w, s, rs) (f', w', s', rs')" and inv: "handler_inv s"
  shows "grows s s'"
  using assms(1)
proof (cases rule: reload_step.cases)
  case (pool_marked i cfg order names tc tc')
  then have "s' = locked_state (me_driver me) order names (Clusters cfg) s" by (simp add: UpdateConfig_locked_eq)
  then show ?thesis by (simp only: grows_locked)
next
  case (handle_closed i cfg n p rest)
  then show ?thesis by (simp add: grows_def state_frame close_handle_is_open)
next
  case (cluster_deleted i cfg n rest)
  then show ?thesis by (simp add: grows_def state_frame is_open_def)
next
  case served
  then show ?thesis using grows_same_pool [OF request_step_same_pool [OF _ inv]] by blast
qed simp_all

section \<open>Closing the pool\<close>

lemma Pool_Close_is_open:
  assumes "set order = dom (clusters s)"
  shows "is_open h (snd (Pool_Close drv order s)) \<longleftrightarrow> forgotten h s"
proof -
  have "is_open h (snd (Pool_Close drv order s)) \<longleftrightarrow> is_open h (snd (close_all drv order None s))"
    by (simp add: Pool_Close_def is_open_def case_prod_beta)
  also have "\<dots> \<longleftrightarrow> forgotten h s"
    using assms by (auto simp: close_all_is_open forgotten_def)
  finally show ?thesis .
qed

lemma owned_not_forgotten: "handles_owned s \<Longrightarrow> \<not> forgotten h s"
  by (auto simp: handles_owned_def forgotten_def)

lemma Pool_Close_next:
  "next_db (snd (Pool_Close drv order s)) = next_db s" "next_mdb (snd (Pool_Close drv order s)) = next_mdb s"
  "mdbs (snd (Pool_Close drv order s)) = mdbs s"
  by (simp_all add: Pool_Close_def case_prod_beta close_all_frame)

section \<open>The steps of a shutdown\<close>

text \<open>
  \<open>Server.Shutdown\<close> cancels the cleanup of the limiter (a step of the requests), closes the pool
  under its lock and closes the audit log under its lock; the goroutines that reload go on meanwhile and
  afterwards. \<open>late_step\<close> is a step after the pool was closed.
\<close>

inductive late_step ::
  "main_env \<Rightarrow> (string \<Rightarrow> go_error + stmt_node list) \<Rightarrow> snapshot set \<Rightarrow> 'lim running \<Rightarrow> 'lim running \<Rightarrow> bool"
  for me tidb fs where
  going_on: "reload_step me tidb fs r r' \<Longrightarrow> late_step me tidb fs r r'"
| audit_closed: "late_step me tidb fs (f, w, s, rs) (f, w, s\<lparr>h_audit := snd (Log_Close close_err (h_audit s))\<rparr>, rs)"

definition late_reach ::
  "main_env \<Rightarrow> (string \<Rightarrow> go_error + stmt_node list) \<Rightarrow> snapshot set \<Rightarrow> 'lim running \<Rightarrow> 'lim running \<Rightarrow> bool" where
  "late_reach me tidb fs = (late_step me tidb fs)\<^sup>*\<^sup>*"

lemma running_inv_same_goroutines:
  fixes s s' :: "'lim server"
  assumes inv: "running_inv me fs w0 s0 (f, w, s, rs)" and h: "handler_inv s'"
    and g: "\<And>p. get_closing p s' = get_closing p s" and c: "configs s' = configs s"
    and eq: "rt_databases s' = rt_databases s" "srv_validator s' = srv_validator s" "h_config s' = h_config s"
      "h_checker s' = h_checker s" "h_rewriter s' = h_rewriter s"
  shows "running_inv me fs w0 s0 (f, w, s', rs)"
proof -
  have "\<forall>r \<in> set rs. reloader_ok me fs (configPath w0) (securityPath w0) s' r"
    using inv g by (auto simp: running_inv_def intro: reloader_ok_mono)
  then show ?thesis using inv h c eq by (simp add: running_inv_def)
qed

lemma running_inv_late:
  assumes "running_inv me fs w0 s0 r" and "late_step me tidb fs r r'"
  shows "running_inv me fs w0 s0 r'"
  using assms(2)
proof (cases rule: late_step.cases)
  case going_on
  then show ?thesis using running_inv_step [OF assms(1)] by blast
next
  case (audit_closed f w s rs close_err)
  note inv = assms(1) [unfolded audit_closed(1)]
  have "handler_inv (s\<lparr>h_audit := snd (Log_Close close_err (h_audit s))\<rparr>)"
    using running_handler [OF inv] by (intro handler_inv_audit audit_inv_Close) (simp_all add: handler_inv_def)
  then show ?thesis
    unfolding audit_closed(2) by (intro running_inv_same_goroutines [OF inv]) simp_all
qed

lemma late_step_grows:
  assumes "late_step me tidb fs (f, w, s, rs) (f', w', s', rs')" and "handler_inv s"
  shows "grows s s'"
  using assms(1) by cases (use reload_step_grows assms(2) in \<open>blast, simp\<close>)

lemma late_reach_grows:
  assumes "late_reach me tidb fs r r'" and "running_inv me fs w0 s0 r"
  shows "running_inv me fs w0 s0 r' \<and> grows (fst (snd (snd r))) (fst (snd (snd r')))"
  using assms unfolding late_reach_def
proof (induction rule: rtranclp_induct)
  case (step r1 r2)
  obtain f w s rs where r1: "r1 = (f, w, s, rs)" by (cases r1)
  obtain f' w' s' rs' where r2: "r2 = (f', w', s', rs')" by (cases r2)
  have i1: "running_inv me fs w0 s0 r1" and g1: "grows (fst (snd (snd r))) s" using step by (simp_all add: r1)
  have "handler_inv s" by (rule running_handler [OF i1 [unfolded r1]])
  then have "grows s s'" using late_step_grows step(2) unfolding r1 r2 by blast
  then show ?case using running_inv_late [OF i1 step(2)] grows_trans [OF g1] by (simp add: r2)
qed simp

lemma close_all_dbs: "dbs (snd (close_all drv names e s)) h = None \<longleftrightarrow> dbs s h = None"
  by (induction names arbitrary: s e)
    (simp_all add: db_Close_def upd_db_lookup state_frame split: option.split)

lemma pool_inv_Pool_Close: "pool_inv s \<Longrightarrow> pool_inv (snd (Pool_Close drv order s))"
  using close_all_dbs [of drv order None s] by (simp add: pool_inv_def Pool_Close_def case_prod_beta close_all_frame)

lemma running_inv_Pool_Close:
  fixes s :: "'lim server"
  assumes inv: "running_inv me fs w0 s0 (f, w, s, rs)"
  shows "running_inv me fs w0 s0 (f, w, snd (Pool_Close drv order s), rs)"
proof -
  note m = pool_more_server [OF Pool_Close_more [of drv order s]]
  have "handler_inv s" by (rule running_handler [OF inv])
  then have "handler_inv (snd (Pool_Close drv order s))"
    by (simp add: handler_inv_def m pool_inv_Pool_Close)
  moreover have "configs (snd (Pool_Close drv order s)) = configs s"
    by (simp add: Pool_Close_def case_prod_beta close_all_frame)
  ultimately show ?thesis
    by (intro running_inv_same_goroutines [OF inv]) (simp_all add: m get_closing_def Pool_Close_next)
qed

end
