(* ===== verification/Props_Shutdown.thy ===== *)
theory Props_Shutdown
  imports Late_Steps Props_Reload
begin

text \<open>
  What holds of the whole service from its start to its shutdown, in every state of the interleavings of
  requests, file changes and reloads, the states inside a reload included.
\<close>

section \<open>While reloads do not overlap\<close>


lemma demo_starts:
  "\<exists>(s :: nat server) w. starts demo_main demo_rc {demo_files} 1 (demo_files, w, s, [Resting]) \<and>
     clusters s ''main'' \<noteq> None \<and> dom (clusters s) = {''main''}"
proof -
  obtain s :: "nat server" and w
    where st: "main_start demo_main (demo_files, demo_files, demo_files, demo_files) None ''config.yaml'' 0 None = Inr (s, Some w)"
    using demo_main_starts by blast
  have m: "me_conf demo_main = demo_conf" by (simp add: demo_main_def)
  have rc: "NewReloadableConfig (me_conf demo_main) demo_files demo_files ''config.yaml'' = Inr demo_rc"
    by (simp add: m demo_loads)
  have "starts demo_main demo_rc {demo_files} 1 (demo_files, w, s, replicate 1 Resting)"
    by (rule startsI [OF demo_main_ok rc st]) simp
  then have "starts demo_main demo_rc {demo_files} 1 (demo_files, w, s, [Resting])" by simp
  moreover have "ranges_over (env_order (me_conf demo_main) (Clusters (rc_config demo_rc))) (Clusters (rc_config demo_rc))"
    "\<And>ns. set (me_close_order demo_main ns) = set ns"
    using demo_main_ok by (simp_all add: main_env_ok_def demo_rc_def demo_config_def)
  then have "dom (clusters s) = dom (Clusters (rc_config demo_rc))"
    using NewServer_ok(3) [OF main_start_server [OF st rc]] by simp
  then have d: "dom (clusters s) = {''main''}" by (simp add: demo_rc_def demo_config_def)
  then have "clusters s ''main'' \<noteq> None" by blast
  ultimately show ?thesis using d by blast
qed


section \<open>The shutdown\<close>

lemma Server_Shutdown_is_open:
  assumes "set order = dom (clusters s)"
  shows "is_open h (snd (Server_Shutdown drv http_err order close_err s)) \<longleftrightarrow> forgotten h s"
proof -
  let ?s1 = "s\<lparr>srv_limiter := Limiter_Close (srv_limiter s)\<rparr>"
  obtain e s2 where p: "Pool_Close drv order ?s1 = (e, s2)" by fastforce
  obtain ae l where k: "Log_Close close_err (h_audit s2) = (ae, l)" by fastforce
  have "is_open h s2 \<longleftrightarrow> forgotten h ?s1"
    using Pool_Close_is_open [of order ?s1 h drv] assms p by simp
  moreover have "forgotten h ?s1 = forgotten h s" by (simp add: forgotten_def is_open_def)
  ultimately show ?thesis using Server_Shutdown_parts(1) [OF p k] by (simp add: is_open_def)
qed

text \<open>
C8. Shutting down from any state of the interleavings, inside a reload as well: every step is taken
whatever the earlier ones report. Of the database handles those stay open, at that moment, that no
cluster of the pool held any more, and there are none of them as long as no two reloads have overlapped. The
pool knows no cluster, the cleanup of the limiter is cancelled and the audit writer in use is closed;
the result is an error exactly when one of the steps had one. (What reloads do after the
pool is closed is in C6.)
\<close>

theorem shutdown_closes_everything:
  assumes "starts me rc fs k r0" and "reload_reach me tidb fs r0 (f, w, s, rs)" and "set order = dom (clusters s)"
  shows "case Server_Shutdown drv http_err order close_err s of (err, s') \<Rightarrow>
    (is_open h s' \<longleftrightarrow> forgotten h s) \<and> (if lone_reach me tidb fs r0 (f, w, s, rs) then \<not> is_open h s' else True) \<and>
    fst (Get c s') = Inl (''unknown cluster: '' @ c) \<and> rl_cancelled (srv_limiter s') \<and>
    (case writer (h_audit s) of
       None \<Rightarrow> h_audit s' = h_audit s
     | Some w \<Rightarrow> lj_trace (h_audit s') = lj_trace (h_audit s) @ [LjClose w]) \<and>
    (err = None \<longleftrightarrow>
       (srv_started s \<longrightarrow> http_err = None) \<and>
       fst (Pool_Close drv order (s\<lparr>srv_limiter := Limiter_Close (srv_limiter s)\<rparr>)) = None \<and>
       (case writer (h_audit s) of None \<Rightarrow> True | Some w \<Rightarrow> close_err w = None))"
proof -
  let ?s1 = "s\<lparr>srv_limiter := Limiter_Close (srv_limiter s)\<rparr>"
  obtain e s2 where p: "Pool_Close drv order ?s1 = (e, s2)" by fastforce
  have nm: "clusters s2 = (\<lambda>_. None)" using Pool_Close_clusters [of drv order ?s1] p by simp
  have "pool.more s2 = pool.more ?s1" using Pool_Close_more [of drv order ?s1] p by simp
  then have a: "h_audit s2 = h_audit s" and l: "handler.more s2 = handler.more ?s1"
    using pool_more_router [of s2 ?s1] pool_more_handler [of s2 ?s1] by simp_all
  then have l: "srv_limiter s2 = Limiter_Close (srv_limiter s)" by (cases s2; cases s) simp
  obtain ae j where j: "Log_Close close_err (h_audit s2) = (ae, j)" by fastforce
  have j': "case writer (h_audit s) of
      None \<Rightarrow> j = h_audit s \<and> ae = None
    | Some w \<Rightarrow> lj_trace j = lj_trace (h_audit s) @ [LjClose w] \<and> ae = close_err w"
    using j by (auto simp: Log_Close_def a split: option.splits)
  obtain err s' where sd: "Server_Shutdown drv http_err order close_err s = (err, s')" by fastforce
  then have s': "s' = s2\<lparr>h_audit := j\<rparr>"
    and err: "err = None \<longleftrightarrow> (srv_started s \<longrightarrow> http_err = None) \<and> e = None \<and> ae = None"
    using Server_Shutdown_parts [OF p j, of http_err] by simp_all
  have op: "is_open h s' \<longleftrightarrow> forgotten h s"
    using Server_Shutdown_is_open [OF assms(3), of h drv http_err close_err] by (simp add: sd)
  have "\<not> forgotten h s" if "lone_reach me tidb fs r0 (f, w, s, rs)"
    using lone_reach_from_start(1) [OF assms(1) that] by (simp add: lone_inv_def owned_not_forgotten)
  moreover have "fst (Get c s') = Inl (''unknown cluster: '' @ c)" by (simp add: s' nm Get_def get_lookup_def)
  moreover have "rl_cancelled (srv_limiter s')" by (simp add: s' l Limiter_Close_def)
  ultimately show ?thesis
    using op j' err by (simp add: sd p s' split: option.splits)
qed

theorem shutdown_closes_everything_witness:
  "\<exists>(s :: nat server) w. starts demo_main demo_rc {demo_files} 1 (demo_files, w, s, [Resting]) \<and>
     \<not> is_open 0 (snd (Server_Shutdown demo_driver None [''main''] (\<lambda>_. None) s))"
proof -
  obtain s :: "nat server" and w where st: "starts demo_main demo_rc {demo_files} 1 (demo_files, w, s, [Resting])"
    and d: "set [''main''] = dom (clusters s)"
    using demo_starts by auto
  have r: "reload_reach demo_main demo_tidb {demo_files} (demo_files, w, s, [Resting]) (demo_files, w, s, [Resting])"
    by (rule reload_reach_refl)
  have "lone_reach demo_main demo_tidb {demo_files} (demo_files, w, s, [Resting]) (demo_files, w, s, [Resting])"
    by (simp add: lone_reach_def)
  then show ?thesis
    using shutdown_closes_everything [OF st r d, where drv = demo_driver and http_err = None and close_err = "\<lambda>_. None" and h = 0 and c = "[]"] st
    by (auto simp: case_prod_beta)
qed

text \<open>
C6. After the shutdown has closed the pool nothing that was closed comes back, whatever goes on: the
pool may be closed in any state of the interleavings, and reloads that are under way go on, others
start, requests are served and the audit log is closed, in any order. Then the pool and the audit log still
satisfy their invariants, every cluster in the pool was opened after the pool was closed, and so was every
open handle but those no cluster of the pool held any more when it was closed; there are none of them
as long as no two reloads had overlapped by then. (Reloads after the shutdown do open
clusters anew, because the watcher is stopped after it; nothing closes those.)
\<close>

theorem closed_handles_stay_closed:
  assumes "starts me rc fs k r0" and "reload_reach me tidb fs r0 (f, w, s, rs)" and "set order = dom (clusters s)"
    and "late_reach me tidb fs (f, w, snd (Pool_Close drv order s), rs) (f', w', s', rs')"
  shows "pool_inv s' \<and> audit_inv (h_audit s') \<and> (clusters s' n = Some p \<longrightarrow> next_mdb s \<le> p) \<and>
    (is_open h s' \<longrightarrow> forgotten h s \<or> next_db s \<le> h) \<and>
    (if lone_reach me tidb fs r0 (f, w, s, rs) then is_open h s' \<longrightarrow> next_db s \<le> h else True)"
proof -
  let ?s1 = "snd (Pool_Close drv order s)"
  obtain f0 w0 s0 where "running_inv me fs w0 s0 r0" using assms(1) by (rule startsE)
  then have "running_inv me fs w0 s0 (f, w, s, rs)" by (rule running_inv_reach [OF assms(2)])
  then have "running_inv me fs w0 s0 (f, w, ?s1, rs)" by (rule running_inv_Pool_Close)
  from late_reach_grows [OF assms(4) this]
  have i: "running_inv me fs w0 s0 (f', w', s', rs')" and g: "grows ?s1 s'" by simp_all
  have op: "is_open h s' \<longrightarrow> forgotten h s \<or> next_db s \<le> h"
    using g Pool_Close_is_open [OF assms(3), of h drv] by (auto simp: grows_def Pool_Close_next)
  have "\<not> forgotten h s" if "lone_reach me tidb fs r0 (f, w, s, rs)"
    using lone_reach_from_start(1) [OF assms(1) that] by (simp add: lone_inv_def owned_not_forgotten)
  moreover have "clusters s' n = Some p \<longrightarrow> next_mdb s \<le> p"
    using g by (auto simp: grows_def Pool_Close_clusters Pool_Close_next)
  moreover have "pool_inv s'" "audit_inv (h_audit s')" using running_handler [OF i] by (simp_all add: handler_inv_def)
  ultimately show ?thesis using op by auto
qed

theorem closed_handles_stay_closed_witness:
  "\<exists>(s :: nat server) w. let s1 = snd (Pool_Close demo_driver [''main''] s); s2 = s1\<lparr>h_audit := snd (Log_Close (\<lambda>_. None) (h_audit s1))\<rparr> in
     late_reach demo_main demo_tidb {demo_files} (demo_files, w, s1, [Resting]) (demo_files, w, s2, [Resting]) \<and>
     (is_open 0 s2 \<longrightarrow> next_db s \<le> 0)"
proof -
  obtain s :: "nat server" and w where st: "starts demo_main demo_rc {demo_files} 1 (demo_files, w, s, [Resting])"
    and d: "set [''main''] = dom (clusters s)"
    using demo_starts by auto
  let ?s1 = "snd (Pool_Close demo_driver [''main''] s)"
  let ?s2 = "?s1\<lparr>h_audit := snd (Log_Close (\<lambda>_. None) (h_audit ?s1))\<rparr>"
  have r: "reload_reach demo_main demo_tidb {demo_files} (demo_files, w, s, [Resting]) (demo_files, w, s, [Resting])"
    by (rule reload_reach_refl)
  have l: "lone_reach demo_main demo_tidb {demo_files} (demo_files, w, s, [Resting]) (demo_files, w, s, [Resting])"
    by (simp add: lone_reach_def)
  have "late_reach demo_main demo_tidb {demo_files} (demo_files, w, ?s1, [Resting]) (demo_files, w, ?s2, [Resting])"
    unfolding late_reach_def by (rule r_into_rtranclp) (rule audit_closed)
  then show ?thesis
    using closed_handles_stay_closed [OF st r d, where h = 0] l by (auto simp: Let_def)
qed

end
