(* ===== verification/Go_Float.thy ===== *)
theory Go_Float
  imports Go_Strings "HOL-Library.Log_Nat"
begin

text \<open>
  What the program uses of \<open>float64\<close>: values as exact rationals with the two infinities and NaN,
  the rounding to nearest with ties to even, products and quotients, the truncating conversion to
  integers, and \<open>strconv.ParseFloat\<close>. The sign of a zero is not kept, since no caller sees it.
\<close>

section \<open>Values and rounding\<close>

datatype float64 =
    Finite rat
  | Infinite bool
  | NotANumber

definition pow2 :: "int \<Rightarrow> rat" where
  "pow2 k = (if 0 \<le> k then 2 ^ nat k else 1 / 2 ^ nat (- k))"

text \<open>The exponent of a positive rational: it lies between two consecutive powers of two.\<close>

definition exponent2 :: "rat \<Rightarrow> int" where
  "exponent2 q =
     (case quotient_of q of (a, b) \<Rightarrow>
        let k = bitlen a - bitlen b in if pow2 k \<le> q then k else k - 1)"

definition round_even :: "rat \<Rightarrow> int" where
  "round_even q =
     (let n = \<lfloor>q\<rfloor>; r = q - of_int n in if r < 1 / 2 \<or> (r = 1 / 2 \<and> even n) then n else n + 1)"

text \<open>53 bits of precision, and no bits below \<open>2 ^ - 1074\<close>.\<close>

definition last_place :: "rat \<Rightarrow> rat" where
  "last_place q = pow2 (max (exponent2 q - 52) (- 1074))"

definition round64 :: "rat \<Rightarrow> float64" where
  "round64 q =
     (if q = 0 then Finite 0
      else let u = last_place \<bar>q\<bar>; v = of_int (round_even (\<bar>q\<bar> / u)) * u in
        if v < pow2 1024 then Finite (if q < 0 then - v else v) else Infinite (q < 0))"

fun negative :: "float64 \<Rightarrow> bool" where
  "negative (Finite q) = (q < 0)"
| "negative (Infinite s) = s"
| "negative NotANumber = False"

fun fmul :: "float64 \<Rightarrow> float64 \<Rightarrow> float64" where
  "fmul (Finite x) (Finite y) = round64 (x * y)"
| "fmul NotANumber y = NotANumber"
| "fmul x NotANumber = NotANumber"
| "fmul x y = (if x = Finite 0 \<or> y = Finite 0 then NotANumber else Infinite (negative x \<noteq> negative y))"

fun fdiv :: "float64 \<Rightarrow> float64 \<Rightarrow> float64" where
  "fdiv (Finite x) (Finite y) =
     (if y \<noteq> 0 then round64 (x / y) else if x = 0 then NotANumber else Infinite (x < 0))"
| "fdiv (Finite x) (Infinite s) = Finite 0"
| "fdiv (Infinite s) (Finite y) = Infinite (s \<noteq> (y < 0))"
| "fdiv x y = NotANumber"

definition toward_zero :: "rat \<Rightarrow> int" where
  "toward_zero q = (if 0 \<le> q then \<lfloor>q\<rfloor> else \<lceil>q\<rceil>)"

text \<open>
  The conversion to \<open>int64\<close>. For a value that does not fit the language leaves the result to the
  implementation: the argument \<open>conv\<close>.
\<close>

definition to_int64 :: "(float64 \<Rightarrow> int) \<Rightarrow> float64 \<Rightarrow> int" where
  "to_int64 conv x =
     (case x of
        Finite q \<Rightarrow> if - (2 ^ 63) \<le> toward_zero q \<and> toward_zero q < 2 ^ 63 then toward_zero q else conv x
      | _ \<Rightarrow> conv x)"

section \<open>Parsing\<close>

definition hex_digit_value :: "char \<Rightarrow> nat option" where
  "hex_digit_value c =
     (if is_digit c then Some (digit_value c)
      else if 97 \<le> (of_char (lower_char c) :: nat) \<and> (of_char (lower_char c) :: nat) \<le> 102
      then Some (of_char (lower_char c) - 87) else None)"

definition digit_in :: "bool \<Rightarrow> char \<Rightarrow> nat option" where
  "digit_in hex c = (if hex then hex_digit_value c else if is_digit c then Some (digit_value c) else None)"

text \<open>
  The mantissa: its digits as one number, how many of them stand behind the point, whether there was a
  digit, and the rest.
\<close>

fun read_mantissa :: "bool \<Rightarrow> nat \<Rightarrow> nat option \<Rightarrow> bool \<Rightarrow> string \<Rightarrow> nat \<times> nat \<times> bool \<times> string" where
  "read_mantissa hex m places any [] = (m, case_option 0 id places, any, [])"
| "read_mantissa hex m places any (c # s) =
     (if c = CHR ''_'' then read_mantissa hex m places any s
      else if c = CHR ''.'' \<and> places = None then read_mantissa hex m (Some 0) any s
      else case digit_in hex c of
        Some d \<Rightarrow> read_mantissa hex (m * (if hex then 16 else 10) + d) (map_option Suc places) True s
      | None \<Rightarrow> (m, case_option 0 id places, any, c # s))"

text \<open>The digits of an exponent; beyond five they are skipped.\<close>

fun read_exponent :: "nat \<Rightarrow> string \<Rightarrow> nat \<times> string" where
  "read_exponent e [] = (e, [])"
| "read_exponent e (c # s) =
     (if c = CHR ''_'' then read_exponent e s
      else if is_digit c then read_exponent (if e < 10000 then e * 10 + digit_value c else e) s
      else (e, c # s))"

text \<open>The optional exponent after a mantissa; a hexadecimal number must have one.\<close>

definition exponent_part :: "bool \<Rightarrow> string \<Rightarrow> (int \<times> string) option" where
  "exponent_part hex s =
     (if s \<noteq> [] \<and> lower_char (hd s) = (if hex then CHR ''p'' else CHR ''e'') then
        let t = tl s; neg = (t \<noteq> [] \<and> hd t = CHR ''-'');
            u = (if t \<noteq> [] \<and> hd t \<in> {CHR ''+'', CHR ''-''} then tl t else t)
        in if u = [] \<or> \<not> is_digit (hd u) then None
           else case read_exponent 0 u of (e, r) \<Rightarrow> Some (if neg then - int e else int e, r)
      else if hex then None else Some (0, s))"

text \<open>Underscores separate digits; a base prefix counts as a digit.\<close>

fun underscores_between :: "bool \<Rightarrow> char \<Rightarrow> string \<Rightarrow> bool" where
  "underscores_between hex saw [] = (saw \<noteq> CHR ''_'')"
| "underscores_between hex saw (c # s) =
     (if digit_in hex c \<noteq> None then underscores_between hex (CHR ''0'') s
      else if c = CHR ''_'' then saw = CHR ''0'' \<and> underscores_between hex (CHR ''_'') s
      else saw \<noteq> CHR ''_'' \<and> underscores_between hex (CHR ''!'') s)"

definition unsigned :: "string \<Rightarrow> string" where
  "unsigned s = (if s \<noteq> [] \<and> hd s \<in> {CHR ''+'', CHR ''-''} then tl s else s)"

definition underscoreOK :: "string \<Rightarrow> bool" where
  "underscoreOK s =
     (let t = unsigned s in
      if 2 \<le> length t \<and> hd t = CHR ''0'' \<and> lower_char (t ! 1) \<in> {CHR ''b'', CHR ''o'', CHR ''x''}
      then underscores_between (lower_char (t ! 1) = CHR ''x'') (CHR ''0'') (drop 2 t)
      else underscores_between False (CHR ''^'') t)"

definition hex_prefix :: "string \<Rightarrow> bool" where
  "hex_prefix t \<longleftrightarrow> 2 < length t \<and> hd t = CHR ''0'' \<and> lower_char (t ! 1) = CHR ''x''"

definition read_float :: "string \<Rightarrow> rat option" where
  "read_float s =
     (let t = unsigned s; hex = hex_prefix t;
          (m, places, any, r) = read_mantissa hex 0 None False (if hex then drop 2 t else t)
      in if \<not> any then None
         else case exponent_part hex r of
           Some (e, []) \<Rightarrow>
             if CHR ''_'' \<in> set s \<and> \<not> underscoreOK s then None
             else let v = of_nat m * (if hex then pow2 (e - 4 * int places)
                          else if 0 \<le> e then 10 ^ nat e / 10 ^ places else 1 / 10 ^ (nat (- e) + places))
               in Some (if s \<noteq> [] \<and> hd s = CHR ''-'' then - v else v)
         | _ \<Rightarrow> None)"

text \<open>A number out of range is an error; the text of the error is not used.\<close>

definition ParseFloat :: "string \<Rightarrow> float64 option" where
  "ParseFloat s =
     (if map lower_char (unsigned s) \<in> {''inf'', ''infinity''} then Some (Infinite (s \<noteq> [] \<and> hd s = CHR ''-''))
      else if map lower_char s = ''nan'' then Some NotANumber
      else case read_float s of
        None \<Rightarrow> None
      | Some q \<Rightarrow> (case round64 q of Finite x \<Rightarrow> Some (Finite x) | _ \<Rightarrow> None))"

section \<open>Powers of two\<close>

lemma pow2_pos [simp]: "0 < pow2 k"
  by (simp add: pow2_def)

lemma pow2_nonzero [simp]: "pow2 k \<noteq> 0"
  using pow2_pos [of k] by (simp del: pow2_pos)

lemma pow2_powi: "pow2 k = 2 powi k"
  by (simp add: pow2_def power_int_def field_simps)

lemma pow2_add: "pow2 (j + k) = pow2 j * pow2 k"
  by (simp add: pow2_powi power_int_add)

lemma pow2_nat [simp]: "pow2 (int n) = 2 ^ n"
  by (simp add: pow2_def)

lemma pow2_less_iff [simp]: "pow2 j < pow2 k \<longleftrightarrow> j < k"
proof -
  have "pow2 j < pow2 k" if "j < k" for j k using that by (simp add: pow2_powi power_int_strict_increasing)
  then show ?thesis by (metis less_asym less_linear order_less_irrefl)
qed

lemma pow2_le_iff [simp]: "pow2 j \<le> pow2 k \<longleftrightarrow> j \<le> k"
  using pow2_less_iff [of k j] by (simp add: not_less [symmetric] del: pow2_less_iff)

section \<open>Rounding\<close>

lemma quotient_of_pos:
  assumes "quotient_of q = (a, b)" and "0 < q"
  shows "0 < a" and "0 < b" and "q = of_int a / of_int b"
proof -
  show b: "0 < b" by (rule quotient_of_denom_pos [OF assms(1)])
  show q: "q = of_int a / of_int b" by (rule quotient_of_div [OF assms(1)])
  show "0 < a" using assms(2) b by (simp add: q zero_less_divide_iff)
qed

lemma bitlen_pow2:
  assumes "0 < (a :: int)"
  shows "pow2 (bitlen a - 1) \<le> of_int a" and "of_int a < pow2 (bitlen a)"
proof -
  have pos: "1 \<le> bitlen a" using assms bitlen_nonneg [of a] bitlen_eq_zero_iff [of a] by linarith
  have bd: "2 ^ nat (bitlen a - 1) \<le> a" "a < 2 ^ nat (bitlen a)" using bitlen_bounds [OF assms] by simp_all
  have "pow2 (bitlen a - 1) = of_int (2 ^ nat (bitlen a - 1))" "pow2 (bitlen a) = of_int (2 ^ nat (bitlen a))"
    using pos by (simp_all add: pow2_def)
  then show "pow2 (bitlen a - 1) \<le> of_int a" and "of_int a < pow2 (bitlen a)" using bd by (metis of_int_le_iff, metis of_int_less_iff)
qed

lemma exponent2_bounds:
  assumes "0 < q"
  shows "pow2 (exponent2 q) \<le> q" and "q < pow2 (exponent2 q + 1)"
proof -
  obtain a b where ab: "quotient_of q = (a, b)" by fastforce
  note p = quotient_of_pos [OF ab assms]
  let ?k = "bitlen a - bitlen b"
  have b: "of_int b < pow2 (bitlen b)" "pow2 (bitlen b - 1) \<le> of_int b" "0 < (of_int b :: rat)"
    using bitlen_pow2 [OF p(2)] p(2) by simp_all
  have a: "pow2 (bitlen a - 1) \<le> of_int a" "of_int a < pow2 (bitlen a)" using bitlen_pow2 [OF p(1)] .
  have "pow2 (?k - 1) * of_int b \<le> pow2 (?k - 1) * pow2 (bitlen b)" using b(1) by (simp add: mult_left_mono)
  also have "\<dots> = pow2 (bitlen a - 1)" by (simp add: pow2_add [symmetric])
  finally have lo: "pow2 (?k - 1) \<le> q" using a(1) b(3) by (simp add: p(3) pos_le_divide_eq)
  have "of_int a < pow2 (?k + 1) * pow2 (bitlen b - 1)" using a(2) by (simp add: pow2_add [symmetric])
  also have "\<dots> \<le> pow2 (?k + 1) * of_int b" using b(2) by (simp add: mult_left_mono)
  finally have hi: "q < pow2 (?k + 1)" using b(3) by (simp add: p(3) pos_divide_less_eq)
  show "pow2 (exponent2 q) \<le> q" and "q < pow2 (exponent2 q + 1)"
    using lo hi by (auto simp: exponent2_def ab Let_def)
qed

lemma round_even_int [simp]: "round_even (of_int n) = n"
  by (simp add: round_even_def)

lemma round_even_ge: "of_int n \<le> q \<Longrightarrow> n \<le> round_even q"
  by (simp add: round_even_def Let_def le_floor_iff) (metis le_floor_iff le_add_same_cancel1 zle_add1_eq_le add_increasing2 zero_le_one)

lemma round64_keeps:
  assumes "of_int n * last_place \<bar>q\<bar> = \<bar>q\<bar>" and "\<bar>q\<bar> < pow2 1024"
  shows "round64 q = Finite q"
proof -
  have "\<bar>q\<bar> / last_place \<bar>q\<bar> = of_int n"
    using assms(1) by (metis last_place_def nonzero_eq_divide_eq pow2_nonzero)
  then have e: "of_int (round_even (\<bar>q\<bar> / last_place \<bar>q\<bar>)) * last_place \<bar>q\<bar> = \<bar>q\<bar>" using assms(1) by simp
  show ?thesis by (simp only: round64_def Let_def e assms(2) if_True) (simp add: abs_if)
qed

text \<open>A number with at most 53 significant bits is kept.\<close>

lemma round64_exact:
  assumes "\<bar>m\<bar> < 2 ^ 53" and "k \<le> 900"
  shows "round64 (of_int m * 2 ^ k) = Finite (of_int m * 2 ^ k)"
proof (cases "m = 0")
  case False
  let ?q = "of_int m * 2 ^ k :: rat" and ?a = "of_int \<bar>m\<bar> * 2 ^ k :: rat"
  have abs: "\<bar>?q\<bar> = ?a" by (simp add: abs_mult)
  have pos: "0 < ?a" using False by simp
  have m: "of_int \<bar>m\<bar> < (2 ^ 53 :: rat)" using assms(1) by (metis of_int_less_iff of_int_numeral of_int_power)
  have "?a < 2 ^ 53 * 2 ^ k" using m by simp
  also have "\<dots> = pow2 (int (53 + k))" by (simp only: pow2_nat power_add)
  finally have a: "?a < pow2 (int (53 + k))" .
  have "exponent2 ?a < int (53 + k)" using exponent2_bounds(1) [OF pos] a by (metis le_less_trans pow2_less_iff)
  define j where "j = max (exponent2 ?a - 52) (- 1074)"
  have j: "j \<le> int k" using \<open>exponent2 ?a < int (53 + k)\<close> by (simp add: j_def)
  have "?a / pow2 j = of_int (\<bar>m\<bar> * 2 ^ nat (int k - j))"
  proof -
    have "(2 :: rat) ^ k = pow2 (int k - j) * pow2 j" by (simp add: pow2_add [symmetric])
    moreover have "pow2 (int k - j) = 2 ^ nat (int k - j)" using j by (simp add: pow2_def)
    ultimately show ?thesis by simp
  qed
  then have "of_int (\<bar>m\<bar> * 2 ^ nat (int k - j)) * last_place \<bar>?q\<bar> = \<bar>?q\<bar>"
    by (simp only: abs last_place_def j_def [symmetric]) (metis nonzero_eq_divide_eq pow2_nonzero)
  moreover have "pow2 (int (53 + k)) \<le> pow2 1024" using assms(2) by (simp del: pow2_nat)
  then have "\<bar>?q\<bar> < pow2 1024" using a by (simp only: abs)
  ultimately show ?thesis by (rule round64_keeps)
qed (simp add: round64_def)

text \<open>Rounding does not fall below a power of two.\<close>

lemma round64_ge:
  assumes "pow2 (int k) \<le> q"
  shows "\<exists>x. (round64 q = Finite x \<and> pow2 (int k) \<le> x) \<or> round64 q = Infinite False"
proof -
  have pos: "0 < q" using assms pow2_pos [of "int k"] by linarith
  let ?e = "exponent2 q" and ?u = "last_place \<bar>q\<bar>"
  have "pow2 (int k) < pow2 (?e + 1)" using exponent2_bounds(2) [OF pos] assms by linarith
  then have e: "int k \<le> ?e" by (simp del: pow2_nat)
  then have u: "?u = pow2 (?e - 52)" using pos by (simp add: last_place_def)
  have "pow2 52 * ?u \<le> q" using exponent2_bounds(1) [OF pos] by (simp add: u pow2_add [symmetric])
  then have "of_int (2 ^ 52) \<le> q / ?u" by (simp add: u pos_le_divide_eq pow2_def)
  then have "2 ^ 52 \<le> round_even (q / ?u)" by (rule round_even_ge)
  then have "of_int (2 ^ 52) * ?u \<le> of_int (round_even (q / ?u)) * ?u"
    by (intro mult_right_mono) (simp_all only: of_int_le_iff u less_imp_le [OF pow2_pos])
  moreover have "of_int (2 ^ 52) * ?u = pow2 ?e"
  proof -
    have "pow2 52 = of_int (2 ^ 52)" by (simp add: pow2_def)
    then show ?thesis using pow2_add [of 52 "?e - 52"] by (simp add: u)
  qed
  moreover have "pow2 (int k) \<le> pow2 ?e" using e by (simp only: pow2_le_iff)
  ultimately have "pow2 (int k) \<le> of_int (round_even (q / ?u)) * ?u" by linarith
  then show ?thesis using pos by (simp add: round64_def Let_def)
qed

section \<open>Plain decimal numbers\<close>

lemma digit_not_special:
  assumes "is_digit c"
  shows "c \<notin> {CHR ''_'', CHR ''.'', CHR ''+'', CHR ''-'', CHR ''i'', CHR ''n'', CHR ''x''}" and "lower_char c = c"
  using assms by (auto simp: is_digit_def lower_char_def is_upper_def)

lemma read_mantissa_digits:
  "list_all is_digit s \<Longrightarrow>
     read_mantissa False m None any s = (foldl (\<lambda>acc c. acc * 10 + digit_value c) m s, 0, any \<or> s \<noteq> [], [])"
proof (induction s arbitrary: m any)
  case (Cons c s)
  then have "is_digit c" "list_all is_digit s" by simp_all
  then show ?case using Cons.IH digit_not_special(1) [of c] by (simp add: digit_in_def)
qed simp

lemma digits_unsigned: "list_all is_digit s \<Longrightarrow> unsigned s = s"
  using digit_not_special(1) by (cases s) (auto simp: unsigned_def)

lemma read_float_digits:
  assumes "list_all is_digit s" and "s \<noteq> []"
  shows "read_float s = Some (of_nat (dec_value s))"
proof -
  have d: "is_digit c" if "c \<in> set s" for c using assms(1) that by (simp add: list_all_iff)
  have "\<not> hex_prefix s"
    using digit_not_special [OF d [OF nth_mem, of 1]] by (auto simp: hex_prefix_def)
  moreover have "CHR ''_'' \<notin> set s" "hd s \<noteq> CHR ''-''"
    using digit_not_special(1) [OF d] assms(2) hd_in_set by blast+
  ultimately show ?thesis
    using assms(2) by (simp add: read_float_def digits_unsigned [OF assms(1)] Let_def
      read_mantissa_digits [OF assms(1)] exponent_part_def dec_value_def)
qed

lemma ParseFloat_digits:
  assumes "list_all is_digit s" and "s \<noteq> []" and "dec_value s < 2 ^ 53"
  shows "ParseFloat s = Some (Finite (of_nat (dec_value s)))"
proof -
  have low: "map lower_char s = s"
    using assms(1) digit_not_special(2) by (simp add: list_all_iff map_idI)
  have "is_digit (hd s)" using assms(1,2) by (simp add: list_all_iff)
  then have "s \<notin> {''inf'', ''infinity'', ''nan''}" using digit_not_special(1) by fastforce
  moreover have "round64 (of_int (int (dec_value s)) * 2 ^ 0) = Finite (of_int (int (dec_value s)) * 2 ^ 0)"
    by (rule round64_exact) (use assms(3) in simp_all)
  then have "round64 (of_nat (dec_value s)) = Finite (of_nat (dec_value s))" by simp
  ultimately show ?thesis
    by (simp add: ParseFloat_def digits_unsigned [OF assms(1)] low read_float_digits [OF assms(1,2)])
qed

end
