(* ===== verification/Go_Time.thy ===== *)
theory Go_Time
  imports Go_Float Go_Json
begin

text \<open>
  \<open>time.ParseDuration\<close>: a sign and a sequence of decimal numbers with units. Its \<open>uint64\<close>
  variables are naturals below \<open>2 ^ 64\<close>; only the running sum can wrap around.
\<close>

section \<open>Quoting\<close>

text \<open>\<open>quote\<close> of package \<open>time\<close>: every byte outside printable ASCII becomes a hexadecimal escape.\<close>

definition time_quote :: "string \<Rightarrow> string" where
  "time_quote s =
     CHR 0x22 # concat (map (\<lambda>c.
       if 128 \<le> (of_char c :: nat) \<or> (of_char c :: nat) < 32
       then [CHR 0x5C, CHR ''x'', hex_digit (of_char c div 16), hex_digit (of_char c mod 16)]
       else if c \<in> {CHR 0x22, CHR 0x5C} then [CHR 0x5C, c] else [c]) s) @ [CHR 0x22]"

section \<open>The numbers\<close>

fun leadingInt :: "nat \<Rightarrow> string \<Rightarrow> (nat \<times> string) option" where
  "leadingInt x [] = Some (x, [])"
| "leadingInt x (c # s) =
     (if \<not> is_digit c then Some (x, c # s)
      else if x > 2 ^ 63 div 10 then None
      else if x * 10 + digit_value c > 2 ^ 63 then None
      else leadingInt (x * 10 + digit_value c) s)"

text \<open>The digits after the point as a number and the power of ten to divide by; digits too many are dropped.\<close>

fun leadingFraction :: "nat \<Rightarrow> float64 \<Rightarrow> bool \<Rightarrow> string \<Rightarrow> nat \<times> float64 \<times> string" where
  "leadingFraction x scale overflow [] = (x, scale, [])"
| "leadingFraction x scale overflow (c # s) =
     (if \<not> is_digit c then (x, scale, c # s)
      else if overflow \<or> x > (2 ^ 63 - 1) div 10 \<or> x * 10 + digit_value c > 2 ^ 63 then leadingFraction x scale True s
      else leadingFraction (x * 10 + digit_value c) (fmul scale (Finite 10)) False s)"

definition unitMap :: "(string \<times> nat) list" where
  "unitMap =
     [(''ns'', 1), (''us'', 1000), ([CHR 0xC2, CHR 0xB5, CHR ''s''], 1000),
      ([CHR 0xCE, CHR 0xBC, CHR ''s''], 1000), (''ms'', 1000000), (''s'', 1000000000),
      (''m'', 60000000000), (''h'', 3600000000000)]"

definition number_start :: "char \<Rightarrow> bool" where
  "number_start c \<longleftrightarrow> c = CHR ''.'' \<or> is_digit c"

text \<open>What the fraction adds: three roundings, then the conversion to \<open>uint64\<close>.\<close>

definition fraction_of_unit :: "nat \<Rightarrow> float64 \<Rightarrow> nat \<Rightarrow> nat" where
  "fraction_of_unit f scale unit =
     (case fmul (round64 (of_nat f)) (fdiv (Finite (of_nat unit)) scale) of
        Finite q \<Rightarrow> nat (toward_zero q) | _ \<Rightarrow> 0)"

definition fraction_part :: "string \<Rightarrow> nat \<times> float64 \<times> string \<times> bool" where
  "fraction_part s =
     (if s \<noteq> [] \<and> hd s = CHR ''.'' then
        (case leadingFraction 0 (Finite 1) False (tl s) of
           (f, scale, r) \<Rightarrow> (f, scale, r, length r \<noteq> length (tl s)))
      else (0, Finite 1, s, False))"

text \<open>The unit after a number, and the number in nanoseconds; \<open>orig\<close> is the whole text, for the error.\<close>

definition duration_unit :: "string \<Rightarrow> nat \<Rightarrow> nat \<Rightarrow> float64 \<Rightarrow> string \<Rightarrow> go_error + nat \<times> string" where
  "duration_unit orig v f scale s =
     (let invalid = Inl (''time: invalid duration '' @ time_quote orig);
          u = takeWhile (\<lambda>c. \<not> number_start c) s; r = dropWhile (\<lambda>c. \<not> number_start c) s
      in if u = [] then Inl (''time: missing unit in duration '' @ time_quote orig)
         else case map_of unitMap u of
           None \<Rightarrow> Inl (''time: unknown unit '' @ time_quote u @ '' in duration '' @ time_quote orig)
         | Some unit \<Rightarrow>
             if v > 2 ^ 63 div unit then invalid
             else if f > 0 then
               (let w = v * unit + fraction_of_unit f scale unit in if w > 2 ^ 63 then invalid else Inr (w, r))
             else Inr (v * unit, r))"

definition duration_term :: "string \<Rightarrow> string \<Rightarrow> go_error + nat \<times> string" where
  "duration_term orig s =
     (let invalid = Inl (''time: invalid duration '' @ time_quote orig) in
      if s = [] \<or> \<not> number_start (hd s) then invalid
      else case leadingInt 0 s of
        None \<Rightarrow> invalid
      | Some (v, s1) \<Rightarrow>
          (case fraction_part s1 of
             (f, scale, s2, post) \<Rightarrow>
               if length s1 = length s \<and> \<not> post then invalid else duration_unit orig v f scale s2))"

lemma leadingInt_length: "leadingInt x s = Some (v, r) \<Longrightarrow> length r \<le> length s"
  by (induction x s rule: leadingInt.induct) (auto split: if_splits)

lemma leadingFraction_length: "leadingFraction x sc ov s = (f, sc', r) \<Longrightarrow> length r \<le> length s"
  by (induction x sc ov s rule: leadingFraction.induct) (auto split: if_splits)

lemma fraction_part_length: "fraction_part s = (f, sc, r, post) \<Longrightarrow> length r \<le> length s"
  using leadingFraction_length [of 0 "Finite 1" False "tl s"]
  by (fastforce simp: fraction_part_def split: if_splits prod.splits)

lemma duration_unit_shorter: "duration_unit orig v f sc s = Inr (w, r) \<Longrightarrow> length r < length s"
proof -
  assume a: "duration_unit orig v f sc s = Inr (w, r)"
  have "takeWhile (\<lambda>c. \<not> number_start c) s \<noteq> []"
    using a by (rule contrapos_pn) (simp add: duration_unit_def Let_def del: takeWhile_eq_Nil_iff)
  moreover have "r = dropWhile (\<lambda>c. \<not> number_start c) s"
    using a unfolding duration_unit_def Let_def by (simp split: if_split_asm option.split_asm del: takeWhile_eq_Nil_iff)
  moreover have "length (takeWhile (\<lambda>c. \<not> number_start c) s) + length (dropWhile (\<lambda>c. \<not> number_start c) s) = length s"
    by (simp only: length_append [symmetric] takeWhile_dropWhile_id)
  ultimately show ?thesis by (simp only: length_greater_0_conv [symmetric])
qed

lemma duration_term_shorter:
  assumes "duration_term orig s = Inr (v, r)"
  shows "length r < length s"
proof -
  obtain v0 s1 where lead: "leadingInt 0 s = Some (v0, s1)"
    using assms by (auto simp: duration_term_def Let_def split: if_splits option.splits)
  obtain f sc s2 post where part: "fraction_part s1 = (f, sc, s2, post)" by (cases "fraction_part s1")
  have "duration_unit orig v0 f sc s2 = Inr (v, r)"
    using assms by (simp add: duration_term_def lead part Let_def split: if_splits)
  then show ?thesis
    using leadingInt_length [OF lead] fraction_part_length [OF part] duration_unit_shorter by fastforce
qed

function duration_terms :: "string \<Rightarrow> nat \<Rightarrow> string \<Rightarrow> go_error + nat" where
  "duration_terms orig d s =
     (if s = [] then Inr d
      else case duration_term orig s of
        Inl e \<Rightarrow> Inl e
      | Inr (v, r) \<Rightarrow>
          let d' = (d + v) mod 2 ^ 64 in
          if d' > 2 ^ 63 then Inl (''time: invalid duration '' @ time_quote orig) else duration_terms orig d' r)"
  by pat_completeness auto
termination
  by (relation "measure (\<lambda>(orig, d, s). length s)") (auto dest: duration_term_shorter)

declare duration_terms.simps [simp del]

definition ParseDuration :: "string \<Rightarrow> go_error + int" where
  "ParseDuration orig =
     (let neg = (orig \<noteq> [] \<and> hd orig = CHR ''-''); s = unsigned orig;
          invalid = Inl (''time: invalid duration '' @ time_quote orig)
      in if s = ''0'' then Inr 0
         else if s = [] then invalid
         else case duration_terms orig 0 s of
           Inl e \<Rightarrow> Inl e
         | Inr d \<Rightarrow> if neg then Inr (- int d) else if d > 2 ^ 63 - 1 then invalid else Inr (int d))"

section \<open>A whole number of one unit\<close>

text \<open>\<open>leadingInt\<close> reads digits exactly, and refuses numbers beyond \<open>2 ^ 63\<close>.\<close>

lemma foldl_digits_ge: "(m :: nat) \<le> foldl (\<lambda>acc c. acc * 10 + digit_value c) m s"
proof (induction s arbitrary: m)
  case (Cons c s)
  have "m \<le> m * 10 + digit_value c" by simp
  also have "\<dots> \<le> foldl (\<lambda>acc c. acc * 10 + digit_value c) (m * 10 + digit_value c) s" by (rule Cons.IH)
  finally show ?case by simp
qed simp

lemma leadingInt_digits:
  assumes "list_all is_digit s" and "r = [] \<or> \<not> is_digit (hd r)" and "m \<le> 9223372036854775808"
  shows "leadingInt m (s @ r) =
    (if 9223372036854775808 < foldl (\<lambda>acc c. acc * 10 + digit_value c) m s then None
     else Some (foldl (\<lambda>acc c. acc * 10 + digit_value c) m s, r))"
  using assms(1,3)
proof (induction s arbitrary: m)
  case Nil
  then show ?case using assms(2) by (cases r) auto
next
  case (Cons c s)
  let ?m = "m * 10 + digit_value c"
  show ?case
  proof (cases "9223372036854775808 < ?m")
    case True
    then show ?thesis using foldl_digits_ge [of ?m s] Cons.prems by simp
  next
    case False
    then have "\<not> 922337203685477580 < m" by linarith
    then show ?thesis using Cons.IH [of ?m] Cons.prems False by simp
  qed
qed

lemma leadingInt_show_nat:
  assumes "r = [] \<or> \<not> is_digit (hd r)"
  shows "leadingInt 0 (show_nat n @ r) = (if 2 ^ 63 < n then None else Some (n, r))"
proof -
  have "foldl (\<lambda>acc c. acc * 10 + digit_value c) 0 (show_nat n) = n"
    using dec_value_show_nat [of n] by (simp only: dec_value_def)
  then show ?thesis using leadingInt_digits [OF show_nat_digits assms, of 0 n] by simp
qed

text \<open>A number and a unit.\<close>

lemma ParseDuration_whole:
  assumes "map_of unitMap u = Some unit" and "list_all (\<lambda>c. \<not> number_start c) u" and "u \<noteq> []" and "0 < unit"
  shows "ParseDuration (show_nat n @ u) =
    (if n * unit < 2 ^ 63 then Inr (int (n * unit))
     else Inl (''time: invalid duration '' @ time_quote (show_nat n @ u)))"
proof -
  let ?s = "show_nat n @ u"
  have d: "is_digit (hd (show_nat n))" using show_nat_digits [of n] by (cases "show_nat n") (simp_all add: list_all_iff)
  have hd: "hd ?s \<notin> {CHR ''+'', CHR ''-''}" "number_start (hd ?s)" "?s \<noteq> []" 
    using d digit_not_special(1) [OF d] by (auto simp: number_start_def)
  have nu: "u = [] \<or> \<not> is_digit (hd u)" "hd u \<noteq> CHR ''.''"
    using assms(2,3) by (cases u; simp add: number_start_def)+
  have ns: "?s \<noteq> ''0''" using assms(3) by (cases "show_nat n") (auto simp: append_eq_Cons_conv)
  have un: "unsigned ?s = ?s" using hd by (simp add: unsigned_def)
  have tw: "takeWhile (\<lambda>c. \<not> number_start c) u = u" "dropWhile (\<lambda>c. \<not> number_start c) u = []"
    using assms(2) by (simp_all add: list_all_iff takeWhile_eq_all_conv)
  have dt: "duration_term ?s ?s = (if 2 ^ 63 < n \<or> 2 ^ 63 div unit < n
      then Inl (''time: invalid duration '' @ time_quote ?s) else Inr (n * unit, []))"
    using hd(2,3) nu assms(3)
    by (simp add: duration_term_def leadingInt_show_nat [OF nu(1)] fraction_part_def duration_unit_def tw assms(1) Let_def)
  have "2 ^ 63 < n \<or> 2 ^ 63 div unit < n \<longleftrightarrow> 2 ^ 63 < n * unit"
  proof -
    have "2 ^ 63 < n \<Longrightarrow> 2 ^ 63 < n * unit" using assms(4) by (metis less_le_trans mult.right_neutral mult_le_mono2 Suc_leI One_nat_def)
    then show ?thesis using div_less_iff_less_mult [OF assms(4), of "2 ^ 63" n] by blast
  qed
  with dt have dt: "duration_term ?s ?s =
      (if 2 ^ 63 < n * unit then Inl (''time: invalid duration '' @ time_quote ?s) else Inr (n * unit, []))" by simp
  have "duration_terms ?s 0 ?s =
      (if 2 ^ 63 < n * unit then Inl (''time: invalid duration '' @ time_quote ?s) else Inr (n * unit))"
    using hd(3) by (subst duration_terms.simps) (simp add: dt duration_terms.simps [of ?s _ "[]"] Let_def)
  moreover have "hd ?s \<noteq> CHR ''-''" using hd(1) by blast
  ultimately show ?thesis using ns hd(3) by (simp add: ParseDuration_def un Let_def)
qed

end
