(* ===== verification/Go_Flag.thy ===== *)
theory Go_Flag
  imports Go_Prelude
begin

text \<open>
  The command line of \<open>flag.Parse\<close>, for flags that take a value. A setter tells for a name which
  flag it is and how a text sets it; the values of all flags are one record of the program. \<open>Parse\<close>
  runs with \<open>ExitOnError\<close>: a request for help ends the process with code 0, an error with code 2.
\<close>

datatype flag_error =
    BadSyntax string
  | HelpWanted string
  | NotDefined string
  | NeedsArgument string
  | InvalidValue string string go_error

type_synonym 'v setter = "string \<Rightarrow> (string \<Rightarrow> 'v \<Rightarrow> go_error + 'v) option"

definition flag_exit :: "flag_error \<Rightarrow> int" where
  "flag_exit e = (case e of HelpWanted n \<Rightarrow> 0 | _ \<Rightarrow> 2)"

text \<open>The name after the minus signs, cut at the first equals sign that is not at its front.\<close>

definition flag_split :: "string \<Rightarrow> string \<times> string option" where
  "flag_split name =
     (if CHR ''='' \<in> set (tl name)
      then (hd name # takeWhile (\<lambda>c. c \<noteq> CHR ''='') (tl name), Some (tl (dropWhile (\<lambda>c. c \<noteq> CHR ''='') (tl name))))
      else (name, None))"

definition flag_name :: "string \<Rightarrow> string" where
  "flag_name s = (if s ! 1 = CHR ''-'' then drop 2 s else drop 1 s)"

text \<open>The values and the arguments that are left.\<close>

fun flag_parse :: "'v setter \<Rightarrow> string list \<Rightarrow> 'v \<Rightarrow> flag_error + 'v \<times> string list" where
  "flag_parse setter [] v = Inr (v, [])"
| "flag_parse setter (s # args) v =
     (if length s < 2 \<or> hd s \<noteq> CHR ''-'' then Inr (v, s # args)
      else if s = ''--'' then Inr (v, args)
      else if flag_name s = [] \<or> hd (flag_name s) \<in> {CHR ''-'', CHR ''=''} then Inl (BadSyntax s)
      else case flag_split (flag_name s) of
        (name, val) \<Rightarrow>
          (case setter name of
             None \<Rightarrow> Inl (if name \<in> {''help'', ''h''} then HelpWanted name else NotDefined name)
           | Some set_value \<Rightarrow>
               (case val of
                  Some value \<Rightarrow>
                    (case set_value value v of
                       Inl e \<Rightarrow> Inl (InvalidValue value name e)
                     | Inr v' \<Rightarrow> flag_parse setter args v')
                | None \<Rightarrow>
                    (case args of
                       [] \<Rightarrow> Inl (NeedsArgument name)
                     | value # args' \<Rightarrow>
                         (case set_value value v of
                            Inl e \<Rightarrow> Inl (InvalidValue value name e)
                          | Inr v' \<Rightarrow> flag_parse setter args' v')))))"

section \<open>Writing a command line\<close>

text \<open>A flag can be written with one minus or two, and its value after an equals sign or as the next argument.\<close>

definition write_flag :: "bool \<times> bool \<times> string \<times> string \<Rightarrow> string list" where
  "write_flag opt =
     (case opt of (double, equals, name, value) \<Rightarrow>
        let start = (if double then ''--'' else ''-'') @ name in
        if equals then [start @ CHR ''='' # value] else [start, value])"

text \<open>Names that read back as themselves.\<close>

definition plain_name :: "string \<Rightarrow> bool" where
  "plain_name n \<longleftrightarrow> n \<noteq> [] \<and> hd n \<noteq> CHR ''-'' \<and> CHR ''='' \<notin> set n"

text \<open>Setting flags one after the other.\<close>

fun set_flags :: "'v setter \<Rightarrow> (bool \<times> bool \<times> string \<times> string) list \<Rightarrow> 'v \<Rightarrow> flag_error + 'v" where
  "set_flags setter [] v = Inr v"
| "set_flags setter ((double, equals, name, value) # opts) v =
     (case setter name of
        None \<Rightarrow> Inl (if name \<in> {''help'', ''h''} then HelpWanted name else NotDefined name)
      | Some set_value \<Rightarrow>
          (case set_value value v of
             Inl e \<Rightarrow> Inl (InvalidValue value name e)
           | Inr v' \<Rightarrow> set_flags setter opts v'))"

text \<open>Arguments at which parsing stops.\<close>

definition no_flag :: "string list \<Rightarrow> bool" where
  "no_flag args \<longleftrightarrow> args = [] \<or> length (hd args) < 2 \<or> hd (hd args) \<noteq> CHR ''-''"

lemma flag_split_plain:
  assumes "plain_name n"
  shows "flag_split n = (n, None)" and "flag_split (n @ CHR ''='' # v) = (n, Some v)"
proof -
  obtain c s where n: "n = c # s" using assms by (cases n) (simp_all add: plain_name_def)
  have s: "CHR ''='' \<notin> set s" using assms by (simp add: n plain_name_def)
  have "takeWhile (\<lambda>c. c \<noteq> CHR ''='') (s @ CHR ''='' # v) = s" "dropWhile (\<lambda>c. c \<noteq> CHR ''='') (s @ CHR ''='' # v) = CHR ''='' # v"
    using s by (induction s) auto
  then show "flag_split n = (n, None)" and "flag_split (n @ CHR ''='' # v) = (n, Some v)"
    using s by (simp_all add: n flag_split_def)
qed

lemma flag_parse_write:
  assumes "plain_name name"
  shows "flag_parse setter (write_flag (double, equals, name, value) @ args) v =
    (case setter name of
       None \<Rightarrow> Inl (if name \<in> {''help'', ''h''} then HelpWanted name else NotDefined name)
     | Some set_value \<Rightarrow>
         (case set_value value v of Inl e \<Rightarrow> Inl (InvalidValue value name e) | Inr v' \<Rightarrow> flag_parse setter args v'))"
proof -
  obtain c s where n: "name = c # s" using assms by (cases name) (simp_all add: plain_name_def)
  have c: "c \<noteq> CHR ''-''" "c \<noteq> CHR ''=''" using assms by (auto simp: n plain_name_def)
  note sp = flag_split_plain [OF assms, unfolded n append_Cons]
  show ?thesis
    using c sp by (cases double; cases equals)
      (auto simp: n write_flag_def flag_name_def split: option.splits sum.splits)
qed

lemma flag_parse_written:
  assumes "\<forall>(double, equals, name, value) \<in> set opts. plain_name name" and "no_flag rest"
  shows "flag_parse setter (concat (map write_flag opts) @ rest) v = map_sum id (\<lambda>v. (v, rest)) (set_flags setter opts v)"
  using assms(1)
proof (induction opts arbitrary: v)
  case Nil
  then show ?case using assms(2) by (cases rest) (auto simp: no_flag_def)
next
  case (Cons o1 opts)
  obtain d e n x where o1: "o1 = (d, e, n, x)" by (metis prod_cases4)
  have pl: "plain_name n" using Cons.prems by (simp add: o1)
  show ?case
    using Cons by (simp add: o1 flag_parse_write [OF pl] split: option.splits sum.splits)
qed

end
