(* ===== verification/Command_Line.thy ===== *)
theory Command_Line
  imports Process Go_Time Go_Flag
begin

text \<open>
  The two command lines: the flags of \<open>cmd/server/main.go\<close> with the environment variable that
  overrides one of them, and \<open>pkg/token/main.go\<close>, the token generator.
\<close>

section \<open>The server\<close>

record server_flags =
  sf_config :: string
  sf_poll :: int

definition server_defaults :: server_flags where
  "server_defaults = \<lparr>sf_config = ''config/config.yaml'', sf_poll = 0\<rparr>"

definition server_setter :: "server_flags setter" where
  "server_setter name =
     (if name = ''config'' then Some (\<lambda>text f. Inr (f\<lparr>sf_config := text\<rparr>))
      else if name = ''poll-interval'' then
        Some (\<lambda>text f. case ParseDuration text of Inl e \<Rightarrow> Inl ''parse error'' | Inr d \<Rightarrow> Inr (f\<lparr>sf_poll := d\<rparr>))
      else None)"

definition poll_interval :: "int \<Rightarrow> string \<Rightarrow> int" where
  "poll_interval flag envPoll =
     (if envPoll \<noteq> '''' then (case ParseDuration envPoll of Inr d \<Rightarrow> d | Inl e \<Rightarrow> flag) else flag)"

datatype main_exit = FlagExit int | Fatal go_error

definition server_main ::
  "main_env \<Rightarrow> snapshot \<times> snapshot \<times> snapshot \<times> snapshot \<Rightarrow> go_error option \<Rightarrow> Metrics option \<Rightarrow>
     string list \<Rightarrow> main_exit + 'lim server \<times> 'lim server watcher option" where
  "server_main me fs fsnotify_err inst args =
     (case flag_parse server_setter args server_defaults of
        Inl e \<Rightarrow> Inl (FlagExit (flag_exit e))
      | Inr (f, _) \<Rightarrow>
          (case main_start me fs fsnotify_err (sf_config f)
              (poll_interval (sf_poll f) (env_getenv (me_conf me) ''CONFIG_POLL_INTERVAL'')) inst of
             Inl e \<Rightarrow> Inl (Fatal e)
           | Inr sw \<Rightarrow> Inr sw))"

section \<open>The token generator\<close>

definition parseDuration :: "(float64 \<Rightarrow> int) \<Rightarrow> string \<Rightarrow> go_error + int" where
  "parseDuration conv s =
     (if suffix ''d'' s then
        (case ParseFloat (butlast s) of
           None \<Rightarrow> Inl (''invalid duration: '' @ s)
         | Some days \<Rightarrow> Inr (to_int64 conv (fmul (fmul days (Finite 24)) (Finite (of_int (3600 * second))))))
      else ParseDuration s)"

record token_flags =
  tf_user :: string
  tf_email :: string
  tf_expire :: string
  tf_secret :: string

definition token_defaults :: token_flags where
  "token_defaults = \<lparr>tf_user = '''', tf_email = '''', tf_expire = ''24h'', tf_secret = ''''\<rparr>"

definition token_setter :: "token_flags setter" where
  "token_setter name =
     (if name = ''user'' then Some (\<lambda>text f. Inr (f\<lparr>tf_user := text\<rparr>))
      else if name = ''email'' then Some (\<lambda>text f. Inr (f\<lparr>tf_email := text\<rparr>))
      else if name = ''expire'' then Some (\<lambda>text f. Inr (f\<lparr>tf_expire := text\<rparr>))
      else if name = ''secret'' then Some (\<lambda>text f. Inr (f\<lparr>tf_secret := text\<rparr>))
      else None)"

text \<open>A token on the standard output, or an exit code with a message.\<close>

datatype token_exit = TokenOut string | TokenFail string | TokenUsage int

definition token_generate ::
  "jwt_lib \<Rightarrow> (float64 \<Rightarrow> int) \<Rightarrow> gotime \<Rightarrow> (string \<Rightarrow> string) \<Rightarrow> token_flags \<Rightarrow> token_exit" where
  "token_generate lib conv now getenv f =
     (if tf_user f = '''' then TokenFail ''Error: --user is required''
      else if tf_email f = '''' then TokenFail ''Error: --email is required''
      else case parseDuration conv (tf_expire f) of
        Inl e \<Rightarrow> TokenFail (''Error: invalid --expire value: '' @ e)
      | Inr expire \<Rightarrow>
          let jwtSecret = (if tf_secret f = '''' then getenv ''JWT_SECRET'' else tf_secret f) in
          if jwtSecret = '''' then TokenFail ''Error: --secret or JWT_SECRET env var is required''
          else case GenerateToken lib now (NewValidator jwtSecret) (tf_user f) (tf_email f) expire of
            Inl e \<Rightarrow> TokenFail (''Failed to generate token: '' @ e)
          | Inr token \<Rightarrow> TokenOut token)"

definition token_main ::
  "jwt_lib \<Rightarrow> (float64 \<Rightarrow> int) \<Rightarrow> gotime \<Rightarrow> (string \<Rightarrow> string) \<Rightarrow> string list \<Rightarrow> token_exit" where
  "token_main lib conv now getenv args =
     (case flag_parse token_setter args token_defaults of
        Inl e \<Rightarrow> TokenUsage (flag_exit e)
      | Inr (f, _) \<Rightarrow> token_generate lib conv now getenv f)"

section \<open>Lemmas\<close>

text \<open>A server that starts is a process of \<open>Process\<close>.\<close>

lemma server_main_process:
  assumes "server_main me (f1, f2, f3, f4) fe inst args = Inr sw"
  shows "\<exists>path rc. NewReloadableConfig (me_conf me) f1 f2 path = Inr rc \<and> process me tidb rc sw"
proof -
  obtain f rest where "flag_parse server_setter args server_defaults = Inr (f, rest)"
    using assms by (cases "flag_parse server_setter args server_defaults") (auto simp: server_main_def)
  then have st: "main_start me (f1, f2, f3, f4) fe (sf_config f)
      (poll_interval (sf_poll f) (env_getenv (me_conf me) ''CONFIG_POLL_INTERVAL'')) inst = Inr sw"
    using assms by (simp add: server_main_def split: sum.splits)
  then obtain rc where "NewReloadableConfig (me_conf me) f1 f2 (sf_config f) = Inr rc"
    by (auto simp: main_start_def split: sum.splits)
  with st show ?thesis by (blast intro: process.started)
qed

text \<open>Hours and days as texts.\<close>

lemma whole_hours:
  "parseDuration conv (show_nat n @ ''h'') =
    (if n * 3600000000000 < 2 ^ 63 then Inr (int n * 3600000000000)
     else Inl (''time: invalid duration '' @ time_quote (show_nat n @ ''h'')))"
proof -
  have "ParseDuration (show_nat n @ ''h'') = (if n * 3600000000000 < 2 ^ 63 then Inr (int (n * 3600000000000))
      else Inl (''time: invalid duration '' @ time_quote (show_nat n @ ''h'')))"
    by (rule ParseDuration_whole) (simp_all add: unitMap_def number_start_def is_digit_def)
  moreover have "\<not> suffix ''d'' (show_nat n @ ''h'')" by (simp add: suffix_def)
  ultimately show ?thesis by (simp add: parseDuration_def)
qed

lemma whole_days_product:
  assumes "n < 2 ^ 50"
  shows "parseDuration conv (show_nat n @ ''d'') = Inr (to_int64 conv (round64 (of_nat n * 86400000000000)))"
proof -
  have "of_int (int n * 3) * 2 ^ 3 = (of_nat n * 24 :: rat)" by simp
  then have "round64 (of_nat n * 24) = Finite (of_nat n * 24)"
    using round64_exact [of "int n * 3" 3] assms by (simp add: mult.commute [of "of_nat n" 24])
  moreover have "ParseFloat (show_nat n) = Some (Finite (of_nat n))"
    using ParseFloat_digits [OF show_nat_digits show_nat_nonempty, of n] assms by simp
  ultimately show ?thesis by (simp add: parseDuration_def mult.assoc)
qed

end
