(* ===== verification/Props_Command.thy ===== *)
theory Props_Command
  imports Command_Line
begin

text \<open>Properties of the two command lines.\<close>

section \<open>Flags\<close>

text \<open>The value of a flag: the last one written, or the default.\<close>

definition last_value :: "string \<Rightarrow> (bool \<times> bool \<times> string \<times> string) list \<Rightarrow> string \<Rightarrow> string" where
  "last_value name opts old = foldl (\<lambda>v (double, equals, n, x). if n = name then x else v) old opts"

lemma set_token_flags:
  "\<forall>(double, equals, name, value) \<in> set opts. name \<in> {''user'', ''email'', ''expire'', ''secret''} \<Longrightarrow>
     set_flags token_setter opts f = Inr \<lparr>tf_user = last_value ''user'' opts (tf_user f),
       tf_email = last_value ''email'' opts (tf_email f), tf_expire = last_value ''expire'' opts (tf_expire f),
       tf_secret = last_value ''secret'' opts (tf_secret f)\<rparr>"
proof (induction opts arbitrary: f)
  case Nil
  then show ?case by (simp add: last_value_def)
next
  case (Cons o1 opts)
  obtain d e n x where o1: "o1 = (d, e, n, x)" by (metis prod_cases4)
  have "n \<in> {''user'', ''email'', ''expire'', ''secret''}" using Cons.prems by (simp add: o1)
  then show ?case using Cons by (auto simp: o1 token_setter_def last_value_def)
qed

text \<open>
C35. However the flags of the token generator are written (one minus or two, the value after an equals
sign or as the next argument, in any order, repeated or left out), the program runs with the last value
given for each flag or its default, whatever characters the values have.
\<close>

theorem token_flags_read_back:
  assumes "\<forall>(double, equals, name, value) \<in> set opts. name \<in> {''user'', ''email'', ''expire'', ''secret''}"
    and "no_flag rest"
  shows "token_main lib conv now getenv (concat (map write_flag opts) @ rest) =
    token_generate lib conv now getenv
      \<lparr>tf_user = last_value ''user'' opts '''', tf_email = last_value ''email'' opts '''',
       tf_expire = last_value ''expire'' opts ''24h'', tf_secret = last_value ''secret'' opts ''''\<rparr>"
proof -
  have "\<forall>(double, equals, name, value) \<in> set opts. plain_name name"
    using assms(1) by (auto simp: plain_name_def)
  from flag_parse_written [OF this assms(2), of token_setter token_defaults]
  show ?thesis by (simp add: token_main_def set_token_flags [OF assms(1)]) (simp add: token_defaults_def)
qed

lemma unknown_unit:
  "ParseDuration ''36x'' = Inl (''time: unknown unit '' @ time_quote ''x'' @ '' in duration '' @ time_quote ''36x'')"
  by (simp add: ParseDuration_def unsigned_def duration_terms.simps duration_term_def number_start_def is_digit_def
      fraction_part_def duration_unit_def unitMap_def digit_value_def Let_def)

theorem token_flags_read_back_witness:
  "\<forall>lib conv now. token_main lib conv now (\<lambda>_. ''k'')
      [''--user'', ''-u'', ''-email=a=b'', ''--user=v'', ''--expire'', ''36x'', ''extra'', ''-secret''] =
    TokenFail (''Error: invalid --expire value: time: unknown unit '' @ time_quote ''x'' @ '' in duration '' @ time_quote ''36x'')"
proof (intro allI)
  fix lib conv now
  have "token_main lib conv now (\<lambda>_. ''k'')
      (concat (map write_flag [(True, False, ''user'', ''-u''), (False, True, ''email'', ''a=b''),
         (True, True, ''user'', ''v''), (True, False, ''expire'', ''36x'')]) @ [''extra'', ''-secret'']) =
    token_generate lib conv now (\<lambda>_. ''k'') \<lparr>tf_user = ''v'', tf_email = ''a=b'', tf_expire = ''36x'', tf_secret = ''''\<rparr>"
    by (subst token_flags_read_back) (simp_all add: no_flag_def last_value_def)
  moreover have "\<not> suffix ''d'' ''36x''" by (simp add: suffix_def)
  ultimately show "token_main lib conv now (\<lambda>_. ''k'')
      [''--user'', ''-u'', ''-email=a=b'', ''--user=v'', ''--expire'', ''36x'', ''extra'', ''-secret''] =
    TokenFail (''Error: invalid --expire value: time: unknown unit '' @ time_quote ''x'' @ '' in duration '' @ time_quote ''36x'')"
    by (simp add: write_flag_def token_generate_def parseDuration_def unknown_unit)
qed

text \<open>
C36. A number of days is that number of times 24 hours, exactly and despite the detour over floating
point, as long as the duration fits its type, for every number below 2^50. Beyond 106751 days the same number of hours is refused,
while the days are accepted and the language leaves open what lifetime the token has.
\<close>

theorem days_are_hours:
  assumes "n < 2 ^ 50"
  shows "if n \<le> 106751
    then parseDuration conv (show_nat n @ ''d'') = Inr (int n * 24 * (3600 * second)) \<and>
         parseDuration conv (show_nat (24 * n) @ ''h'') = Inr (int n * 24 * (3600 * second))
    else (\<exists>e. parseDuration conv (show_nat (24 * n) @ ''h'') = Inl e) \<and>
         (\<exists>x. \<forall>conv. parseDuration conv (show_nat n @ ''d'') = Inr (conv x))"
proof (cases "n \<le> 106751")
  case True
  have "of_int (int n * 1318359375) * 2 ^ 16 = (of_nat n * 86400000000000 :: rat)" by simp
  then have "round64 (of_nat n * 86400000000000) = Finite (of_nat n * 86400000000000)"
    using round64_exact [of "int n * 1318359375" 16] True by (simp add: mult.commute [of "of_nat n"])
  moreover have "(of_nat n * 86400000000000 :: rat) = of_int (int n * 86400000000000)" by simp
  then have "toward_zero (of_nat n * 86400000000000) = int n * 86400000000000"
    by (simp only: toward_zero_def floor_of_int ceiling_of_int if_cancel)
  ultimately have "to_int64 conv (round64 (of_nat n * 86400000000000)) = int n * 86400000000000"
    using True by (simp add: to_int64_def)
  then show ?thesis
    using True whole_days_product [OF assms, of conv] whole_hours [of conv "24 * n"] by simp
next
  case False
  have "pow2 (int 63) \<le> of_nat n * 86400000000000" 
  proof -
    have "2 ^ 63 \<le> n * 86400000000000" using False by simp
    then have "of_nat (2 ^ 63) \<le> (of_nat (n * 86400000000000) :: rat)" by (simp only: of_nat_le_iff)
    then show ?thesis by (simp add: pow2_def mult.commute)
  qed
  from round64_ge [OF this] have "\<exists>x. \<forall>conv. to_int64 conv (round64 (of_nat n * 86400000000000)) = conv x"
  proof (elim exE disjE conjE)
    fix x assume r: "round64 (of_nat n * 86400000000000) = Finite x" and x: "pow2 (int 63) \<le> x"
    have "of_int (2 ^ 63) \<le> x" using x by (simp add: pow2_def)
    then have "2 ^ 63 \<le> \<lfloor>x\<rfloor>" by (simp only: le_floor_iff)
    moreover have "0 \<le> x" using x pow2_pos [of "int 63"] by linarith
    ultimately show ?thesis by (auto simp: r to_int64_def toward_zero_def)
  next
    fix x assume "round64 (of_nat n * 86400000000000) = Infinite False"
    then show ?thesis by (auto simp: to_int64_def)
  qed
  then show ?thesis
    using False whole_days_product [OF assms] whole_hours [of conv "24 * n"] by simp
qed

lemma show_demo_days: "show_nat 30 = ''30''" "show_nat 720 = ''720''" "show_nat 106752 = ''106752''"
  by (simp add: show_nat.simps digit_char_def, code_simp)+

theorem days_are_hours_witness:
  "parseDuration (\<lambda>_. - (2 ^ 63)) ''30d'' = Inr (30 * 24 * (3600 * second)) \<and>
   parseDuration (\<lambda>_. - (2 ^ 63)) ''720h'' = Inr (30 * 24 * (3600 * second)) \<and>
   parseDuration (\<lambda>_. - (2 ^ 63)) ''106752d'' = Inr (- (2 ^ 63))"
  using days_are_hours [of 30 "\<lambda>_. - (2 ^ 63)"] days_are_hours [of 106752 "\<lambda>_. - (2 ^ 63)"]
  by (auto simp: show_demo_days)

end
