(* ===== verification/Json_Value.thy ===== *)
theory Json_Value
  imports Audit_Lines
begin

text \<open>
  JSON values as \<open>json.MarshalIndent\<close> prints them with an indentation of two spaces, a reader of
  JSON texts, and the theorem that the reader inverts the printer on ASCII strings. Numbers are integers:
  the only numbers the result structs have.
\<close>

datatype json =
    JNull
  | JBool bool
  | JInt int
  | JString string
  | JArray "json list"
  | JObject "(string \<times> json) list"

section \<open>Printing\<close>

definition new_line :: "nat \<Rightarrow> string" where
  "new_line d = CHR 0x0A # replicate (2 * d) (CHR '' '')"

text \<open>\<open>print_items\<close> and \<open>print_fields\<close> print what follows the first element of depth \<open>Suc d\<close>.\<close>

fun print_json :: "nat \<Rightarrow> json \<Rightarrow> string"
  and print_items :: "nat \<Rightarrow> json list \<Rightarrow> string"
  and print_fields :: "nat \<Rightarrow> (string \<times> json) list \<Rightarrow> string" where
  "print_json d JNull = ''null''"
| "print_json d (JBool b) = (if b then ''true'' else ''false'')"
| "print_json d (JInt i) = show_int i"
| "print_json d (JString s) = json_string s"
| "print_json d (JArray xs) =
     (case xs of [] \<Rightarrow> ''[]''
      | y # ys \<Rightarrow> CHR ''['' # new_line (Suc d) @ print_json (Suc d) y @ print_items d ys)"
| "print_json d (JObject fs) =
     (case fs of [] \<Rightarrow> ''{}''
      | (k, y) # gs \<Rightarrow>
          CHR ''{'' # new_line (Suc d) @ json_string k @ '': '' @ print_json (Suc d) y @ print_fields d gs)"
| "print_items d [] = new_line d @ '']''"
| "print_items d (y # ys) = CHR '','' # new_line (Suc d) @ print_json (Suc d) y @ print_items d ys"
| "print_fields d [] = new_line d @ ''}''"
| "print_fields d ((k, y) # gs) =
     CHR '','' # new_line (Suc d) @ json_string k @ '': '' @ print_json (Suc d) y @ print_fields d gs"

section \<open>Reading\<close>

text \<open>White space between tokens.\<close>

definition skip_space :: "string \<Rightarrow> string" where
  "skip_space s = dropWhile (\<lambda>c. c \<in> {CHR '' '', CHR 0x09, CHR 0x0A, CHR 0x0D}) s"

definition read_number :: "string \<Rightarrow> (int \<times> string) option" where
  "read_number s =
     (let neg = (s \<noteq> [] \<and> hd s = CHR ''-''); t = (if neg then tl s else s);
          ds = takeWhile is_digit t; r = dropWhile is_digit t
      in if ds = [] then None
         else Some (if neg then - int (dec_value ds) else int (dec_value ds), r))"

definition read_literal :: "string \<Rightarrow> json \<Rightarrow> string \<Rightarrow> (json \<times> string) option" where
  "read_literal lit v s = (if take (length lit) s = lit then Some (v, drop (length lit) s) else None)"

text \<open>Every call of the reader has its own fuel; the length of the text is enough.\<close>

fun read_json :: "nat \<Rightarrow> string \<Rightarrow> (json \<times> string) option"
  and read_items :: "nat \<Rightarrow> string \<Rightarrow> (json list \<times> string) option"
  and read_fields :: "nat \<Rightarrow> string \<Rightarrow> ((string \<times> json) list \<times> string) option"
  and read_field :: "nat \<Rightarrow> string \<Rightarrow> ((string \<times> json) \<times> string) option" where
  "read_json 0 s = None"
| "read_json (Suc n) s =
     (case skip_space s of
        [] \<Rightarrow> None
      | c # t \<Rightarrow>
          if c = CHR 0x22 then map_option (\<lambda>(v, r). (JString v, r)) (json_read t)
          else if c = CHR ''['' then
            (if skip_space t \<noteq> [] \<and> hd (skip_space t) = CHR '']'' then Some (JArray [], tl (skip_space t))
             else case read_json n t of
               None \<Rightarrow> None
             | Some (v, r) \<Rightarrow> map_option (\<lambda>(vs, r'). (JArray (v # vs), r')) (read_items n r))
          else if c = CHR ''{'' then
            (if skip_space t \<noteq> [] \<and> hd (skip_space t) = CHR ''}'' then Some (JObject [], tl (skip_space t))
             else case read_field n t of
               None \<Rightarrow> None
             | Some (f, r) \<Rightarrow> map_option (\<lambda>(fs, r'). (JObject (f # fs), r')) (read_fields n r))
          else if c = CHR ''t'' then read_literal ''rue'' (JBool True) t
          else if c = CHR ''f'' then read_literal ''alse'' (JBool False) t
          else if c = CHR ''n'' then read_literal ''ull'' JNull t
          else map_option (\<lambda>(i, r). (JInt i, r)) (read_number (c # t)))"
| "read_items 0 s = None"
| "read_items (Suc n) s =
     (case skip_space s of
        [] \<Rightarrow> None
      | c # t \<Rightarrow>
          if c = CHR '']'' then Some ([], t)
          else if c = CHR '','' then
            (case read_json n t of
               None \<Rightarrow> None
             | Some (v, r) \<Rightarrow> map_option (\<lambda>(vs, r'). (v # vs, r')) (read_items n r))
          else None)"
| "read_fields 0 s = None"
| "read_fields (Suc n) s =
     (case skip_space s of
        [] \<Rightarrow> None
      | c # t \<Rightarrow>
          if c = CHR ''}'' then Some ([], t)
          else if c = CHR '','' then
            (case read_field n t of
               None \<Rightarrow> None
             | Some (f, r) \<Rightarrow> map_option (\<lambda>(fs, r'). (f # fs, r')) (read_fields n r))
          else None)"
| "read_field 0 s = None"
| "read_field (Suc n) s =
     (case skip_space s of
        [] \<Rightarrow> None
      | c # t \<Rightarrow>
          if c \<noteq> CHR 0x22 then None
          else case json_read t of
            None \<Rightarrow> None
          | Some (k, r) \<Rightarrow>
              (case skip_space r of
                 [] \<Rightarrow> None
               | c' # r' \<Rightarrow>
                   if c' \<noteq> CHR '':'' then None
                   else map_option (\<lambda>(v, r''). ((k, v), r'')) (read_json n r')))"

definition parse_json :: "string \<Rightarrow> json option" where
  "parse_json s =
     (case read_json (length s) s of
        Some (v, r) \<Rightarrow> if skip_space r = [] then Some v else None
      | None \<Rightarrow> None)"

section \<open>The round trip\<close>

fun json_ascii :: "json \<Rightarrow> bool" where
  "json_ascii (JString s) = list_all is_ascii s"
| "json_ascii (JArray xs) = (\<forall>x \<in> set xs. json_ascii x)"
| "json_ascii (JObject fs) = (\<forall>(k, x) \<in> set fs. list_all is_ascii k \<and> json_ascii x)"
| "json_ascii _ = True"

lemma skip_space_new_line [simp]: "skip_space (new_line d @ s) = skip_space s"
proof -
  have "dropWhile P (replicate n x @ s) = dropWhile P s" if "P x" for P :: "char \<Rightarrow> bool" and n x
    using that by (induction n) simp_all
  then show ?thesis by (simp add: skip_space_def new_line_def)
qed

lemma skip_space_stop [simp]: "c \<notin> {CHR '' '', CHR 0x09, CHR 0x0A, CHR 0x0D} \<Longrightarrow> skip_space (c # s) = c # s"
  by (simp add: skip_space_def)

lemma skip_space_blank [simp]: "skip_space (CHR '' '' # s) = skip_space s"
  by (simp add: skip_space_def)

lemma new_line_length [simp]: "0 < length (new_line d)"
  by (simp add: new_line_def)

text \<open>Reading starts by skipping white space.\<close>

lemma skip_space_idem [simp]: "skip_space (skip_space s) = skip_space s"
  by (simp add: skip_space_def)

lemma read_json_space: "skip_space s = skip_space t \<Longrightarrow> read_json n s = read_json n t"
  by (cases n) simp_all

lemma read_field_space: "skip_space s = skip_space t \<Longrightarrow> read_field n s = read_field n t"
  by (cases n) simp_all

text \<open>The first byte of a value.\<close>

definition value_start :: "char \<Rightarrow> bool" where
  "value_start c \<longleftrightarrow> c \<in> {CHR 0x22, CHR ''['', CHR ''{'', CHR ''t'', CHR ''f'', CHR ''n'', CHR ''-''} \<or> is_digit c"

lemma show_int_start: "\<exists>c s. show_int i = c # s \<and> (c = CHR ''-'' \<or> is_digit c)"
proof -
  have "\<exists>c s. show_nat n = c # s \<and> is_digit c" for n
    using show_nat_digits [of n] by (cases "show_nat n") simp_all
  from this [of "nat i"] show ?thesis by (auto simp: show_int_def)
qed

lemma print_json_start: "\<exists>c s. print_json d j = c # s \<and> value_start c"
proof (cases j)
  case (JInt i)
  then show ?thesis using show_int_start [of i] by (auto simp: value_start_def)
qed (auto simp: value_start_def json_string_def split: list.splits prod.splits)

lemma value_start_not:
  "value_start c \<Longrightarrow> c \<notin> {CHR '' '', CHR 0x09, CHR 0x0A, CHR 0x0D, CHR '']'', CHR ''}'', CHR '','', CHR '':''}"
  by (auto simp: value_start_def is_digit_def)

lemma skip_space_print: "skip_space (print_json d j @ r) = print_json d j @ r"
  using print_json_start [of d j] value_start_not by fastforce

lemma hd_print_json: "hd (print_json d j @ r) \<noteq> CHR '']''" "hd (print_json d j @ r) \<noteq> CHR ''}''"
  using print_json_start [of d j] value_start_not by fastforce+

definition ends_number :: "string \<Rightarrow> bool" where
  "ends_number r \<longleftrightarrow> r = [] \<or> \<not> is_digit (hd r)"

lemma ends_number_print [simp]: "ends_number (print_items d xs @ r)" "ends_number (print_fields d fs @ r)"
  by (cases xs; simp add: ends_number_def new_line_def is_digit_def)
    (cases fs; auto simp: ends_number_def new_line_def is_digit_def)

lemma read_number_show_int: "ends_number r \<Longrightarrow> read_number (show_int i @ r) = Some (i, r)"
proof -
  assume e: "ends_number r"
  have tw: "takeWhile is_digit (show_nat n @ r) = show_nat n" "dropWhile is_digit (show_nat n @ r) = r" for n
    using show_nat_digits [of n] e by (cases r; simp add: ends_number_def list_all_iff takeWhile_append2 dropWhile_append2)+
  have "hd (show_nat n @ r) \<noteq> CHR ''-''" for n
    using show_nat_digits [of n] by (cases "show_nat n") (auto simp: is_digit_def)
  then show ?thesis by (simp add: read_number_def show_int_def tw Let_def)
qed

lemma read_json_int:
  assumes "ends_number r"
  shows "read_json (Suc n) (show_int i @ r) = Some (JInt i, r)"
proof -
  obtain c s where s: "show_int i = c # s" "c = CHR ''-'' \<or> is_digit c" using show_int_start by blast
  then have "c \<notin> {CHR '' '', CHR 0x09, CHR 0x0A, CHR 0x0D, CHR 0x22, CHR ''['', CHR ''{'', CHR ''t'', CHR ''f'', CHR ''n''}"
    by (auto simp: is_digit_def)
  then show ?thesis using read_number_show_int [OF assms, of i] by (simp add: s(1))
qed

lemma json_string_read: "list_all is_ascii s \<Longrightarrow> json_string s = CHR 0x22 # t \<Longrightarrow> json_read (t @ r) = Some (s, r)"
  using json_read_string [of s r] by simp

lemma read_field_print:
  assumes "list_all is_ascii k" and "length (json_string k @ '': '' @ print_json d y) \<le> n"
    and y: "\<And>m. length (print_json d y) \<le> m \<Longrightarrow> read_json m (print_json d y @ r) = Some (y, r)"
  shows "read_field n (new_line d' @ json_string k @ '': '' @ print_json d y @ r) = Some ((k, y), r)"
proof -
  obtain t where t: "json_string k = CHR 0x22 # t" by (simp add: json_string_def)
  obtain m where m: "n = Suc m" using assms(2) t by (cases n) simp_all
  have "read_json m (CHR '' '' # print_json d y @ r) = Some (y, r)"
    using y [of m] assms(2) read_json_space [of "CHR '' '' # print_json d y @ r" "print_json d y @ r" m] by (simp add: m)
  then show ?thesis
    using json_string_read [OF assms(1) t, of "CHR '':'' # CHR '' '' # print_json d y @ r"] by (simp add: m t)
qed

lemma read_print:
  "json_ascii j \<Longrightarrow> length (print_json d j) \<le> n \<Longrightarrow> ends_number r \<Longrightarrow> read_json n (print_json d j @ r) = Some (j, r)"
  "\<forall>x \<in> set xs. json_ascii x \<Longrightarrow> length (print_items d xs) \<le> n \<Longrightarrow>
     read_items n (print_items d xs @ r) = Some (xs, r)"
  "\<forall>(k, x) \<in> set fs. list_all is_ascii k \<and> json_ascii x \<Longrightarrow> length (print_fields d fs) \<le> n \<Longrightarrow>
     read_fields n (print_fields d fs @ r) = Some (fs, r)"
proof (induction d j and d xs and d fs arbitrary: n r and n r and n r rule: print_json_print_items_print_fields.induct)
  case (1 d)
  then show ?case by (cases n) (simp_all add: read_literal_def)
next
  case (2 d b)
  then show ?case by (cases n; cases b) (simp_all add: read_literal_def)
next
  case (3 d i)
  then show ?case using show_int_start [of i] read_json_int by (cases n) auto
next
  case (4 d s)
  obtain t where t: "json_string s = CHR 0x22 # t" by (simp add: json_string_def)
  show ?case using 4 json_string_read [OF _ t, of r] by (cases n) (simp_all add: t)
next
  case (5 d xs)
  show ?case
  proof (cases xs)
    case Nil
    then show ?thesis using "5.prems" by (cases n) simp_all
  next
    case (Cons y ys)
    obtain m where m: "n = Suc m" using "5.prems"(2) by (cases n) (simp_all add: Cons)
    have "read_json m (print_json (Suc d) y @ print_items d ys @ r) = Some (y, print_items d ys @ r)"
      by (rule "5.IH"(1) [OF Cons]) (use "5.prems" Cons m in simp_all)
    then have "read_json m (new_line (Suc d) @ print_json (Suc d) y @ print_items d ys @ r) = Some (y, print_items d ys @ r)"
      using read_json_space [OF skip_space_new_line] by simp
    moreover have "read_items m (print_items d ys @ r) = Some (ys, r)"
      by (rule "5.IH"(2) [OF Cons]) (use "5.prems" Cons m in simp_all)
    ultimately show ?thesis using hd_print_json(1) by (simp add: Cons m skip_space_print)
  qed
next
  case (6 d fs)
  show ?case
  proof (cases fs)
    case Nil
    then show ?thesis using "6.prems" by (cases n) simp_all
  next
    case (Cons f gs)
    obtain k y where f: "f = (k, y)" by (cases f)
    obtain m where m: "n = Suc m" using "6.prems"(2) by (cases n) (simp_all add: Cons f)
    have "read_field m (new_line (Suc d) @ json_string k @ '': '' @ print_json (Suc d) y @ print_fields d gs @ r) =
        Some ((k, y), print_fields d gs @ r)"
      by (rule read_field_print) (use "6.prems" "6.IH"(1) [OF Cons f [symmetric]] Cons f m in simp_all)
    moreover have "read_fields m (print_fields d gs @ r) = Some (gs, r)"
      by (rule "6.IH"(2) [OF Cons f [symmetric]]) (use "6.prems" Cons f m in simp_all)
    moreover have "skip_space (json_string k @ s) = json_string k @ s" "hd (json_string k @ s) = CHR 0x22" for s
      by (simp_all add: json_string_def)
    ultimately show ?thesis by (simp add: Cons f m)
  qed
next
  case (7 d)
  then show ?case by (cases n) simp_all
next
  case (8 d y ys)
  obtain m where m: "n = Suc m" using "8.prems"(2) by (cases n) simp_all
  have "read_json m (print_json (Suc d) y @ print_items d ys @ r) = Some (y, print_items d ys @ r)"
    by (rule "8.IH"(1)) (use "8.prems" m in simp_all)
  then have "read_json m (new_line (Suc d) @ print_json (Suc d) y @ print_items d ys @ r) = Some (y, print_items d ys @ r)"
    using read_json_space [OF skip_space_new_line] by simp
  moreover have "read_items m (print_items d ys @ r) = Some (ys, r)"
    by (rule "8.IH"(2)) (use "8.prems" m in simp_all)
  ultimately show ?case by (simp add: m)
next
  case (9 d)
  then show ?case by (cases n) simp_all
next
  case (10 d k y gs)
  obtain m where m: "n = Suc m" using "10.prems"(2) by (cases n) simp_all
  have "read_field m (new_line (Suc d) @ json_string k @ '': '' @ print_json (Suc d) y @ print_fields d gs @ r) =
      Some ((k, y), print_fields d gs @ r)"
    by (rule read_field_print) (use "10.prems" "10.IH"(1) m in simp_all)
  moreover have "read_fields m (print_fields d gs @ r) = Some (gs, r)"
    by (rule "10.IH"(2)) (use "10.prems" m in simp_all)
  ultimately show ?case by (simp add: m)
qed

lemma parse_print: "json_ascii j \<Longrightarrow> parse_json (print_json 0 j) = Some j"
  using read_print(1) [of j 0 "length (print_json 0 j)" "[]"] by (simp add: parse_json_def ends_number_def skip_space_def)

end
