(* ===== verification/Tool_Results.thy ===== *)
theory Tool_Results
  imports Json_Value Service
begin

text \<open>
  What the clients of \<open>internal/mcp/tools.go\<close> see: the results as JSON, by the tags of the structs,
  and \<open>MarshalResult\<close>; and \<open>internal/mcp/server.go\<close>. The slices that grow from nil (tables,
  columns, matches, the rows of a plan) are \<open>null\<close> when nothing was appended.
\<close>

section \<open>The identity of the server\<close>

record implementation =
  impl_Name :: string
  impl_Version :: string

record mcp_server =
  ms_impl :: implementation
  ms_tools :: "(string \<times> string) list"

definition NewMCPServer :: mcp_server where
  "NewMCPServer = \<lparr>ms_impl = \<lparr>impl_Name = ''safe-mysql-mcp'', impl_Version = ''0.1.0''\<rparr>, ms_tools = []\<rparr>"

text \<open>\<open>mcp.AddTool\<close> replaces a tool of the same name.\<close>

definition AddTool :: "string \<times> string \<Rightarrow> mcp_server \<Rightarrow> mcp_server" where
  "AddTool t m = m\<lparr>ms_tools := filter (\<lambda>u. fst u \<noteq> fst t) (ms_tools m) @ [t]\<rparr>"

definition RegisterTools :: "mcp_server \<Rightarrow> mcp_server" where
  "RegisterTools m = fold AddTool registered_tools m"

section \<open>The arguments of the tools\<close>

definition query_input :: "string \<Rightarrow> string \<Rightarrow> json" where
  "query_input db sql = JObject [(''database'', JString db), (''sql'', JString sql)]"

definition list_tables_input :: "string \<Rightarrow> json" where
  "list_tables_input db = JObject [(''database'', JString db)]"

definition describe_table_input :: "string \<Rightarrow> string \<Rightarrow> json" where
  "describe_table_input db table = JObject [(''database'', JString db), (''table'', JString table)]"

definition show_create_input :: "string \<Rightarrow> string \<Rightarrow> json" where
  "show_create_input db table = JObject [(''database'', JString db), (''table'', JString table)]"

definition explain_input :: "string \<Rightarrow> string \<Rightarrow> json" where
  "explain_input db sql = JObject [(''database'', JString db), (''sql'', JString sql)]"

definition search_input :: "string \<Rightarrow> json" where
  "search_input pattern = JObject [(''table_pattern'', JString pattern)]"

text \<open>A call as the client writes it: the name of the tool and its arguments.\<close>

fun call_json :: "tool_call \<Rightarrow> string \<times> json" where
  "call_json (QueryCall db sql) = (''query'', query_input db sql)"
| "call_json ListDatabasesCall = (''list_databases'', JObject [])"
| "call_json (ListTablesCall db) = (''list_tables'', list_tables_input db)"
| "call_json (DescribeTableCall db t) = (''describe_table'', describe_table_input db t)"
| "call_json (ShowCreateTableCall db t) = (''show_create_table'', show_create_input db t)"
| "call_json (ExplainCall db sql) = (''explain'', explain_input db sql)"
| "call_json (SearchTablesCall p) = (''search_tables'', search_input p)"

section \<open>Cells\<close>

definition base64_digit :: "nat \<Rightarrow> char" where
  "base64_digit n =
     (if n < 26 then char_of (65 + n) else if n < 52 then char_of (71 + n) else if n < 62 then char_of (n - 4)
      else if n = 62 then CHR ''+'' else CHR ''/'')"

fun base64 :: "nat list \<Rightarrow> string" where
  "base64 [] = []"
| "base64 [a] = [base64_digit (a div 4), base64_digit (a mod 4 * 16), CHR ''='', CHR ''='']"
| "base64 [a, b] =
     [base64_digit (a div 4), base64_digit (a mod 4 * 16 + b div 16), base64_digit (b mod 16 * 4), CHR ''='']"
| "base64 (a # b # c # s) =
     [base64_digit (a div 4), base64_digit (a mod 4 * 16 + b div 16), base64_digit (b mod 16 * 4 + c div 64),
      base64_digit (c mod 64)] @ base64 s"

text \<open>\<open>other\<close> is the encoding of the values of other types a driver may deliver.\<close>

fun cell_json :: "(string \<Rightarrow> json) \<Rightarrow> cell \<Rightarrow> json" where
  "cell_json other (CBytes s) = JString (base64 (bytes_of s))"
| "cell_json other (CString s) = JString s"
| "cell_json other (CInt i) = JInt i"
| "cell_json other CNull = JNull"
| "cell_json other (COther s) = other s"

section \<open>The result structs\<close>

definition field :: "string \<Rightarrow> json \<Rightarrow> (string \<times> json) list" where
  "field k v = [(k, v)]"

text \<open>A field with the option \<open>omitempty\<close>.\<close>

definition field_unless :: "bool \<Rightarrow> string \<Rightarrow> json \<Rightarrow> (string \<times> json) list" where
  "field_unless absent k v = (if absent then [] else [(k, v)])"

definition strings_json :: "string list \<Rightarrow> json" where
  "strings_json xs = JArray (map JString xs)"

definition rows_json :: "(string \<Rightarrow> json) \<Rightarrow> cell list list \<Rightarrow> json" where
  "rows_json other rows = JArray (map (\<lambda>row. JArray (map (cell_json other) row)) rows)"

definition nil_slice :: "bool \<Rightarrow> json \<Rightarrow> json" where
  "nil_slice none v = (if none then JNull else v)"

definition query_json :: "(string \<Rightarrow> json) \<Rightarrow> QueryResult \<Rightarrow> json" where
  "query_json other r = JObject
     (field_unless (qr_Columns r = []) ''columns'' (strings_json (qr_Columns r)) @
      field_unless (qr_Rows r = []) ''rows'' (rows_json other (qr_Rows r)) @
      field_unless (qr_RowsAffected r = 0) ''rows_affected'' (JInt (qr_RowsAffected r)) @
      field_unless (qr_LastInsertID r = 0) ''last_insert_id'' (JInt (qr_LastInsertID r)) @
      field_unless (qr_Warnings r = []) ''warnings'' (strings_json (qr_Warnings r)))"

definition table_json :: "TableInfo \<Rightarrow> json" where
  "table_json t = JObject
     (field ''name'' (JString (ti_Name t)) @ field_unless (ti_Comment t = '''') ''comment'' (JString (ti_Comment t)))"

definition tables_json :: "ListTablesResult \<Rightarrow> json" where
  "tables_json r = JObject
     (field ''tables'' (nil_slice (lt_Tables r = []) (JArray (map table_json (lt_Tables r)))) @
      field_unless (\<not> lt_Truncated r) ''truncated'' (JBool (lt_Truncated r)))"

definition column_json :: "ColumnInfo \<Rightarrow> json" where
  "column_json c = JObject
     (field ''field'' (JString (ci_Field c)) @ field ''type'' (JString (ci_Type c)) @
      field ''null'' (JString (ci_Null c)) @ field ''key'' (JString (ci_Key c)) @
      field_unless (ci_Default c = '''') ''default'' (JString (ci_Default c)) @
      field_unless (ci_Extra c = '''') ''extra'' (JString (ci_Extra c)) @
      field_unless (ci_Comment c = '''') ''comment'' (JString (ci_Comment c)))"

definition columns_json :: "ColumnInfo list \<Rightarrow> json" where
  "columns_json cs = JObject (field ''columns'' (nil_slice (cs = []) (JArray (map column_json cs))))"

definition create_json :: "string \<Rightarrow> json" where
  "create_json s = JObject (field ''create_statement'' (JString s))"

definition databases_json :: "string list \<Rightarrow> json" where
  "databases_json ds = JObject (field ''databases'' (strings_json ds))"

definition explain_json :: "(string \<Rightarrow> json) \<Rightarrow> ExplainResult \<Rightarrow> json" where
  "explain_json other r = JObject
     (field ''columns'' (strings_json (er_Columns r)) @
      field ''rows'' (nil_slice (er_Rows r = []) (rows_json other (er_Rows r))))"

definition match_json :: "TableMatch \<Rightarrow> json" where
  "match_json m = JObject (field ''database'' (JString (tm_Database m)) @ field ''table'' (JString (tm_Table m)))"

definition matches_json :: "SearchTablesResult \<Rightarrow> json" where
  "matches_json r = JObject
     (field ''matches'' (nil_slice (st_Matches r = []) (JArray (map match_json (st_Matches r)))) @
      field_unless (\<not> st_Truncated r) ''truncated'' (JBool (st_Truncated r)))"

fun result_json :: "(string \<Rightarrow> json) \<Rightarrow> tool_value \<Rightarrow> json" where
  "result_json other (VQuery r) = query_json other r"
| "result_json other (VDatabases ds) = databases_json ds"
| "result_json other (VTables r) = tables_json r"
| "result_json other (VColumns cs) = columns_json cs"
| "result_json other (VCreate s) = create_json s"
| "result_json other (VExplain r) = explain_json other r"
| "result_json other (VMatches r) = matches_json r"

text \<open>The argument is what \<open>encoding/json\<close> makes of the value: an error or its JSON.\<close>

definition MarshalResult :: "go_error + json \<Rightarrow> string" where
  "MarshalResult v =
     (case v of
        Inl e \<Rightarrow> ''{'' @ [CHR 0x22] @ ''error'' @ [CHR 0x22] @ '': '' @ [CHR 0x22] @ ''failed to marshal result: '' @
          e @ [CHR 0x22] @ ''}''
      | Inr j \<Rightarrow> print_json 0 j)"

section \<open>The types of the results\<close>

text \<open>
  The schema of a Go type as the clients are told it: a slice may be \<open>null\<close>, an object has no
  other fields than those of its struct, and a field without \<open>omitempty\<close> is required.
\<close>

datatype schema =
    SAny
  | SString
  | SInteger
  | SBoolean
  | SArray schema
  | SObject "(string \<times> bool \<times> schema) list"

fun conforms :: "schema \<Rightarrow> json \<Rightarrow> bool" where
  "conforms s (JArray xs) = (case s of SAny \<Rightarrow> True | SArray t \<Rightarrow> \<forall>x \<in> set xs. conforms t x | _ \<Rightarrow> False)"
| "conforms s (JObject fs) =
     (case s of
        SAny \<Rightarrow> True
      | SObject ps \<Rightarrow>
          distinct (map fst fs) \<and> (\<forall>(k, req, t) \<in> set ps. req \<longrightarrow> k \<in> set (map fst fs)) \<and>
          (\<forall>(k, x) \<in> set fs. case map_of ps k of None \<Rightarrow> False | Some (req, t) \<Rightarrow> conforms t x)
      | _ \<Rightarrow> False)"
| "conforms s JNull = (case s of SAny \<Rightarrow> True | SArray t \<Rightarrow> True | _ \<Rightarrow> False)"
| "conforms s (JBool b) = (s \<in> {SAny, SBoolean})"
| "conforms s (JInt i) = (s \<in> {SAny, SInteger})"
| "conforms s (JString x) = (s \<in> {SAny, SString})"

fun output_schema :: "tool_call \<Rightarrow> schema" where
  "output_schema (QueryCall db s) = SObject
     [(''columns'', False, SArray SString), (''rows'', False, SArray (SArray SAny)), (''rows_affected'', False, SInteger),
      (''last_insert_id'', False, SInteger), (''warnings'', False, SArray SString)]"
| "output_schema ListDatabasesCall = SObject [(''databases'', True, SArray SString)]"
| "output_schema (ListTablesCall db) = SObject
     [(''tables'', True, SArray (SObject [(''name'', True, SString), (''comment'', False, SString)])),
      (''truncated'', False, SBoolean)]"
| "output_schema (DescribeTableCall db t) = SObject
     [(''columns'', True, SArray (SObject
        [(''field'', True, SString), (''type'', True, SString), (''null'', True, SString), (''key'', True, SString),
         (''default'', False, SString), (''extra'', False, SString), (''comment'', False, SString)]))]"
| "output_schema (ShowCreateTableCall db t) = SObject [(''create_statement'', True, SString)]"
| "output_schema (ExplainCall db s) = SObject
     [(''columns'', True, SArray SString), (''rows'', True, SArray (SArray SAny))]"
| "output_schema (SearchTablesCall p) = SObject
     [(''matches'', True, SArray (SObject [(''database'', True, SString), (''table'', True, SString)])),
      (''truncated'', False, SBoolean)]"

section \<open>Lemmas\<close>

lemma map_of_fields [simp]:
  "(m ++ map_of (field k v)) x = (if x = k then Some v else m x)"
  "(m ++ map_of (field_unless e k v)) x = (if x = k \<and> \<not> e then Some v else m x)"
  "map_of (field k v) x = (if x = k then Some v else None)"
  "map_of (field_unless e k v) x = (if x = k \<and> \<not> e then Some v else None)"
  by (simp_all add: field_def field_unless_def map_add_def)

text \<open>A call names a registered tool, and name and arguments tell which call it is.\<close>

lemma call_json_registered: "fst (call_json c) \<in> fst ` set registered_tools"
  by (cases c) (simp_all add: registered_tools_def)

lemma call_json_inj: "call_json c = call_json d \<longleftrightarrow> c = d"
  by (cases c; cases d) (simp_all add: query_input_def list_tables_input_def describe_table_input_def
      show_create_input_def explain_input_def search_input_def)

lemma RegisterTools_new: "ms_tools (RegisterTools NewMCPServer) = registered_tools"
  by (simp add: RegisterTools_def NewMCPServer_def registered_tools_def AddTool_def)

subsection \<open>Results conform to their types\<close>

text \<open>The tool a result belongs to, and its cells.\<close>

fun result_of :: "tool_call \<Rightarrow> tool_value \<Rightarrow> bool" where
  "result_of (QueryCall db s) (VQuery r) = True"
| "result_of ListDatabasesCall (VDatabases ds) = True"
| "result_of (ListTablesCall db) (VTables r) = True"
| "result_of (DescribeTableCall db t) (VColumns cs) = True"
| "result_of (ShowCreateTableCall db t) (VCreate s) = True"
| "result_of (ExplainCall db s) (VExplain r) = True"
| "result_of (SearchTablesCall p) (VMatches r) = True"
| "result_of _ _ = False"

fun result_rows :: "tool_value \<Rightarrow> cell list list" where
  "result_rows (VQuery r) = qr_Rows r"
| "result_rows (VExplain r) = er_Rows r"
| "result_rows _ = []"

lemma respond_out_result: "respond_out f r = Ret (ToolResult v, h') \<Longrightarrow> \<exists>x. r = Ret (Inr x, h') \<and> v = f x"
  by (auto simp: respond_out_def respond_def split: outcome.splits sum.splits)

lemma call_tool_result_of:
  assumes "call_tool drv tidb clk order c tc h = Ret (ToolResult v, h')"
  shows "result_of tc v"
  using assms
  by (cases tc) (auto simp: handleQueryTool_def handleListTablesTool_def handleDescribeTableTool_def
      handleShowCreateTableTool_def handleExplainTool_def handleSearchTablesTool_def handleListDatabasesTool_def
      respond_def split: option.splits sum.splits dest!: respond_out_result)

lemma conforms_any: "conforms SAny j"
  by (cases j) simp_all

lemma conforms_arrays [simp]:
  "conforms (SArray SString) (strings_json xs)" "conforms (SArray (SArray SAny)) (rows_json other rows)"
  "conforms (SArray t) (nil_slice e v) \<longleftrightarrow> e \<or> conforms (SArray t) v"
  by (auto simp: strings_json_def rows_json_def nil_slice_def conforms_any)

lemma conforms_result: "result_of tc v \<Longrightarrow> conforms (output_schema tc) (result_json other v)"
  by (cases tc; cases v) (auto simp: query_json_def tables_json_def columns_json_def explain_json_def matches_json_def
      create_json_def databases_json_def table_json_def column_json_def match_json_def field_def field_unless_def)

definition no_bytes :: "cell list list \<Rightarrow> bool" where
  "no_bytes rows \<longleftrightarrow> (\<forall>row \<in> set rows. \<forall>c \<in> set row. \<forall>b. c \<noteq> CBytes b)"

lemma no_bytes_to_text: "no_bytes (rows @ [map to_text values]) = no_bytes rows"
  by (auto simp: no_bytes_def to_text_def split: cell.splits)

lemma fetch_rows_no_bytes: "fetch_rows n items rows = Inr rs \<Longrightarrow> no_bytes rows \<Longrightarrow> no_bytes rs"
  by (induction n items rows rule: fetch_rows.induct) (auto simp: no_bytes_to_text split: if_splits sum.splits)

lemma fetch_all_no_bytes: "fetch_all items rows = Inr rs \<Longrightarrow> no_bytes rows \<Longrightarrow> no_bytes rs"
  by (induction items rows rule: fetch_all.induct) (auto simp: no_bytes_to_text split: sum.splits)

lemma no_bytes_Nil [simp]: "no_bytes []"
  by (simp add: no_bytes_def)

lemma executeQuery_no_bytes:
  assumes inv: "audit_inv (h_audit h)" and ex: "executeQuery drv tidb clk c db s h = Ret (Inr res, h')"
  shows "no_bytes (qr_Rows res)"
proof (cases rule: executeQuery_cases [OF inv, of tidb s drv clk c db,
    consumes 0, case_names no_statement unparsed blocked reads writes])
  case (reads p q ws)
  with ex show ?thesis
    by (cases rule: run_read_cases [OF inv, of drv db q clk c s p ws]) (auto dest: fetch_rows_no_bytes)
next
  case (writes p q ws)
  with ex show ?thesis
    by (cases rule: run_write_cases [OF inv, of drv db q clk c s p ws]) auto
qed (use ex in auto)

lemma executeExplain_no_bytes:
  "executeExplain drv tidb db s h = Ret (Inr res, h') \<Longrightarrow> no_bytes (er_Rows res)"
  by (auto simp: executeExplain_def split: sum.splits option.splits if_splits prod.splits dest: fetch_all_no_bytes)

lemma call_tool_no_bytes:
  assumes "audit_inv (h_audit h)" and "call_tool drv tidb clk order c tc h = Ret (ToolResult v, h')"
  shows "no_bytes (result_rows v)"
  using assms(2) executeQuery_no_bytes [OF assms(1)] executeExplain_no_bytes
  by (cases tc) (auto simp: handleQueryTool_def handleListTablesTool_def handleDescribeTableTool_def
      handleShowCreateTableTool_def handleExplainTool_def handleSearchTablesTool_def handleListDatabasesTool_def
      respond_def split: option.splits sum.splits dest!: respond_out_result)

subsection \<open>The text determines the result\<close>

definition plain_cell :: "cell \<Rightarrow> bool" where
  "plain_cell c \<longleftrightarrow> c = CNull \<or> (\<exists>s. c = CString s) \<or> (\<exists>i. c = CInt i)"

definition plain_rows :: "cell list list \<Rightarrow> bool" where
  "plain_rows rows \<longleftrightarrow> (\<forall>row \<in> set rows. \<forall>c \<in> set row. plain_cell c)"

lemma map_eq_on: "map f xs = map f ys \<Longrightarrow> (\<And>x y. x \<in> set xs \<Longrightarrow> y \<in> set ys \<Longrightarrow> f x = f y \<Longrightarrow> x = y) \<Longrightarrow> xs = ys"
  by (induction xs arbitrary: ys) (auto simp: Cons_eq_map_conv)

lemma strings_json_inj [simp]: "strings_json xs = strings_json ys \<longleftrightarrow> xs = ys"
  by (auto simp: strings_json_def intro: map_eq_on)

lemma cell_json_inj: "cell_json other c = cell_json other d \<Longrightarrow> plain_cell c \<Longrightarrow> plain_cell d \<Longrightarrow> c = d"
  by (auto simp: plain_cell_def)

lemma rows_json_inj:
  "rows_json other rows = rows_json other rows' \<Longrightarrow> plain_rows rows \<Longrightarrow> plain_rows rows' \<Longrightarrow> rows = rows'"
  by (auto simp: rows_json_def plain_rows_def intro!: map_eq_on [of _ rows rows'] dest!: map_eq_on intro: cell_json_inj)

lemma object_fields: "JObject fs = JObject gs \<Longrightarrow> map_of fs k = map_of gs k"
  by simp

lemma query_json_inj:
  assumes "query_json other r = query_json other r'" and "plain_rows (qr_Rows r)" and "plain_rows (qr_Rows r')"
  shows "r = r'"
proof -
  note e = object_fields [OF assms(1) [unfolded query_json_def]]
  have "qr_Columns r = qr_Columns r'" using e [of "''columns''"] by (auto split: if_splits)
  moreover have "qr_Rows r = qr_Rows r'"
    using e [of "''rows''"] rows_json_inj [OF _ assms(2,3)] by (auto split: if_splits)
  moreover have "qr_RowsAffected r = qr_RowsAffected r'" using e [of "''rows_affected''"] by (auto split: if_splits)
  moreover have "qr_LastInsertID r = qr_LastInsertID r'" using e [of "''last_insert_id''"] by (auto split: if_splits)
  moreover have "qr_Warnings r = qr_Warnings r'" using e [of "''warnings''"] by (auto split: if_splits)
  ultimately show ?thesis by simp
qed

lemma nil_slice_inj:
  assumes "nil_slice (xs = []) (JArray (map f xs)) = nil_slice (ys = []) (JArray (map f ys))"
    and "\<And>x y. f x = f y \<Longrightarrow> x = y"
  shows "xs = ys"
  using assms by (auto simp: nil_slice_def split: if_splits intro: map_eq_on)

lemma table_json_inj: "table_json t = table_json t' \<Longrightarrow> t = t'"
proof -
  assume "table_json t = table_json t'"
  note e = object_fields [OF this [unfolded table_json_def]]
  have "ti_Name t = ti_Name t'" using e [of "''name''"] by simp
  moreover have "ti_Comment t = ti_Comment t'" using e [of "''comment''"] by (auto split: if_splits)
  ultimately show ?thesis by simp
qed

lemma column_json_inj: "column_json c = column_json c' \<Longrightarrow> c = c'"
proof -
  assume "column_json c = column_json c'"
  note e = object_fields [OF this [unfolded column_json_def]]
  have "ci_Field c = ci_Field c'" "ci_Type c = ci_Type c'" "ci_Null c = ci_Null c'" "ci_Key c = ci_Key c'"
    using e [of "''field''"] e [of "''type''"] e [of "''null''"] e [of "''key''"] by simp_all
  moreover have "ci_Default c = ci_Default c'" using e [of "''default''"] by (auto split: if_splits)
  moreover have "ci_Extra c = ci_Extra c'" using e [of "''extra''"] by (auto split: if_splits)
  moreover have "ci_Comment c = ci_Comment c'" using e [of "''comment''"] by (auto split: if_splits)
  ultimately show ?thesis by simp
qed

lemma match_json_inj: "match_json m = match_json m' \<Longrightarrow> m = m'"
  by (simp add: match_json_def field_def)

lemma tables_json_inj: "tables_json r = tables_json r' \<Longrightarrow> r = r'"
proof -
  assume "tables_json r = tables_json r'"
  note e = object_fields [OF this [unfolded tables_json_def]]
  have "lt_Tables r = lt_Tables r'"
    using e [of "''tables''"] by (intro nil_slice_inj [of _ table_json]) (auto intro: table_json_inj)
  moreover have "lt_Truncated r = lt_Truncated r'" using e [of "''truncated''"] by (auto split: if_splits)
  ultimately show ?thesis by simp
qed

lemma matches_json_inj: "matches_json r = matches_json r' \<Longrightarrow> r = r'"
proof -
  assume "matches_json r = matches_json r'"
  note e = object_fields [OF this [unfolded matches_json_def]]
  have "st_Matches r = st_Matches r'"
    using e [of "''matches''"] by (intro nil_slice_inj [of _ match_json]) (auto intro: match_json_inj)
  moreover have "st_Truncated r = st_Truncated r'" using e [of "''truncated''"] by (auto split: if_splits)
  ultimately show ?thesis by simp
qed

lemma explain_json_inj:
  assumes "explain_json other r = explain_json other r'" and "plain_rows (er_Rows r)" and "plain_rows (er_Rows r')"
  shows "r = r'"
proof -
  note e = object_fields [OF assms(1) [unfolded explain_json_def]]
  have "er_Columns r = er_Columns r'" using e [of "''columns''"] by simp
  moreover have "er_Rows r = er_Rows r'"
    using e [of "''rows''"] rows_json_inj [OF _ assms(2,3)]
    by (auto simp: nil_slice_def rows_json_def split: if_splits)
  ultimately show ?thesis by simp
qed

lemma result_json_inj:
  assumes "result_of tc v" and "result_of tc v'" and "plain_rows (result_rows v)" and "plain_rows (result_rows v')"
    and "result_json other v = result_json other v'"
  shows "v = v'"
  using assms query_json_inj explain_json_inj
  by (cases tc; cases v; cases v') (auto simp: columns_json_def create_json_def databases_json_def field_def
      intro: tables_json_inj matches_json_inj dest!: nil_slice_inj intro: column_json_inj)

subsection \<open>Bytes that are not text\<close>

text \<open>Bytes that occur in no UTF-8 text are all replaced by the same escape.\<close>

definition never_utf8 :: "string \<Rightarrow> bool" where
  "never_utf8 s \<longleftrightarrow> list_all (\<lambda>c. 245 \<le> (of_char c :: nat)) s"

lemma utf8_width_never: "245 \<le> a \<Longrightarrow> utf8_width (a # bs) = 0"
  by (cases bs) simp_all

lemma json_escape_never_utf8: "never_utf8 s \<Longrightarrow> json_escape s = concat (replicate (length s) (CHR 0x5C # ''ufffd''))"
  by (induction s) (simp_all add: never_utf8_def is_ascii_def bytes_of_def utf8_width_never)

lemma json_string_never_utf8:
  "never_utf8 s \<Longrightarrow> never_utf8 t \<Longrightarrow> length s = length t \<Longrightarrow> json_string s = json_string t"
  by (simp add: json_string_def json_escape_never_utf8)

text \<open>Values that are printed alike at every depth.\<close>

definition same_print :: "json \<Rightarrow> json \<Rightarrow> bool" where
  "same_print x y \<longleftrightarrow> (\<forall>d. print_json d x = print_json d y)"

lemma print_items_same: "list_all2 same_print xs ys \<Longrightarrow> print_items d xs = print_items d ys"
  by (induction rule: list_all2_induct) (simp_all add: same_print_def)

lemma same_print_array: "list_all2 same_print xs ys \<Longrightarrow> same_print (JArray xs) (JArray ys)"
proof -
  assume "list_all2 same_print xs ys"
  then show ?thesis
    by cases (auto simp: same_print_def dest: print_items_same)
qed

text \<open>Cells that are equal, or hold bytes of one length that are in no UTF-8 text.\<close>

definition alike :: "cell \<Rightarrow> cell \<Rightarrow> bool" where
  "alike c c' \<longleftrightarrow> c = c' \<or>
     (\<exists>s t. c = CString s \<and> c' = CString t \<and> never_utf8 s \<and> never_utf8 t \<and> length s = length t)"

lemma same_print_alike: "alike c c' \<Longrightarrow> same_print (cell_json other c) (cell_json other c')"
proof (unfold alike_def, elim disjE exE conjE)
  fix s t
  assume "c = CString s" "c' = CString t" "never_utf8 s" "never_utf8 t" "length s = length t"
  then show ?thesis using json_string_never_utf8 [of s t] by (simp add: same_print_def)
qed (simp add: same_print_def)

lemma same_print_rows:
  assumes "list_all2 (list_all2 alike) rows rows'"
  shows "same_print (rows_json other rows) (rows_json other rows')"
proof -
  have "same_print (JArray (map (cell_json other) row)) (JArray (map (cell_json other) row'))"
    if "list_all2 alike row row'" for row row'
    by (rule same_print_array, unfold list.rel_map) (rule list_all2_mono [OF that same_print_alike])
  then show ?thesis
    unfolding rows_json_def by (intro same_print_array, unfold list.rel_map) (rule list_all2_mono [OF assms])
qed

lemma print_query_rows:
  assumes "list_all2 (list_all2 alike) rows rows'"
  shows "print_json 0 (query_json other (r\<lparr>qr_Rows := rows\<rparr>)) = print_json 0 (query_json other (r\<lparr>qr_Rows := rows'\<rparr>))"
proof -
  have e: "rows = [] \<longleftrightarrow> rows' = []" using assms by auto
  have "print_json d (rows_json other rows) = print_json d (rows_json other rows')" for d
    using same_print_rows [OF assms] by (simp add: same_print_def)
  then show ?thesis
    by (cases "qr_Columns r = []") (simp_all add: e query_json_def field_unless_def del: print_json.simps(5))
qed

end
