(* ===== verification/Props_Results.thy ===== *)
theory Props_Results
  imports Tool_Results Props_Tools
begin

text \<open>Properties of the results as the clients see them.\<close>

text \<open>
C33. A tool that succeeds returns a result of its own type: its JSON has the fields of its struct and no
others, each with the type of the field, the fields without the option to omit them are present, and no
cell is left as raw bytes.
\<close>

theorem results_have_their_type:
  assumes "audit_inv (h_audit h)" and "call_tool drv tidb clk order c tc h = Ret (ToolResult v, h')"
  shows "conforms (output_schema tc) (result_json other v) \<and>
    (\<forall>row \<in> set (result_rows v). \<forall>cell \<in> set row. \<forall>b. cell \<noteq> CBytes b)"
  using conforms_result [OF call_tool_result_of [OF assms(2)]] call_tool_no_bytes [OF assms]
  by (simp add: no_bytes_def)

theorem results_have_their_type_witness:
  "\<exists>r h'. call_tool demo_driver demo_tidb demo_clock [] Background (QueryCall ''shop'' ''SELECT 1'') demo_handler =
      Ret (ToolResult (VQuery r), h') \<and> conforms (output_schema (QueryCall ''shop'' ''SELECT 1'')) (query_json (\<lambda>_. JNull) r)"
proof -
  obtain r h' where "executeQuery demo_driver demo_tidb demo_clock Background ''shop'' ''SELECT 1'' demo_handler =
      Ret (Inr r, h')" using demo_select_runs by blast
  moreover have "ValidateDatabaseName ''shop'' = None"
    by (simp add: ValidateDatabaseName_def MaxIdentifierLength_def identifierRegex_def is_lower_def is_word_def)
  moreover have "ValidateSQL ''SELECT 1'' = None" by (simp add: ValidateSQL_def MaxSQLLength_def)
  ultimately have "call_tool demo_driver demo_tidb demo_clock [] Background (QueryCall ''shop'' ''SELECT 1'') demo_handler =
      Ret (ToolResult (VQuery r), h')"
    by (simp add: handleQueryTool_def respond_out_def respond_def)
  with results_have_their_type [OF demo_handler_audit_inv this, of "\<lambda>_. JNull"] show ?thesis by auto
qed




end
