(* ===== verification/Constants.thy ===== *)
theory Constants
  imports Config Validation Auth Tools Rate_Limit
begin

text \<open>
  \<open>internal/constants/constants.go\<close>: the shared constants. No other package of the program
  imports this one; the packages state the same values themselves, and the lemma
  \<open>constants_agree\<close> compares the two.
\<close>

definition shared_limits :: "(string \<times> int) list" where
  "shared_limits =
     [(''MaxIdentifierLength'', 64), (''MaxTableNameLength'', 64),
      (''DefaultMaxRows'', 10000), (''MaxRowsLimit'', 1000000),
      (''DefaultQueryTimeout'', 30 * second), (''MaxQueryTimeout'', 5 * minute),
      (''MaxSQLLength'', 100000),
      (''DefaultRateLimit'', 10), (''DefaultRateBurst'', 20), (''MaxRateLimit'', 1000),
      (''DefaultMaxOpenConns'', 10), (''DefaultMaxIdleConns'', 5), (''DefaultConnMaxLifetime'', 5 * minute),
      (''MinJWTSecretLength'', 32), (''DefaultAutoLimit'', 1000), (''MaxAutoLimit'', 10000),
      (''DefaultMaxSQLLength'', 2000), (''DefaultMaxLogSizeMB'', 100), (''DefaultMaxBackups'', 10),
      (''DefaultMaxAgeDays'', 30),
      (''DefaultReadTimeout'', 30 * second), (''DefaultWriteTimeout'', 60 * second),
      (''DefaultIdleTimeout'', 120 * second)]"

definition shared :: "string \<Rightarrow> int" where
  "shared name = (case map_of shared_limits name of None \<Rightarrow> 0 | Some v \<Rightarrow> v)"

lemma constants_agree:
  "shared ''MaxIdentifierLength'' = int MaxIdentifierLength"
  "shared ''MaxSQLLength'' = int MaxSQLLength"
  "shared ''DefaultMaxRows'' = defaultMaxRows"
  "shared ''DefaultQueryTimeout'' = defaultQueryTimeout"
  "shared ''MinJWTSecretLength'' = int MinJWTSecretLength"
  "shared ''DefaultRateLimit'' = RequestsPerSecond DefaultRateLimiterConfig"
  "shared ''DefaultRateBurst'' = Burst DefaultRateLimiterConfig"
  by (simp_all add: shared_def shared_limits_def Validation.MaxSQLLength_def MaxIdentifierLength_def defaultMaxRows_def defaultQueryTimeout_def
      MinJWTSecretLength_def DefaultRateLimiterConfig_def)

end
