(* ===== verification/Spec2Isabelle.thy ===== *)
theory Spec2Isabelle
  imports Props_Security Props_Pool Props_Tools Props_Meta Props_Service Props_Process Props_Reload Props_Shutdown Props_Command Props_Results Constants
begin

text \<open>
  A model of SafeMySQLMcpServer: an MCP server that lets authenticated clients run SQL on configured
  MySQL clusters through a policy gate, with audit logging, rate limiting and hot reloading.

  \<^bold>\<open>The program and how its parts interact.\<close> \<open>cmd/server/main.go\<close> loads a configuration, builds a
  server and a watcher, and connects the watcher's callback to \<open>Server.UpdateConfig\<close>. A request to
  \<open>/mcp\<close> passes metrics, rate limit and authentication middleware (\<open>internal/server\<close>,
  \<open>internal/auth\<close>, \<open>internal/metrics\<close>) and reaches the tools of \<open>internal/mcp/tools.go\<close>. The query
  tool parses the statement and checks it (\<open>internal/security\<close>), rewrites it when asked to, routes it to
  the cluster of its database (\<open>internal/database\<close>), reads the rows and writes an audit entry
  (\<open>internal/audit\<close>). The metadata tools validate and quote names (\<open>internal/validation\<close>).

  \<^bold>\<open>Theories and the code they model.\<close>
  \<^item> \<open>Go_Prelude\<close>, \<open>Go_Strings\<close>, \<open>Go_Json\<close>, \<open>Json_Value\<close>, \<open>Go_Net\<close>, \<open>Go_Float\<close>, \<open>Go_Time\<close>, \<open>Go_Flag\<close>,
    \<open>Sql_DB\<close>: what the program uses of Go and its standard library: times, panics as values, byte strings,
    \<open>strings\<close>, JSON strings, times and values, \<open>net.ParseIP\<close>, \<open>float64\<close> and \<open>strconv.ParseFloat\<close>,
    \<open>time.ParseDuration\<close>, \<open>flag.Parse\<close>, handles and connections of \<open>database/sql\<close>.
  \<^item> \<open>Validation\<close>: \<open>internal/validation/validator.go\<close>; \<open>Config\<close>: \<open>internal/config/config.go\<close> and
    \<open>validation.go\<close>; \<open>Watcher\<close>: \<open>internal/config/watcher.go\<close>; \<open>Constants\<close>: \<open>internal/constants\<close>.
  \<^item> \<open>Sql_Parser\<close>, \<open>Checker\<close>, \<open>Rewriter\<close>: \<open>internal/security\<close>; \<open>Limit_Clauses\<close>: the LIMIT clauses of a text
    and what the rewriter does to them.
  \<^item> \<open>Pool\<close> (operations), \<open>Pool_Inv\<close>, \<open>Pool_Update\<close>, \<open>Pool_New\<close>, \<open>Pool_Owned\<close> (their laws) and
    \<open>Pool_Concurrency\<close> (a Get and an update interleaved), \<open>Pool_Updates\<close>, \<open>Pool_Lost\<close> (overlapping
    updates): \<open>internal/database/pool.go\<close>; \<open>Router\<close>: \<open>internal/database/router.go\<close>.
  \<^item> \<open>Audit_Log\<close>, \<open>Audit_Lines\<close>, \<open>Audit_Run\<close>: \<open>internal/audit/logger.go\<close>; \<open>Auth\<close>: \<open>internal/auth/jwt.go\<close>;
    \<open>Metrics\<close>: \<open>internal/metrics/metrics.go\<close>; \<open>Rate_Limit\<close>: \<open>internal/server/ratelimit.go\<close>.
  \<^item> \<open>Tools\<close> (the handlers), \<open>Tools_Laws\<close>, \<open>Tools_Meta\<close>, \<open>Tools_Errors\<close> (their laws): \<open>internal/mcp/tools.go\<close>;
    \<open>Tool_Results\<close>: its result and argument structs as JSON and \<open>MarshalResult\<close>, and \<open>internal/mcp/server.go\<close>.
  \<^item> \<open>Server\<close>, \<open>Service\<close>: \<open>internal/server/http.go\<close>; \<open>Reachable\<close>: the running service as a step
    relation with whole updates; \<open>Main_Program\<close>: \<open>cmd/server/main.go\<close>; \<open>Command_Line\<close>: its flags and
    \<open>pkg/token/main.go\<close>; \<open>Process\<close>: the process that \<open>main\<close> runs, one whole event after the other, simulated
    by the step relation of \<open>Reachable\<close>; \<open>Reload_Concurrency\<close>, \<open>Reload_Stale\<close>, \<open>Reload_Alone\<close>: reloads that
    may overlap, one locked section at a time, and the process among them; \<open>Reload_Lone\<close>: the invariant
    as long as no two overlap; \<open>Late_Steps\<close>: the shutdown among the other goroutines and what comes after it.
  \<^item> \<open>Demo\<close>: one concrete deployment for the witnesses. \<open>Props_Security\<close>, \<open>Props_Pool\<close>, \<open>Props_Tools\<close>,
    \<open>Props_Meta\<close>, \<open>Props_Service\<close>, \<open>Props_Process\<close>, \<open>Props_Reload\<close>, \<open>Props_Shutdown\<close>, \<open>Props_Command\<close>, \<open>Props_Results\<close>: the
    properties.

  \<^bold>\<open>State.\<close> Every component passes its state explicitly, and the records extend each other the way
  the structs share their parts: \<open>world\<close> (handles, what was sent) below \<open>pool\<close> below \<open>router\<close> below
  \<open>handler\<close> below \<open>server\<close>. Pointers to shared objects are numbers into a heap field (\<open>dbs\<close>, \<open>mdbs\<close>,
  \<open>lj_heap\<close>). Errors are sums, panics the value \<open>Panic\<close>, map iteration orders arguments that range over
  the map, and everything sent to MySQL is recorded in \<open>trace\<close> with its timeout.

  \<^bold>\<open>What the lemmas show.\<close> The security group: the checker decides an abstract policy; what the
  rewriter does to a text, against a description of LIMIT clauses of its own; quoting and escaping are codecs that MySQL's readers invert.
  The pool group: the invariant and the exact effect of a reconfiguration, a race that hands out a closed
  handle and always ends, no handle lost as long as updates do not overlap, and the connections and references
  a request keeps. The tools group: only text the policy
  allows is sent, what is sent and answered, and one audit entry per query. The service group: the HTTP
  gate, who is let in by a token, rate limits, metrics, construction, updates, polling, and that every HTTP
  request is a sequence of steps of the process. The reload group: what every interleaving of updates and
  reloads keeps, that updates come to an end, schedules that lose a cluster, lose a handle or leave the
  checker with old rules, and that the process is one of the interleavings. The shutdown group: the
  service invariant in every state of the interleavings in which no two reloads overlap, the states inside a
  reload included, what a shutdown leaves open, and that nothing comes back that was closed.
  The command group: flags read back however they are written, and lifetimes in days are exact until they
  overflow. The results group: results have the type of their tool, and their JSON reads back and
  determines them where it can.

  \<^bold>\<open>Interfaces.\<close> The contracts are locales, interpreted on the model: \<open>text_codec\<close> and
  \<open>identifier_check\<close> (quoting, escaping, validators), \<open>sql_gate\<close> (the checker), \<open>rules_cell\<close> (checker and
  rewriter), \<open>handle_source\<close> (the pool), \<open>audit_sink\<close> (the logger), \<open>middleware\<close> (three instances).

  \<^bold>\<open>Bounds and fuel.\<close> \<open>waitForRelease\<close> polls every 50 ms under a deadline of 10 s shared by all clusters
  of an update: \<open>update_polls = 200\<close> polls in all. The reader of JSON has fuel, and the length of the
  text is enough. No other function has fuel: the remaining loops are
  structural or have a measure. \<open>refCount\<close> wraps at 32 bits; sizes and limits are unbounded integers
  where the code compares them only, and \<open>Sscanf\<close> fails beyond 64 bits.

  \<^bold>\<open>Third-party code\<close> is an argument: the TiDB parser (\<open>tidb\<close>), MySQL and its driver (\<open>driver\<close>), the JWT
  library (\<open>jwt_lib\<close>, with \<open>jwt_keyed\<close> for what is relied on), the token bucket (\<open>rate_lib\<close>), the YAML
  decoder, the MCP SDK's HTTP handler (\<open>sdk_only_calls_tools\<close> where its effect matters) and Prometheus'
  exposition. Files, environment, clock and the
  callers of other goroutines are arguments too.

  \<^bold>\<open>Not modelled.\<close> Mutexes as objects: \<open>Pool_Concurrency\<close>, \<open>Pool_Updates\<close> and \<open>Reload_Concurrency\<close> have
  one step per locked section; other operations are atomic, a tool call among them, though pool calls of
  others come in between the steps of a reload. Log messages, signals and listening sockets,
  the protocol of the MCP SDK and the exposition of the metrics. \<open>ToLower\<close> and \<open>ToUpper\<close> change ASCII
  letters only. The timeouts of the HTTP server are not described. A panic ends the model of a call; what
  the HTTP server does with it is not described. What a \<open>float64\<close> that does not fit an integer is
  converted to is an argument (\<open>conv\<close>), since the language leaves it open.
\<close>

end
